theory Spec2Isabelle
  imports Main
begin

section \<open>Errors\<close>

text \<open>
  Go's \<open>error\<close> values. \<open>Wrap m e\<close> is \<open>fmt.Errorf("m: %w", e)\<close>; \<open>Err m\<close> is an error
  made from a message alone. A function of the source returning \<open>error\<close> returns
  \<open>error option\<close> here (\<open>None\<close> is \<open>nil\<close>); one returning \<open>(T, error)\<close> returns \<open>error + T\<close>.
  \<open>ConfigPerms\<close> and \<open>ConfigParse\<close> are the spec's error kinds \<open>CONFIG_PERMS\<close> and
  \<open>CONFIG_PARSE\<close> of the verifier's trusted files. \<open>Panic\<close> stands for a run-time panic
  unwinding the caller.
\<close>

datatype error =
    ErrNotExist
  | ErrPermission
  | Canceled
  | Err string
  | Wrap string error
  | ConfigPerms string
  | ConfigParse string
  | Panic string

text \<open>\<open>errors.Is(err, os.ErrNotExist)\<close>: follows the chain of wrapped errors.\<close>

fun Is_NotExist :: "error \<Rightarrow> bool" where
  "Is_NotExist ErrNotExist = True"
| "Is_NotExist (Wrap m e) = Is_NotExist e"
| "Is_NotExist e = False"

text \<open>File modes are written in octal in the source: \<open>oct 6 4 0\<close> is \<open>0640\<close>.\<close>

definition oct :: "nat \<Rightarrow> nat \<Rightarrow> nat \<Rightarrow> nat" where
  "oct a b c = a * 64 + b * 8 + c"

section \<open>Paths (path/filepath)\<close>

fun join_slash :: "string list \<Rightarrow> string" where
  "join_slash [] = []"
| "join_slash [x] = x"
| "join_slash (x # y # ys) = x @ ''/'' @ join_slash (y # ys)"

text \<open>The elements of a path: the pieces between its slashes, empty ones included.\<close>

fun split_slash :: "string \<Rightarrow> string list" where
  "split_slash [] = [[]]"
| "split_slash (c # cs) =
     (if c = CHR ''/'' then [] # split_slash cs
      else (c # hd (split_slash cs)) # tl (split_slash cs))"

definition rooted :: "string \<Rightarrow> bool" where
  "rooted p \<longleftrightarrow> p \<noteq> [] \<and> hd p = CHR ''/''"

text \<open>
  \<open>filepath.Clean\<close>, by its four rules: multiple slashes count as one and \<open>.\<close> elements
  are dropped (\<open>comps\<close>); an inner \<open>..\<close> takes away the element before it, and a \<open>..\<close>
  at the start of a rooted path is dropped (\<open>clean_step\<close>); the result has no slash at
  its end unless it is the root, and the empty result is \<open>.\<close> (\<open>render\<close>).
\<close>

definition comps :: "string \<Rightarrow> string list" where
  "comps p = filter (\<lambda>c. c \<noteq> [] \<and> c \<noteq> ''.'') (split_slash p)"

definition clean_step :: "bool \<Rightarrow> string list \<Rightarrow> string \<Rightarrow> string list" where
  "clean_step r st c =
     (if c = ''..'' then
        (if st \<noteq> [] \<and> last st \<noteq> ''..'' then butlast st
         else if r then st
         else st @ [c])
      else st @ [c])"

definition clean_stack :: "bool \<Rightarrow> string list \<Rightarrow> string list" where
  "clean_stack r cs = foldl (clean_step r) [] cs"

definition render :: "bool \<Rightarrow> string list \<Rightarrow> string" where
  "render r st =
     (if r then ''/'' @ join_slash st
      else if st = [] then ''.''
      else join_slash st)"

definition Clean :: "string \<Rightarrow> string" where
  "Clean p = render (rooted p) (clean_stack (rooted p) (comps p))"

text \<open>
  \<open>filepath.Join\<close>: the non-empty elements joined by a slash and cleaned; the empty
  string when there is no non-empty element.
\<close>

definition Join :: "string list \<Rightarrow> string" where
  "Join xs =
     (let ys = filter (\<lambda>x. x \<noteq> []) xs in
      if ys = [] then [] else Clean (join_slash ys))"

text \<open>
  \<open>filepath.Dir\<close>: the path up to and including its last slash, cleaned.
\<close>

definition Dir :: "string \<Rightarrow> string" where
  "Dir p = Clean (rev (dropWhile (\<lambda>c. c \<noteq> CHR ''/'') (rev p)))"

text \<open>
  A path whose last element is empty, \<open>.\<close> or \<open>..\<close> can only name a directory.
\<close>

definition names_dir :: "string \<Rightarrow> bool" where
  "names_dir p \<longleftrightarrow>
     last (split_slash p) = [] \<or> last (split_slash p) = ''.'' \<or> last (split_slash p) = ''..''"

section \<open>The file system\<close>

text \<open>
  The \<open>afero.Fs\<close> the commands work on, as the operating system behind it: regular
  files and directories by their cleaned path, each with its permission bits; the paths
  at which the operating system refuses access; and the process's file mode creation
  mask. The root and the current directory always exist; there are no links, and \<open>..\<close>
  is resolved as \<open>Clean\<close> does.
\<close>

record fnode =
  data :: string
  perm :: nat
  isdir :: bool

record Fs =
  files :: "string \<Rightarrow> fnode option"
  denied :: "string \<Rightarrow> bool"
  umask :: nat

definition root_dir :: fnode where
  "root_dir = \<lparr>data = [], perm = oct 7 5 5, isdir = True\<rparr>"

text \<open>What is at a cleaned path.\<close>

definition node_key :: "Fs \<Rightarrow> string \<Rightarrow> fnode option" where
  "node_key f k = (if k = ''/'' \<or> k = ''.'' then Some root_dir else files f k)"

text \<open>What is at a path.\<close>

definition node_at :: "Fs \<Rightarrow> string \<Rightarrow> fnode option" where
  "node_at f p = node_key f (Clean p)"

definition is_directory :: "Fs \<Rightarrow> string \<Rightarrow> bool" where
  "is_directory f p = (case node_at f p of None \<Rightarrow> False | Some n \<Rightarrow> isdir n)"

text \<open>The permission bits of a new file or directory: those asked for, less the mask.\<close>

definition mask_mode :: "nat \<Rightarrow> nat \<Rightarrow> nat" where
  "mask_mode m u = m - Bit_Operations.and m u"

definition Stat :: "Fs \<Rightarrow> string \<Rightarrow> error + fnode" where
  "Stat f p =
     (if p = [] then Inl ErrNotExist
      else if denied f (Clean p) then Inl ErrPermission
      else case node_at f p of
             None \<Rightarrow> Inl ErrNotExist
           | Some n \<Rightarrow> if names_dir p \<and> \<not> isdir n then Inl (Err ''not a directory'') else Inr n)"

definition Open :: "Fs \<Rightarrow> string \<Rightarrow> error + fnode" where
  "Open f p =
     (if p = [] then Inl ErrNotExist
      else if denied f (Clean p) then Inl ErrPermission
      else case node_at f p of
             None \<Rightarrow> Inl ErrNotExist
           | Some n \<Rightarrow> if names_dir p \<and> \<not> isdir n then Inl (Err ''not a directory'') else Inr n)"

definition ReadFile :: "Fs \<Rightarrow> string \<Rightarrow> error + string" where
  "ReadFile f p =
     (case Open f p of
        Inl e \<Rightarrow> Inl e
      | Inr n \<Rightarrow> if isdir n then Inl (Err ''is a directory'') else Inr (data n))"

text \<open>
  \<open>afero.WriteFile\<close>, that is \<open>OpenFile\<close> with \<open>O_WRONLY|O_CREATE|O_TRUNC\<close> and a write:
  a file that exists is truncated and written and keeps its permission bits; a file
  that does not exist is created in its directory, which must exist, with the given
  permission bits less the mask.
\<close>

definition WriteFile :: "Fs \<Rightarrow> string \<Rightarrow> string \<Rightarrow> nat \<Rightarrow> error + Fs" where
  "WriteFile f p d m =
     (if p = [] then Inl ErrNotExist
      else if denied f (Clean p) then Inl ErrPermission
      else if names_dir p then Inl (Err ''is a directory'')
      else case node_at f p of
             Some n \<Rightarrow>
               if isdir n then Inl (Err ''is a directory'')
               else Inr (f\<lparr>files := (files f)(Clean p \<mapsto> n\<lparr>data := d\<rparr>)\<rparr>)
           | None \<Rightarrow>
               if \<not> is_directory f (Dir p) then Inl ErrNotExist
               else Inr (f\<lparr>files := (files f)(Clean p \<mapsto>
                            \<lparr>data = d, perm = mask_mode m (umask f), isdir = False\<rparr>)\<rparr>))"

text \<open>
  \<open>OpenFile\<close> with \<open>O_APPEND|O_WRONLY|O_CREATE\<close>: creates an empty file as \<open>WriteFile\<close>
  does when there is none, and leaves an existing file as it is.
\<close>

definition OpenFile_append :: "Fs \<Rightarrow> string \<Rightarrow> nat \<Rightarrow> error + Fs" where
  "OpenFile_append f p m =
     (if p = [] then Inl ErrNotExist
      else if denied f (Clean p) then Inl ErrPermission
      else if names_dir p then Inl (Err ''is a directory'')
      else case node_at f p of
             Some n \<Rightarrow> if isdir n then Inl (Err ''is a directory'') else Inr f
           | None \<Rightarrow>
               if \<not> is_directory f (Dir p) then Inl ErrNotExist
               else Inr (f\<lparr>files := (files f)(Clean p \<mapsto>
                            \<lparr>data = [], perm = mask_mode m (umask f), isdir = False\<rparr>)\<rparr>))"

text \<open>
  \<open>MkdirAll\<close>: the directory and every directory above it that does not exist are made,
  from the top down, with the given permission bits less the mask; a regular file in
  the way is an error.
\<close>

definition ancestors :: "string \<Rightarrow> string list" where
  "ancestors p =
     (let r = rooted p; st = clean_stack r (comps p)
      in map (\<lambda>i. render r (take i st)) [1..<Suc (length st)])"

fun mkdir_keys :: "Fs \<Rightarrow> nat \<Rightarrow> string list \<Rightarrow> error + Fs" where
  "mkdir_keys f m [] = Inr f"
| "mkdir_keys f m (k # ks) =
     (if denied f k then Inl ErrPermission
      else case node_key f k of
             Some n \<Rightarrow> if isdir n then mkdir_keys f m ks else Inl (Err ''not a directory'')
           | None \<Rightarrow>
               mkdir_keys
                 (f\<lparr>files := (files f)(k \<mapsto>
                     \<lparr>data = [], perm = mask_mode m (umask f), isdir = True\<rparr>)\<rparr>) m ks)"

definition MkdirAll :: "Fs \<Rightarrow> string \<Rightarrow> nat \<Rightarrow> error + Fs" where
  "MkdirAll f p m = (if p = [] then Inl ErrNotExist else mkdir_keys f m (ancestors p))"

section \<open>The process\<close>

text \<open>
  What a command does to the outside: the calls it makes on the file system for writing,
  on the OpenID provider, and its one wait in the refresh loop.
\<close>

datatype event =
    EvWriteFile string string nat
  | EvChooseOp
  | EvAuth string
  | EvWait int
  | EvRefresh

text \<open>Where the standard logger writes (\<open>log.SetOutput\<close>); Go's default is standard error.\<close>

datatype log_target = ToStderr | ToStdout | ToFile | ToStdoutAndFile

record World =
  fs :: Fs
  env :: "string \<Rightarrow> string option"
  log_out :: log_target
  stdout :: "string list"
  stderr :: "string list"
  logfile :: "string list"
  events :: "event list"

text \<open>
  \<open>log.Print*\<close> and \<open>fmt.Print*\<close>, one list element per call, without the logger's time
  stamp. The bytes of the open log file are kept in \<open>logfile\<close>, not in \<open>files\<close>.
\<close>

definition log_Print :: "string \<Rightarrow> World \<Rightarrow> World" where
  "log_Print s w =
     (case log_out w of
        ToStderr \<Rightarrow> w\<lparr>stderr := stderr w @ [s]\<rparr>
      | ToStdout \<Rightarrow> w\<lparr>stdout := stdout w @ [s]\<rparr>
      | ToFile \<Rightarrow> w\<lparr>logfile := logfile w @ [s]\<rparr>
      | ToStdoutAndFile \<Rightarrow> w\<lparr>stdout := stdout w @ [s], logfile := logfile w @ [s]\<rparr>)"

definition fmt_Print :: "string \<Rightarrow> World \<Rightarrow> World" where
  "fmt_Print s w = w\<lparr>stdout := stdout w @ [s]\<rparr>"

text \<open>\<open>os.UserHomeDir\<close> on Unix: the value of \<open>$HOME\<close>, an error when it is unset or empty.\<close>

definition UserHomeDir :: "World \<Rightarrow> error + string" where
  "UserHomeDir w =
     (case env w ''HOME'' of
        None \<Rightarrow> Inl (Err ''$HOME is not defined'')
      | Some h \<Rightarrow> if h = [] then Inl (Err ''$HOME is not defined'') else Inr h)"

section \<open>Writing the key files (commands/login.go)\<close>

text \<open>\<open>LoginCmd.fileExists\<close>: true unless opening the path fails with "does not exist".\<close>

definition fileExists :: "World \<Rightarrow> string \<Rightarrow> bool" where
  "fileExists w fPath =
     (case Open (fs w) fPath of Inl e \<Rightarrow> \<not> Is_NotExist e | Inr n \<Rightarrow> True)"

text \<open>A \<open>WriteFile\<close> of the command: the call is recorded, then made.\<close>

definition afs_WriteFile :: "string \<Rightarrow> string \<Rightarrow> nat \<Rightarrow> World \<Rightarrow> error option \<times> World" where
  "afs_WriteFile p d m w =
     (let w1 = w\<lparr>events := events w @ [EvWriteFile p d m]\<rparr> in
      case WriteFile (fs w1) p d m of
        Inl e \<Rightarrow> (Some e, w1)
      | Inr f \<Rightarrow> (None, w1\<lparr>fs := f\<rparr>))"

text \<open>\<open>LoginCmd.writeKeys\<close>.\<close>

definition writeKeys :: "string \<Rightarrow> string \<Rightarrow> string \<Rightarrow> string \<Rightarrow> World \<Rightarrow> error option \<times> World" where
  "writeKeys seckeyPath pubkeyPath seckeySshPem certBytes w =
     (case afs_WriteFile seckeyPath seckeySshPem (oct 6 0 0) w of
        (Some e, w1) \<Rightarrow> (Some e, w1)
      | (None, w1) \<Rightarrow>
          (let w2 = fmt_Print (''Writing opk ssh public key to '' @ pubkeyPath @
                       '' and corresponding secret key to '' @ seckeyPath) w1
           in afs_WriteFile pubkeyPath (certBytes @ '' openpubkey'') (oct 6 4 4) w2))"

text \<open>
  The loop of \<open>writeKeysToSSHDir\<close> over the default key file names.
  \<open>ParseAuthorizedKey\<close> is \<open>ssh.ParseAuthorizedKey\<close> of the SSH library reduced to what
  the loop uses: the comment of the key, or an error.
\<close>

fun try_key_files ::
  "(string \<Rightarrow> error + string) \<Rightarrow> string \<Rightarrow> string list \<Rightarrow> string \<Rightarrow> string \<Rightarrow> World
     \<Rightarrow> error option \<times> World" where
  "try_key_files ParseAuthorizedKey sshPath [] seckeySshPem certBytes w =
     (Some (Err ''no default ssh key file free for openpubkey''), w)"
| "try_key_files ParseAuthorizedKey sshPath (keyFilename # rest) seckeySshPem certBytes w =
     (let seckeyPath = Join [sshPath, keyFilename];
          pubkeyPath = seckeyPath @ ''.pub''
      in if \<not> fileExists w seckeyPath then
           writeKeys seckeyPath pubkeyPath seckeySshPem certBytes w
         else if \<not> fileExists w pubkeyPath then
           try_key_files ParseAuthorizedKey sshPath rest seckeySshPem certBytes w
         else
           (case ReadFile (fs w) pubkeyPath of
              Inl e \<Rightarrow>
                try_key_files ParseAuthorizedKey sshPath rest seckeySshPem certBytes
                  (log_Print (''Failed to read: '' @ pubkeyPath) w)
            | Inr sshPubkey \<Rightarrow>
                (case ParseAuthorizedKey sshPubkey of
                   Inl e \<Rightarrow>
                     try_key_files ParseAuthorizedKey sshPath rest seckeySshPem certBytes
                       (log_Print (''Failed to parse: '' @ pubkeyPath) w)
                 | Inr comment \<Rightarrow>
                     if comment = ''openpubkey'' then
                       writeKeys seckeyPath pubkeyPath seckeySshPem certBytes w
                     else
                       try_key_files ParseAuthorizedKey sshPath rest seckeySshPem certBytes w)))"

text \<open>\<open>LoginCmd.writeKeysToSSHDir\<close>; \<open>os.ModePerm\<close> is \<open>0777\<close>.\<close>

definition writeKeysToSSHDir ::
  "(string \<Rightarrow> error + string) \<Rightarrow> string \<Rightarrow> string \<Rightarrow> World \<Rightarrow> error option \<times> World" where
  "writeKeysToSSHDir ParseAuthorizedKey seckeySshPem certBytes w =
     (case UserHomeDir w of
        Inl e \<Rightarrow> (Some e, w)
      | Inr homePath \<Rightarrow>
          (let sshPath = Join [homePath, ''.ssh''] in
           case MkdirAll (fs w) sshPath (oct 7 7 7) of
             Inl e \<Rightarrow> (Some e, w)
           | Inr f \<Rightarrow>
               try_key_files ParseAuthorizedKey sshPath [''id_ecdsa'', ''id_ed25519'']
                 seckeySshPem certBytes (w\<lparr>fs := f\<rparr>)))"

section \<open>The login command's data (commands/login.go, commands/config/client_config.go)\<close>

text \<open>
  \<open>fmt.Errorf("m: %w", e)\<close> on the way out of a function; a panic is not a value the
  caller can wrap, it passes through.
\<close>

fun Errorf_w :: "string \<Rightarrow> error \<Rightarrow> error" where
  "Errorf_w m (Panic s) = Panic s"
| "Errorf_w m e = Wrap m e"

text \<open>
  A call that may not return within the observed run (the refresh loop) either
  \<open>Returns\<close> its value or is still \<open>Running\<close> when the observation ends.
\<close>

datatype 'a outcome = Returns 'a | Running

text \<open>
  An OpenID provider as the login command sees it: its issuer, whether it also
  implements \<open>RefreshableOpenIdProvider\<close>, and whether it implements
  \<open>BrowserOpenIdProvider\<close> (the two type assertions of the source).
\<close>

record OpenIdProvider =
  Issuer :: string
  refreshable :: bool
  browser :: bool

record PKToken =
  Payload :: string
  OpToken :: string

text \<open>
  Modelled from the spec: \<open>config.ProviderConfig\<close>, whose declaration is not among the
  sources; the spec's Provider Config is
  \<open>{alias, issuer, client_id, client_secret?, redirect_uris?, scopes?, expiration_policy}\<close>.
  The login command only passes these values on.
\<close>

record ProviderConfig =
  pc_alias :: string
  pc_issuer :: string
  pc_client_id :: string
  pc_client_secret :: string
  pc_expiration_policy :: string

record ClientConfig =
  DefaultProvider :: string
  Providers :: "ProviderConfig list"

text \<open>
  Modelled from the spec: the two constants of package \<open>config\<close> that \<open>determineProvider\<close>
  uses and whose declarations are not among the sources: the alias \<open>WEBCHOOSER\<close> of the
  interactive chooser and the environment variable \<open>OPKSSH_DEFAULT\<close>.
\<close>

definition WEBCHOOSER_ALIAS :: string where
  "WEBCHOOSER_ALIAS = ''WEBCHOOSER''"

definition OPKSSH_DEFAULT_ENVVAR :: string where
  "OPKSSH_DEFAULT_ENVVAR = ''OPKSSH_DEFAULT''"

text \<open>
  The functions of package \<open>config\<close> and of the libraries that the login command calls
  and whose code is not among the sources, taken as parameters: the YAML decoder of the
  client configuration, the embedded default configuration, the provider configuration
  functions and the web chooser.
\<close>

record ConfigExt =
  yaml_ClientConfig :: "string \<Rightarrow> error + ClientConfig"
  DefaultClientConfig :: string
  NewProviderConfigFromString :: "string \<Rightarrow> bool \<Rightarrow> error + ProviderConfig"
  ToProvider :: "ProviderConfig \<Rightarrow> bool \<Rightarrow> error + OpenIdProvider"
  GetProvidersConfigFromEnv :: "(string \<Rightarrow> string option) \<Rightarrow> error + ProviderConfig list option"
  CreateProvidersMap :: "ProviderConfig list \<Rightarrow> error + (string \<Rightarrow> ProviderConfig option)"
  ChooseOp :: "OpenIdProvider list \<Rightarrow> bool \<Rightarrow> error + OpenIdProvider"

text \<open>The claims of an ID token that the login command reads.\<close>

record Claims =
  Email :: string
  Subject :: string
  claim_Issuer :: string
  Audience :: string

text \<open>
  Likewise the OpenPubkey client, the SSH certificate package and the encoders, with
  keys, certificates and PEM blocks as opaque strings. \<open>NewJwt_claims\<close> is \<open>oidc.NewJwt\<close>
  followed by \<open>GetClaims\<close>. \<open>Unmarshal_exp\<close> is
  \<open>json.Unmarshal\<close> into the \<open>claims\<close> struct of \<open>LoginWithRefresh\<close>: it takes the payload
  and the struct's current \<open>exp\<close> and gives the new one.
\<close>

record OpkExt =
  GenKeyPair :: "error + string"
  client_New :: "OpenIdProvider \<Rightarrow> string \<Rightarrow> error option"
  client_Auth :: "OpenIdProvider \<Rightarrow> string \<Rightarrow> error + PKToken"
  sshcert_New :: "PKToken \<Rightarrow> string list \<Rightarrow> error + string"
  NewSignerFromSigner :: "string \<Rightarrow> error + string"
  NewSignerWithAlgorithms :: "string \<Rightarrow> error + string"
  SignCert :: "string \<Rightarrow> string \<Rightarrow> error + string"
  MarshalAuthorizedKey :: "string \<Rightarrow> string"
  MarshalPrivateKey :: "string \<Rightarrow> string \<Rightarrow> error + string"
  EncodeToMemory :: "string \<Rightarrow> string"
  ParseAuthorizedKey :: "string \<Rightarrow> error + string"
  NewJwt_claims :: "string \<Rightarrow> error + Claims"
  MarshalIndent :: "Claims \<Rightarrow> error + string"
  Compact :: "PKToken \<Rightarrow> error + string"
  SplitCompactString :: "string \<Rightarrow> error + string"
  DecodeString :: "string \<Rightarrow> error + string"
  Unmarshal_exp :: "string \<Rightarrow> int \<Rightarrow> error + int"

record LoginCmd =
  autoRefreshArg :: bool
  configPathArg :: string
  createConfigArg :: bool
  logDirArg :: string
  disableBrowserOpenArg :: bool
  printIdTokenArg :: bool
  keyPathArg :: string
  providerArg :: string
  providerAliasArg :: string
  verbosity :: int
  overrideProvider :: "OpenIdProvider option"
  config :: "ClientConfig option"

text \<open>The outputs of \<open>login\<close>: the fields of the \<open>LoginCmd\<close> it returns.\<close>

record LoginResult =
  pkt :: PKToken
  signer :: string
  client :: OpenIdProvider
  principals :: "string list"

subsection \<open>commands/config/client\_config.go\<close>

definition NewClientConfig :: "ConfigExt \<Rightarrow> string \<Rightarrow> error + ClientConfig" where
  "NewClientConfig C c = yaml_ClientConfig C c"

definition GetDefaultClientConfigPath :: "World \<Rightarrow> error + string" where
  "GetDefaultClientConfigPath w =
     (case UserHomeDir w of
        Inl dirErr \<Rightarrow> Inl (Errorf_w ''failed to get user config dir'' dirErr)
      | Inr dir \<Rightarrow> Inr (Join [dir, ''.opk'', ''config.yml'']))"

definition GetClientConfigFromFile :: "ConfigExt \<Rightarrow> string \<Rightarrow> World \<Rightarrow> error + ClientConfig" where
  "GetClientConfigFromFile C configPath w =
     (case (if configPath = [] then GetDefaultClientConfigPath w else Inr configPath) of
        Inl e \<Rightarrow> Inl e
      | Inr path \<Rightarrow>
          (case ReadFile (fs w) path of
             Inl e \<Rightarrow> Inl (Errorf_w ''failed to read config file'' e)
           | Inr configBytes \<Rightarrow>
               (case NewClientConfig C configBytes of
                  Inl e \<Rightarrow> Inl (Errorf_w ''failed to parse config file'' e)
                | Inr cfg \<Rightarrow> Inr cfg)))"

definition CreateDefaultClientConfig :: "ConfigExt \<Rightarrow> string \<Rightarrow> World \<Rightarrow> error option \<times> World" where
  "CreateDefaultClientConfig C configPath w =
     (case (if configPath = [] then GetDefaultClientConfigPath w else Inr configPath) of
        Inl e \<Rightarrow> (Some e, w)
      | Inr path \<Rightarrow>
          (case Stat (fs w) path of
             Inr n \<Rightarrow>
               (Some (Err (''attempting to create config file but config file already exists at ''
                           @ path)), w)
           | Inl e \<Rightarrow>
               (case MkdirAll (fs w) (Dir path) (oct 7 5 5) of
                  Inl e \<Rightarrow> (Some (Errorf_w ''failed to create config directory'' e), w)
                | Inr f \<Rightarrow>
                    (case afs_WriteFile path (DefaultClientConfig C) (oct 6 4 4)
                            (w\<lparr>fs := f\<rparr>) of
                       (Some e, w1) \<Rightarrow>
                         (Some (Errorf_w ''failed to write default config file'' e), w1)
                     | (None, w1) \<Rightarrow>
                         (None, log_Print (''created client config file at '' @ path) w1)))))"

subsection \<open>createSSHCert and login\<close>

text \<open>\<open>IdentityString\<close> and \<open>PrettyIdToken\<close>.\<close>

definition IdentityString :: "OpkExt \<Rightarrow> PKToken \<Rightarrow> error + string" where
  "IdentityString X pk =
     (case NewJwt_claims X (OpToken pk) of
        Inl e \<Rightarrow> Inl e
      | Inr claims \<Rightarrow>
          if Email claims = [] then
            Inr (''Sub, issuer, audience: '' @ [CHR 0x0A] @ Subject claims @ '' '' @
                 claim_Issuer claims @ '' '' @ Audience claims)
          else
            Inr (''Email, sub, issuer, audience: '' @ [CHR 0x0A] @ Email claims @ '' '' @
                 Subject claims @ '' '' @ claim_Issuer claims @ '' '' @ Audience claims))"

definition PrettyIdToken :: "OpkExt \<Rightarrow> PKToken \<Rightarrow> error + string" where
  "PrettyIdToken X pk =
     (case NewJwt_claims X (OpToken pk) of
        Inl e \<Rightarrow> Inl e
      | Inr claims \<Rightarrow>
          (case MarshalIndent X claims of
             Inl e \<Rightarrow> Inl e
           | Inr idtJson \<Rightarrow> Inr idtJson))"

text \<open>
  \<open>createSSHCert\<close>. The slice expression \<open>certBytes[:len(certBytes)-1]\<close> panics on an
  empty slice. (The type assertion to \<open>ssh.AlgorithmSigner\<close> is part of
  \<open>NewSignerWithAlgorithms\<close> here.)
\<close>

definition createSSHCert ::
  "OpkExt \<Rightarrow> PKToken \<Rightarrow> string \<Rightarrow> string list \<Rightarrow> error + (string \<times> string)" where
  "createSSHCert X pk skey princ =
     (case sshcert_New X pk princ of
        Inl e \<Rightarrow> Inl e
      | Inr cert \<Rightarrow>
     (case NewSignerFromSigner X skey of
        Inl e \<Rightarrow> Inl e
      | Inr sshSigner \<Rightarrow>
     (case NewSignerWithAlgorithms X sshSigner of
        Inl e \<Rightarrow> Inl e
      | Inr signerMas \<Rightarrow>
     (case SignCert X cert signerMas of
        Inl e \<Rightarrow> Inl e
      | Inr sshCert \<Rightarrow>
          (let certBytes = MarshalAuthorizedKey X sshCert in
           if certBytes = [] then Inl (Panic ''slice bounds out of range'')
           else
             (case MarshalPrivateKey X skey ''openpubkey cert'' of
                Inl e \<Rightarrow> Inl e
              | Inr seckeySsh \<Rightarrow> Inr (butlast certBytes, EncodeToMemory X seckeySsh)))))))"

text \<open>
  The block of \<open>login\<close> and of \<open>LoginWithRefresh\<close> that writes the keys: to
  \<open>seckeyPath\<close> when it is set, to the default location otherwise.
\<close>

definition write_ssh_keys ::
  "OpkExt \<Rightarrow> string \<Rightarrow> string \<Rightarrow> string \<Rightarrow> World \<Rightarrow> error option \<times> World" where
  "write_ssh_keys X seckeyPath seckeySshPem certBytes w =
     (case (if seckeyPath \<noteq> [] then
              writeKeys seckeyPath (seckeyPath @ ''.pub'') seckeySshPem certBytes w
            else
              writeKeysToSSHDir (ParseAuthorizedKey X) seckeySshPem certBytes w) of
        (Some e, w1) \<Rightarrow> (Some (Errorf_w ''failed to write SSH keys to filesystem'' e), w1)
      | (None, w1) \<Rightarrow> (None, w1))"

text \<open>The end of \<open>login\<close>, after the keys are written: the two printed reports.\<close>

definition login_report ::
  "OpkExt \<Rightarrow> PKToken \<Rightarrow> bool \<Rightarrow> World \<Rightarrow> error option \<times> World" where
  "login_report X pk printIdToken w =
     (case (if printIdToken then
              (case PrettyIdToken X pk of
                 Inl e \<Rightarrow> (Some (Errorf_w ''failed to format ID Token'' e), w)
               | Inr idTokenStr \<Rightarrow> (None, fmt_Print (''id_token: '' @ idTokenStr) w))
            else (None, w)) of
        (Some e, w1) \<Rightarrow> (Some e, w1)
      | (None, w1) \<Rightarrow>
          (case IdentityString X pk of
             Inl e \<Rightarrow> (Some (Errorf_w ''failed to parse ID Token'' e), w1)
           | Inr idStr \<Rightarrow>
               (None, fmt_Print (''Keys generated for identity '' @ idStr) w1)))"

text \<open>\<open>LoginCmd.login\<close>. The call of \<open>opkClient.Auth\<close> is recorded as \<open>EvAuth\<close>.\<close>

definition login ::
  "OpkExt \<Rightarrow> OpenIdProvider \<Rightarrow> bool \<Rightarrow> string \<Rightarrow> World \<Rightarrow> (error + LoginResult) \<times> World" where
  "login X provider printIdToken seckeyPath w =
     (case GenKeyPair X of
        Inl e \<Rightarrow> (Inl (Errorf_w ''failed to generate keypair'' e), w)
      | Inr skey \<Rightarrow>
     (case client_New X provider skey of
        Some e \<Rightarrow> (Inl e, w)
      | None \<Rightarrow>
     (let w1 = w\<lparr>events := events w @ [EvAuth (Issuer provider)]\<rparr> in
      case client_Auth X provider skey of
        Inl e \<Rightarrow> (Inl e, w1)
      | Inr pk \<Rightarrow>
     (case createSSHCert X pk skey [] of
        Inl e \<Rightarrow> (Inl (Errorf_w ''failed to generate SSH cert'' e), w1)
      | Inr (certBytes, seckeySshPem) \<Rightarrow>
     (case write_ssh_keys X seckeyPath seckeySshPem certBytes w1 of
        (Some e, w2) \<Rightarrow> (Inl e, w2)
      | (None, w2) \<Rightarrow>
     (case login_report X pk printIdToken w2 of
        (Some e, w3) \<Rightarrow> (Inl e, w3)
      | (None, w3) \<Rightarrow>
          (Inr \<lparr>pkt = pk, signer = skey, client = provider, principals = []\<rparr>, w3)))))))"

text \<open>\<open>LoginCmd.Login\<close>.\<close>

definition Login ::
  "OpkExt \<Rightarrow> OpenIdProvider \<Rightarrow> bool \<Rightarrow> string \<Rightarrow> World \<Rightarrow> error option \<times> World" where
  "Login X provider printIdToken seckeyPath w =
     (case login X provider printIdToken seckeyPath w of
        (Inl e, w1) \<Rightarrow> (Some e, w1)
      | (Inr r, w1) \<Rightarrow> (None, w1))"

section \<open>Notions on paths\<close>

text \<open>A file name: one element of a path that is not empty, \<open>.\<close> or \<open>..\<close>.\<close>

definition simple_name :: "string \<Rightarrow> bool" where
  "simple_name k \<longleftrightarrow> k \<noteq> [] \<and> k \<noteq> ''.'' \<and> k \<noteq> ''..'' \<and> CHR ''/'' \<notin> set k"

text \<open>A cleaned directory written in front of a name in it.\<close>

definition dir_prefix :: "bool \<Rightarrow> string list \<Rightarrow> string" where
  "dir_prefix r st = (if r then ''/'' else []) @ concat (map (\<lambda>c. c @ ''/'') st)"

text \<open>What \<open>Clean\<close> makes of the part of a path before its last element.\<close>

definition clean_dir :: "string \<Rightarrow> string" where
  "clean_dir p =
     dir_prefix (rooted p)
       (clean_stack (rooted p) (filter (\<lambda>c. c \<noteq> [] \<and> c \<noteq> ''.'') (butlast (split_slash p))))"

subsection \<open>LoginWithRefresh\<close>

text \<open>
  Go's \<open>time.Duration\<close> is a signed 64-bit count of nanoseconds: \<open>Time.Sub\<close> saturates
  and the subtraction of \<open>time.Minute\<close> wraps around.
\<close>

definition sat64 :: "int \<Rightarrow> int" where
  "sat64 x = max (- (2 ^ 63)) (min (2 ^ 63 - 1) x)"

definition wrap64 :: "int \<Rightarrow> int" where
  "wrap64 x = (x + 2 ^ 63) mod 2 ^ 64 - 2 ^ 63"

text \<open>
  \<open>time.Until(time.Unix(claims.Expiration, 0)) - time.Minute\<close>, with the clock reading in
  nanoseconds since the epoch.
\<close>

definition untilExpired :: "int \<Rightarrow> int \<Rightarrow> int" where
  "untilExpired expiration clock =
     wrap64 (sat64 (expiration * 1000000000 - clock) - 60000000000)"

text \<open>
  What the outside supplies to one turn of the loop: the clock reading, which case of the
  \<open>select\<close> is taken (the timer, or \<open>ctx.Done()\<close> with the context's error), and the
  result of \<open>client.Refresh\<close>.
\<close>

datatype select_outcome = TimerFired | CtxDone error

record tick =
  t_clock :: int
  t_select :: select_outcome
  t_refresh :: "error + PKToken"

text \<open>
  The end of the loop body: the payload of the refreshed token is decoded and its
  \<open>exp\<close> read into \<open>claims\<close>.
\<close>

definition refreshed_exp :: "OpkExt \<Rightarrow> PKToken \<Rightarrow> int \<Rightarrow> error + int" where
  "refreshed_exp X refreshedPkt expiration =
     (case Compact X refreshedPkt of
        Inl e \<Rightarrow> Inl e
      | Inr comPkt \<Rightarrow>
     (case SplitCompactString X comPkt of
        Inl e \<Rightarrow> Inl (Errorf_w ''malformed ID token'' e)
      | Inr payloadB64 \<Rightarrow>
     (case DecodeString X payloadB64 of
        Inl e \<Rightarrow> Inl (Errorf_w ''refreshed ID token payload is not base64 encoded'' e)
      | Inr payload \<Rightarrow>
     (case Unmarshal_exp X payload expiration of
        Inl e \<Rightarrow> Inl (Errorf_w ''malformed refreshed ID token payload'' e)
      | Inr expiration' \<Rightarrow> Inr expiration'))))"

text \<open>
  The \<open>for\<close> loop of \<open>LoginWithRefresh\<close>, one turn per tick; when the ticks are used up
  the loop is still \<open>Running\<close>. The log line of the wait is kept without the formatted
  duration, which is the argument of \<open>EvWait\<close>.
\<close>

fun refresh_loop ::
  "OpkExt \<Rightarrow> string \<Rightarrow> tick list \<Rightarrow> LoginResult \<Rightarrow> int \<Rightarrow> World \<Rightarrow> error outcome \<times> World" where
  "refresh_loop X seckeyPath [] loginResult expiration w = (Running, w)"
| "refresh_loop X seckeyPath (t # ts) loginResult expiration w =
     (let w1 = log_Print ''Waiting before attempting to refresh id_token...'' w;
          w2 = w1\<lparr>events := events w1 @ [EvWait (untilExpired expiration (t_clock t))]\<rparr>
      in case t_select t of
           CtxDone e \<Rightarrow> (Returns e, w2)
         | TimerFired \<Rightarrow>
             (let w3 = log_Print ''Refreshing id_token...'' w2;
                  w4 = w3\<lparr>events := events w3 @ [EvRefresh]\<rparr>
              in case t_refresh t of
                   Inl e \<Rightarrow> (Returns e, w4)
                 | Inr refreshedPkt \<Rightarrow>
                (case createSSHCert X refreshedPkt (signer loginResult) (principals loginResult) of
                   Inl e \<Rightarrow> (Returns (Errorf_w ''failed to generate SSH cert'' e), w4)
                 | Inr (certBytes, seckeySshPem) \<Rightarrow>
                (case write_ssh_keys X seckeyPath seckeySshPem certBytes w4 of
                   (Some e, w5) \<Rightarrow> (Returns e, w5)
                 | (None, w5) \<Rightarrow>
                (case refreshed_exp X refreshedPkt expiration of
                   Inl e \<Rightarrow> (Returns e, w5)
                 | Inr expiration' \<Rightarrow>
                     refresh_loop X seckeyPath ts (loginResult\<lparr>pkt := refreshedPkt\<rparr>)
                       expiration' w5)))))"

text \<open>\<open>LoginCmd.LoginWithRefresh\<close>; the \<open>claims\<close> struct starts with \<open>exp\<close> zero.\<close>

definition LoginWithRefresh ::
  "OpkExt \<Rightarrow> tick list \<Rightarrow> OpenIdProvider \<Rightarrow> bool \<Rightarrow> string \<Rightarrow> World \<Rightarrow> error outcome \<times> World" where
  "LoginWithRefresh X ticks provider printIdToken seckeyPath w =
     (case login X provider printIdToken seckeyPath w of
        (Inl e, w1) \<Rightarrow> (Returns e, w1)
      | (Inr loginResult, w1) \<Rightarrow>
          (case Unmarshal_exp X (Payload (pkt loginResult)) 0 of
             Inl e \<Rightarrow> (Returns e, w1)
           | Inr expiration \<Rightarrow> refresh_loop X seckeyPath ticks loginResult expiration w1))"

subsection \<open>determineProvider\<close>

text \<open>
  \<open>strings.ToUpper\<close> on UTF-8 bytes, as far as its result can be an ASCII letter: the
  ASCII letters, and the two letters outside ASCII whose upper case is an ASCII letter,
  the long s U+017F (bytes \<open>C5 BF\<close>, to \<open>S\<close>) and the dotless i U+0131 (bytes \<open>C4 B1\<close>, to
  \<open>I\<close>). Go maps every other rune to a rune outside ASCII; those bytes are left as they
  are here, which does not change whether the result is equal to an ASCII string.
\<close>

definition upper_char :: "char \<Rightarrow> char" where
  "upper_char c =
     (case map_of (zip ''abcdefghijklmnopqrstuvwxyz'' ''ABCDEFGHIJKLMNOPQRSTUVWXYZ'') c of
        None \<Rightarrow> c
      | Some u \<Rightarrow> u)"

fun ToUpper :: "string \<Rightarrow> string" where
  "ToUpper [] = []"
| "ToUpper [c] = [upper_char c]"
| "ToUpper (c # d # cs) =
     (if c = CHR 0xC5 \<and> d = CHR 0xBF then CHR ''S'' # ToUpper cs
      else if c = CHR 0xC4 \<and> d = CHR 0xB1 then CHR ''I'' # ToUpper cs
      else upper_char c # ToUpper (d # cs))"

text \<open>
  What \<open>determineProvider\<close> returns besides an error: a provider, or a web chooser over a
  list of providers. (It never returns neither, so the "no provider found" branch of
  \<open>Run\<close> has no counterpart here.)
\<close>

datatype choice = UseOp OpenIdProvider | UseChooser "OpenIdProvider list" bool

text \<open>
  The first block of \<open>determineProvider\<close>: the \<open>--provider\<close> argument alone decides.
\<close>

definition provider_from_arg :: "ConfigExt \<Rightarrow> string \<Rightarrow> bool \<Rightarrow> error + choice" where
  "provider_from_arg C arg openBrowser =
     (case NewProviderConfigFromString C arg False of
        Inl e \<Rightarrow> Inl (Errorf_w ''error parsing provider argument'' e)
      | Inr providerConfig \<Rightarrow>
          (case ToProvider C providerConfig openBrowser of
             Inl e \<Rightarrow> Inl (Errorf_w ''error creating provider from config'' e)
           | Inr provider \<Rightarrow> Inr (UseOp provider)))"

text \<open>
  The loop of the chooser branch; the type assertion to \<open>BrowserOpenIdProvider\<close> panics
  on a provider that is none.
\<close>

fun browser_providers ::
  "ConfigExt \<Rightarrow> bool \<Rightarrow> ProviderConfig list \<Rightarrow> error + OpenIdProvider list" where
  "browser_providers C openBrowser [] = Inr []"
| "browser_providers C openBrowser (providerConfig # rest) =
     (case ToProvider C providerConfig openBrowser of
        Inl e \<Rightarrow> Inl (Errorf_w ''error creating provider from config'' e)
      | Inr op \<Rightarrow>
          if \<not> browser op then Inl (Panic ''interface conversion'')
          else (case browser_providers C openBrowser rest of
                  Inl e \<Rightarrow> Inl e
                | Inr providerList \<Rightarrow> Inr (op # providerList)))"

text \<open>
  The last block of \<open>determineProvider\<close>: the provider named by the alias, or the chooser
  when the alias is \<open>WEBCHOOSER\<close> in any letter case.
\<close>

definition provider_by_alias ::
  "ConfigExt \<Rightarrow> string \<Rightarrow> ProviderConfig list \<Rightarrow> bool \<Rightarrow> error + choice" where
  "provider_by_alias C defaultProviderAlias providerConfigs openBrowser =
     (if ToUpper defaultProviderAlias \<noteq> WEBCHOOSER_ALIAS then
        (case CreateProvidersMap C providerConfigs of
           Inl e \<Rightarrow> Inl (Errorf_w ''error creating provider map'' e)
         | Inr providerMap \<Rightarrow>
             (case providerMap defaultProviderAlias of
                None \<Rightarrow>
                  Inl (Err (''error getting provider config for alias '' @ defaultProviderAlias))
              | Some providerConfig \<Rightarrow>
                  (case ToProvider C providerConfig openBrowser of
                     Inl e \<Rightarrow> Inl (Errorf_w ''error creating provider from config'' e)
                   | Inr provider \<Rightarrow> Inr (UseOp provider))))
      else
        (case browser_providers C openBrowser providerConfigs of
           Inl e \<Rightarrow> Inl e
         | Inr providerList \<Rightarrow> Inr (UseChooser providerList openBrowser)))"

text \<open>
  \<open>LoginCmd.determineProvider\<close>. \<open>os.LookupEnv\<close> gives the empty string for an unset
  variable. Reading \<open>l.config\<close> while it is \<open>nil\<close> panics.
\<close>

definition determineProvider :: "ConfigExt \<Rightarrow> LoginCmd \<Rightarrow> World \<Rightarrow> error + choice" where
  "determineProvider C l w =
     (let openBrowser = \<not> disableBrowserOpenArg l in
      if providerArg l \<noteq> [] then provider_from_arg C (providerArg l) openBrowser
      else
        (let defaultProviderEnv =
               (case env w OPKSSH_DEFAULT_ENVVAR of None \<Rightarrow> [] | Some v \<Rightarrow> v)
         in case GetProvidersConfigFromEnv C (env w) of
              Inl e \<Rightarrow> Inl (Errorf_w ''error getting provider config from env'' e)
            | Inr providerConfigsEnv \<Rightarrow>
           (case (if providerAliasArg l \<noteq> [] then Inr (providerAliasArg l)
                  else if defaultProviderEnv \<noteq> [] then Inr defaultProviderEnv
                  else (case config l of
                          None \<Rightarrow> Inl (Panic ''nil pointer dereference'')
                        | Some cfg \<Rightarrow>
                            if DefaultProvider cfg \<noteq> [] then Inr (DefaultProvider cfg)
                            else Inr WEBCHOOSER_ALIAS)) of
              Inl e \<Rightarrow> Inl e
            | Inr defaultProviderAlias \<Rightarrow>
           (case (case providerConfigsEnv of
                    Some pcs \<Rightarrow> Inr pcs
                  | None \<Rightarrow>
                      (case config l of
                         None \<Rightarrow> Inl (Panic ''nil pointer dereference'')
                       | Some cfg \<Rightarrow>
                           if length (Providers cfg) > 0 then Inr (Providers cfg)
                           else Inl (Err ''no providers specified''))) of
              Inl e \<Rightarrow> Inl e
            | Inr providerConfigs \<Rightarrow>
                provider_by_alias C defaultProviderAlias providerConfigs openBrowser))))"

subsection \<open>Run\<close>

text \<open>
  The first block of \<open>Run\<close>: where the log goes. When the log file cannot be opened,
  \<open>logFile\<close> is \<open>nil\<close> and \<open>defer logFile.Close()\<close> panics.
\<close>

definition Run_log_setup :: "LoginCmd \<Rightarrow> World \<Rightarrow> error option \<times> World" where
  "Run_log_setup l w =
     (if logDirArg l \<noteq> [] then
        (case OpenFile_append (fs w) (Join [logDirArg l, ''opkssh.log'']) (oct 6 6 0) of
           Inl e \<Rightarrow>
             (Some (Panic ''invalid memory address or nil pointer dereference''),
              log_Print ''Failed to open log for writing'' w)
         | Inr f \<Rightarrow> (None, w\<lparr>fs := f, log_out := ToStdoutAndFile\<rparr>))
      else (None, w\<lparr>log_out := ToStdout\<rparr>))"

text \<open>The default of \<open>configPathArg\<close>.\<close>

definition Run_config_path :: "LoginCmd \<Rightarrow> World \<Rightarrow> error + string" where
  "Run_config_path l w =
     (if configPathArg l = [] then
        (case UserHomeDir w of
           Inl dirErr \<Rightarrow> Inl (Errorf_w ''failed to get user config dir'' dirErr)
         | Inr dir \<Rightarrow> Inr (Join [dir, ''.opk'', ''config.yml'']))
      else Inr (configPathArg l))"

text \<open>
  The block of \<open>Run\<close> on the client configuration: \<open>Inl r\<close> when \<open>Run\<close> returns \<open>r\<close>
  there, \<open>Inr cfg\<close> when it goes on with the configuration \<open>cfg\<close>.
\<close>

definition Run_load_config ::
  "ConfigExt \<Rightarrow> LoginCmd \<Rightarrow> string \<Rightarrow> World \<Rightarrow> (error option + ClientConfig) \<times> World" where
  "Run_load_config C l path w =
     (case Stat (fs w) path of
        Inr n \<Rightarrow>
          (let w1 = (if createConfigArg l then
                       log_Print (''--create-config=true but config file already exists at ''
                                  @ path) w
                     else w)
           in case GetClientConfigFromFile C path w1 of
                Inl e \<Rightarrow> (Inl (Some e), w1)
              | Inr client_config \<Rightarrow> (Inr client_config, w1))
      | Inl err \<Rightarrow>
          if createConfigArg l then
            (case CreateDefaultClientConfig C path w of (r, w1) \<Rightarrow> (Inl r, w1))
          else
            (let w1 = log_Print ''failed to find client config file to generate a default config, run `opkssh login --create-config` to create a default config file'' w
             in case NewClientConfig C (DefaultClientConfig C) of
                  Inl e \<Rightarrow> (Inl (Some (Errorf_w ''failed to parse default config file'' e)), w1)
                | Inr cfg \<Rightarrow> (Inr cfg, w1)))"

text \<open>The block of \<open>Run\<close> that settles the provider; the chooser's call is recorded.\<close>

definition Run_provider ::
  "ConfigExt \<Rightarrow> LoginCmd \<Rightarrow> World \<Rightarrow> (error + OpenIdProvider) \<times> World" where
  "Run_provider C l w =
     (case overrideProvider l of
        Some p \<Rightarrow> (Inr p, w)
      | None \<Rightarrow>
          (case determineProvider C l w of
             Inl e \<Rightarrow> (Inl e, w)
           | Inr (UseChooser providerList openBrowser) \<Rightarrow>
               (let w1 = w\<lparr>events := events w @ [EvChooseOp]\<rparr> in
                case ChooseOp C providerList openBrowser of
                  Inl e \<Rightarrow> (Inl (Errorf_w ''error choosing provider'' e), w1)
                | Inr p \<Rightarrow> (Inr p, w1))
           | Inr (UseOp op) \<Rightarrow> (Inr op, w)))"

text \<open>
  \<open>Run\<close> up to the provider: \<open>Inl r\<close> when \<open>Run\<close> has returned \<open>r\<close> by then, \<open>Inr p\<close> when
  it goes on to log in with the provider \<open>p\<close>.
\<close>

definition Run_resolve ::
  "ConfigExt \<Rightarrow> LoginCmd \<Rightarrow> World \<Rightarrow> (error option + OpenIdProvider) \<times> World" where
  "Run_resolve C l w =
     (case Run_log_setup l w of
        (Some e, w1) \<Rightarrow> (Inl (Some e), w1)
      | (None, w1) \<Rightarrow>
     (let w2 = (if verbosity l \<ge> 2 then
                  log_Print ''DEBUG: running login command with args'' w1
                else w1)
      in case Run_config_path l w2 of
           Inl e \<Rightarrow> (Inl (Some e), w2)
         | Inr path \<Rightarrow>
     (case Run_load_config C l path w2 of
        (Inl r, w3) \<Rightarrow> (Inl r, w3)
      | (Inr cfg, w3) \<Rightarrow>
     (case Run_provider C (l\<lparr>configPathArg := path, config := Some cfg\<rparr>) w3 of
        (Inl e, w4) \<Rightarrow> (Inl (Some e), w4)
      | (Inr p, w4) \<Rightarrow> (Inr p, w4)))))"

text \<open>The last block of \<open>Run\<close>: "Execute login command".\<close>

definition Run_login ::
  "OpkExt \<Rightarrow> tick list \<Rightarrow> LoginCmd \<Rightarrow> OpenIdProvider \<Rightarrow> World
     \<Rightarrow> error option outcome \<times> World" where
  "Run_login X ticks l provider w =
     (if autoRefreshArg l then
        (if refreshable provider then
           (case LoginWithRefresh X ticks provider (printIdTokenArg l) (keyPathArg l) w of
              (Returns e, w1) \<Rightarrow> (Returns (Some (Errorf_w ''error logging in'' e)), w1)
            | (Running, w1) \<Rightarrow> (Running, w1))
         else
           (Returns (Some (Err (''supplied OpenID Provider ('' @ Issuer provider @
              '') does not support auto-refresh and auto-refresh argument set to true''))), w))
      else
        (case Login X provider (printIdTokenArg l) (keyPathArg l) w of
           (Some e, w1) \<Rightarrow> (Returns (Some (Errorf_w ''error logging in'' e)), w1)
         | (None, w1) \<Rightarrow> (Returns None, w1)))"

text \<open>\<open>LoginCmd.Run\<close>.\<close>

definition Run ::
  "ConfigExt \<Rightarrow> OpkExt \<Rightarrow> tick list \<Rightarrow> LoginCmd \<Rightarrow> World \<Rightarrow> error option outcome \<times> World" where
  "Run C X ticks l w =
     (case Run_resolve C l w of
        (Inl r, w1) \<Rightarrow> (Returns r, w1)
      | (Inr provider, w1) \<Rightarrow> Run_login X ticks l provider w1)"

section \<open>The command line entry point (main.go: run)\<close>

text \<open>\<open>err.Error()\<close>: the text of an error.\<close>

fun Error :: "error \<Rightarrow> string" where
  "Error ErrNotExist = ''file does not exist''"
| "Error ErrPermission = ''permission denied''"
| "Error Canceled = ''context canceled''"
| "Error (Err m) = m"
| "Error (Wrap m e) = m @ '': '' @ Error e"
| "Error (ConfigPerms m) = m"
| "Error (ConfigParse m) = m"
| "Error (Panic m) = m"

text \<open>\<open>strings.Join(os.Args, " ")\<close>.\<close>

fun join_space :: "string list \<Rightarrow> string" where
  "join_space [] = []"
| "join_space [x] = x"
| "join_space (x # y # ys) = x @ '' '' @ join_space (y # ys)"

text \<open>
  The three local variables of the \<open>verify\<close> case, which are the arguments of
  \<open>VerifyCmd.Verify\<close>.
\<close>

record verify_args =
  userArg :: string
  certB64 :: string
  pubkeyType :: string

text \<open>
  The functions \<open>run\<close> calls and whose code is not among the sources, taken as
  parameters: the provider's constructor, the \<open>flag\<close> package on the arguments of
  \<open>login\<close> (an exit code when \<open>Parse\<close> exits, else the two flags), the two login
  commands of this version, \<open>VerifyCmd.Verify\<close> and \<open>AddCmd.Add\<close>.
\<close>

record MainExt =
  NewGoogleProvider :: "error option"
  parse_login_flags :: "string list \<Rightarrow> nat + bool \<times> string"
  commands_Login :: "error option"
  commands_LoginWithRefresh :: "error option"
  Verify :: "verify_args \<Rightarrow> error + string"
  Add :: "string \<Rightarrow> string \<Rightarrow> error + string"

text \<open>The \<open>login\<close> case of the switch.\<close>

definition run_login :: "MainExt \<Rightarrow> string list \<Rightarrow> World \<Rightarrow> nat \<times> World" where
  "run_login M args w =
     (case parse_login_flags M (drop 2 args) of
        Inl code \<Rightarrow> (code, w)
      | Inr (autoRefresh, logFilePath) \<Rightarrow>
          (let w1 = (if logFilePath \<noteq> [] then
                       (case OpenFile_append (fs w) (Join [logFilePath, ''openpubkey.log''])
                               (oct 7 0 0) of
                          Inl err \<Rightarrow> w
                        | Inr f \<Rightarrow> w\<lparr>fs := f, log_out := ToStdoutAndFile\<rparr>)
                     else w)
           in case (if autoRefresh then commands_LoginWithRefresh M else commands_Login M) of
                Some err \<Rightarrow> (1, log_Print (''ERROR logging in: '' @ Error err) w1)
              | None \<Rightarrow> (0, w1)))"

text \<open>The \<open>verify\<close> case of the switch.\<close>

definition run_verify :: "MainExt \<Rightarrow> string list \<Rightarrow> World \<Rightarrow> nat \<times> World" where
  "run_verify M args w =
     (let w1 = (case OpenFile_append (fs w) ''/var/log/openpubkey.log'' (oct 7 0 0) of
                  Inl err \<Rightarrow> fmt_Print (''ERROR opening log file: '' @ Error err) w
                | Inr f \<Rightarrow> w\<lparr>fs := f, log_out := ToFile\<rparr>);
          w2 = log_Print (join_space args) w1
      in if length args \<noteq> 5 then
           (1, log_Print ''Invalid number of arguments for verify, expected: `<User (TOKEN u)> <Key type (TOKEN t)> <Cert (TOKEN k)>`'' w2)
         else
           (case Verify M \<lparr>userArg = args ! 2, certB64 = args ! 3, pubkeyType = args ! 4\<rparr> of
              Inl err \<Rightarrow> (1, log_Print (''failed to verify: '' @ Error err) w2)
            | Inr authKey \<Rightarrow> (0, fmt_Print authKey w2)))"

text \<open>The \<open>add\<close> case of the switch.\<close>

definition run_add :: "MainExt \<Rightarrow> string list \<Rightarrow> World \<Rightarrow> nat \<times> World" where
  "run_add M args w =
     (if length args \<noteq> 4 then
        (1, fmt_Print ''Invalid number of arguments for verify, expected: `<Email (TOKEN e)> <Principal (TOKEN p)>`'' w)
      else
        (case Add M (args ! 2) (args ! 3) of
           Inl err \<Rightarrow> (1, log_Print (''failed to add to policy: '' @ Error err) w)
         | Inr policyFilePath \<Rightarrow>
             (0, log_Print (''Successfully added new policy to '' @ policyFilePath) w)))"

text \<open>
  \<open>run\<close>: the exit code of the process and what it has written. \<open>args\<close> is \<open>os.Args\<close>,
  the program's name first. The goroutine that cancels the context on a signal has no
  counterpart here.
\<close>

definition run :: "MainExt \<Rightarrow> string list \<Rightarrow> World \<Rightarrow> nat \<times> World" where
  "run M args w =
     (if length args < 2 then
        (1, fmt_Print ''Example SSH key generator using OpenPubkey: command choices are: login, verify, and add'' w)
      else
        (let command = args ! 1 in
         case NewGoogleProvider M of
           Some err \<Rightarrow>
             (1, log_Print (''failed to create new google provider instance: '' @ Error err) w)
         | None \<Rightarrow>
             if command = ''login'' then run_login M args w
             else if command = ''verify'' then run_verify M args w
             else if command = ''add'' then run_add M args w
             else (1, log_Print (''ERROR! Unrecognized command: '' @ command) w)))"

section \<open>The verifier's trusted files\<close>

text \<open>
  Modelled from the spec: the permission check on a trusted file, whose code
  (\<open>files.PermsChecker\<close>) is not among the sources. The spec: a trusted file has owner
  \<open>root:opksshuser\<close> and mode \<open>640\<close>; "any file whose ownership/mode deviates is ignored
  with an error" (\<open>CONFIG_PERMS\<close>). The owner and group of a path are what the checker's
  \<open>stat\<close> command reports, here the function \<open>owner_of\<close>; the error texts are those the
  test \<open>TestEnvFromConfig\<close> expects.
\<close>

definition CheckPerm ::
  "(string \<Rightarrow> string \<times> string) \<Rightarrow> Fs \<Rightarrow> string \<Rightarrow> nat list \<Rightarrow> string \<Rightarrow> string \<Rightarrow> error option" where
  "CheckPerm owner_of f path requirePerm requiredOwner requiredGroup =
     (case Stat f path of
        Inl e \<Rightarrow> Some (Errorf_w ''failed to describe the file at path'' e)
      | Inr n \<Rightarrow>
          (case owner_of path of
             (owner, grp) \<Rightarrow>
               if owner \<noteq> requiredOwner then
                 Some (ConfigPerms (''expected owner ('' @ requiredOwner @ ''), got ('' @ owner @ '')''))
               else if grp \<noteq> requiredGroup then
                 Some (ConfigPerms (''expected group ('' @ requiredGroup @ ''), got ('' @ grp @ '')''))
               else if perm n \<notin> set requirePerm then
                 Some (ConfigPerms ''expected one of the following permissions, got another'')
               else None))"

text \<open>
  Modelled from the spec: the load of a trusted server-side file (server config, system
  policy, a file of the provider registry), whose code is not among the sources: the
  permission check with \<open>root:opksshuser\<close> and \<open>640\<close>, then the read.
\<close>

definition load_trusted_file ::
  "(string \<Rightarrow> string \<times> string) \<Rightarrow> Fs \<Rightarrow> string \<Rightarrow> error + string" where
  "load_trusted_file owner_of f path =
     (case CheckPerm owner_of f path [oct 6 4 0] ''root'' ''opksshuser'' of
        Some e \<Rightarrow> Inl e
      | None \<Rightarrow> ReadFile f path)"

text \<open>
  Modelled from the spec: \<open>VerifyCmd.SetEnvVarInConfig\<close>, of which only the test
  \<open>TestEnvFromConfig\<close> is among the sources. The spec: "Server config: load and enforce
  permissions; export \<open>env_vars\<close>". \<open>parse\<close> is the YAML decoder, giving the pairs under
  \<open>env_vars\<close>.
\<close>

definition SetEnvVarInConfig ::
  "(string \<Rightarrow> string \<times> string) \<Rightarrow> (string \<Rightarrow> error + (string \<times> string) list) \<Rightarrow> string
     \<Rightarrow> World \<Rightarrow> error option \<times> World" where
  "SetEnvVarInConfig owner_of parse path w =
     (case load_trusted_file owner_of (fs w) path of
        Inl e \<Rightarrow> (Some e, w)
      | Inr content \<Rightarrow>
          (case parse content of
             Inl e \<Rightarrow> (Some (ConfigParse (''failed to parse config file: '' @ Error e)), w)
           | Inr env_vars \<Rightarrow>
               (None, w\<lparr>env := fold (\<lambda>kv e. e(fst kv \<mapsto> snd kv)) env_vars (env w)\<rparr>)))"

section \<open>Notions of the specification and sample data\<close>

text \<open>Two states of the process that differ at most in what has been printed and logged.\<close>

definition same_io :: "World \<Rightarrow> World \<Rightarrow> bool" where
  "same_io v w \<longleftrightarrow> fs v = fs w \<and> events v = events w \<and> env v = env w"

text \<open>
  The specification's words on the default key files: a public key file "carries the
  marker comment \<open>openpubkey\<close>", and a candidate path is free when its secret key file is
  absent or its public key file carries the marker.
\<close>

definition carries_openpubkey :: "(string \<Rightarrow> error + string) \<Rightarrow> World \<Rightarrow> string \<Rightarrow> bool" where
  "carries_openpubkey P w pubkeyPath =
     (case ReadFile (fs w) pubkeyPath of
        Inl e \<Rightarrow> False
      | Inr b \<Rightarrow> P b = Inr ''openpubkey'')"

definition slot_free :: "(string \<Rightarrow> error + string) \<Rightarrow> World \<Rightarrow> string \<Rightarrow> bool" where
  "slot_free P w seckeyPath \<longleftrightarrow>
     \<not> fileExists w seckeyPath \<or> carries_openpubkey P w (seckeyPath @ ''.pub'')"

text \<open>
  A stand-in for \<open>ssh.ParseAuthorizedKey\<close> on one-line public key files of the form
  \<open>type base64 comment\<close>, for the sample runs below.
\<close>

fun split_space :: "string \<Rightarrow> string \<Rightarrow> string list" where
  "split_space acc [] = [rev acc]"
| "split_space acc (c # cs) =
     (if c = CHR '' '' then rev acc # split_space [] cs else split_space (c # acc) cs)"

definition demo_ParseAuthorizedKey :: "string \<Rightarrow> error + string" where
  "demo_ParseAuthorizedKey b =
     (case split_space [] b of
        t # k # c # rest \<Rightarrow> Inr c
      | [t, k] \<Rightarrow> Inr []
      | _ \<Rightarrow> Inl (Err ''ssh: no key found''))"

text \<open>A regular file and a directory of the sample file systems.\<close>

definition reg :: "string \<Rightarrow> nat \<Rightarrow> fnode" where
  "reg d m = \<lparr>data = d, perm = m, isdir = False\<rparr>"

definition dirn :: fnode where
  "dirn = \<lparr>data = [], perm = oct 7 5 5, isdir = True\<rparr>"

text \<open>
  A process of user \<open>u\<close> with the mask \<open>022\<close>, the given files and the directories
  \<open>/home/u\<close>, \<open>/tmp\<close> and \<open>/etc/opk\<close>, nothing printed yet.
\<close>

definition demo_world :: "(string \<times> fnode) list \<Rightarrow> World" where
  "demo_world fl =
     \<lparr>fs = \<lparr>files = map_of (fl @ [(''/home'', dirn), (''/home/u'', dirn), (''/tmp'', dirn),
                                    (''/etc'', dirn), (''/etc/opk'', dirn)]),
             denied = (\<lambda>p. False), umask = oct 0 2 2\<rparr>,
      env = [''HOME'' \<mapsto> ''/home/u''],
      log_out = ToStderr, stdout = [], stderr = [], logfile = [], events = []\<rparr>"

text \<open>A home directory with a public key of someone else and no secret key beside it.\<close>

definition orphan_pub_world :: World where
  "orphan_pub_world = demo_world
     [(''/home/u/.ssh'', dirn),
      (''/home/u/.ssh/id_ecdsa.pub'', reg ''ssh-ed25519 AAAAC3Nz alice@laptop'' (oct 6 4 4))]"

text \<open>
  A home directory with a key pair that was not made by this program; \<open>$HOME\<close> is
  written with a slash at its end.
\<close>

definition foreign_key_world :: World where
  "foreign_key_world = (demo_world
     [(''/home/u/.ssh'', dirn),
      (''/home/u/.ssh/id_ecdsa'', reg ''PRIVATE KEY OF ALICE'' (oct 6 0 0)),
      (''/home/u/.ssh/id_ecdsa.pub'', reg ''ssh-ed25519 AAAAC3Nz alice@laptop'' (oct 6 4 4))])
     \<lparr>env := [''HOME'' \<mapsto> ''/home/u/'']\<rparr>"

text \<open>A key file \<open>/tmp/opk\<close> that exists and that everyone may read.\<close>

definition open_key_world :: World where
  "open_key_world = demo_world [(''/tmp/opk'', reg ''OLD KEY'' (oct 6 4 4))]"

text \<open>A process whose mask is \<open>077\<close>.\<close>

definition private_mask_world :: World where
  "private_mask_world = (demo_world [])\<lparr>fs := (fs (demo_world []))\<lparr>umask := oct 0 7 7\<rparr>\<rparr>"


text \<open>
  Stand-ins for the OpenPubkey client, the certificate package and the encoders: every
  call succeeds, the ephemeral key is \<open>EPHEMERAL-KEY\<close> and the token expires at second
  \<open>1000\<close>.
\<close>

definition demo_X :: OpkExt where
  "demo_X =
     \<lparr>GenKeyPair = Inr ''EPHEMERAL-KEY'',
      client_New = (\<lambda>p k. None),
      client_Auth = (\<lambda>p k. Inr \<lparr>Payload = ''exp=1000'', OpToken = ''ID-TOKEN''\<rparr>),
      sshcert_New = (\<lambda>pk pr. Inr ''CERT''),
      NewSignerFromSigner = (\<lambda>k. Inr k),
      NewSignerWithAlgorithms = (\<lambda>k. Inr k),
      SignCert = (\<lambda>c k. Inr (c @ ''-SIGNED'')),
      MarshalAuthorizedKey = (\<lambda>c. ''ecdsa-sha2-nistp256-cert-v01@openssh.com '' @ c @ [CHR 0x0A]),
      MarshalPrivateKey = (\<lambda>k c. Inr k),
      EncodeToMemory = (\<lambda>b. ''PEM:'' @ b),
      ParseAuthorizedKey = demo_ParseAuthorizedKey,
      NewJwt_claims = (\<lambda>t. Inr \<lparr>Email = ''alice@example.com'', Subject = ''1234'',
                                     claim_Issuer = ''https://issuer.example'',
                                     Audience = ''client''\<rparr>),
      MarshalIndent = (\<lambda>c. Inr ''{}''),
      Compact = (\<lambda>pk. Inr (OpToken pk)),
      SplitCompactString = (\<lambda>c. Inr c),
      DecodeString = (\<lambda>c. Inr c),
      Unmarshal_exp = (\<lambda>p e. Inr 1000)\<rparr>"

text \<open>A provider that can be refreshed and one that cannot.\<close>

definition demo_provider :: OpenIdProvider where
  "demo_provider = \<lparr>Issuer = ''https://issuer.example'', refreshable = True, browser = True\<rparr>"

definition plain_provider :: OpenIdProvider where
  "plain_provider = \<lparr>Issuer = ''https://plain.example'', refreshable = False, browser = True\<rparr>"


text \<open>
  Stand-ins for what \<open>run\<close> calls. The verifier accepts a certificate exactly when the
  key type it is given is the one the specification of the certificate parser names
  ("Reject if type is not \<open>ecdsa-sha2-nistp256-cert-v01@openssh.com\<close>"); the policy
  allows every user.
\<close>

definition demo_Verify :: "verify_args \<Rightarrow> error + string" where
  "demo_Verify a =
     (if pubkeyType a = ''ecdsa-sha2-nistp256-cert-v01@openssh.com'' then
        Inr ''cert-authority ecdsa-sha2-nistp256 AAAAEPHEMERALPUBKEY''
      else Inl (Err ''cert type not supported''))"

definition demo_M :: MainExt where
  "demo_M =
     \<lparr>NewGoogleProvider = None,
      parse_login_flags = (\<lambda>args. Inr (False, [])),
      commands_Login = None,
      commands_LoginWithRefresh = None,
      Verify = demo_Verify,
      Add = (\<lambda>e p. Inr ''/etc/opk/policy'')\<rparr>"

text \<open>A process that may not open the verifier's log file.\<close>

definition nolog_world :: World where
  "nolog_world =
     (demo_world [])\<lparr>fs := \<lparr>files = Map.empty,
                             denied = (\<lambda>p. p = ''/var/log/openpubkey.log''),
                             umask = oct 0 2 2\<rparr>\<rparr>"


text \<open>
  "Performing a login" and "attempting authentication" are the calls of the provider's
  authentication, the \<open>EvAuth\<close> events.
\<close>

fun is_auth :: "event \<Rightarrow> bool" where
  "is_auth (EvAuth i) = True"
| "is_auth e = False"

text \<open>
  The specification's precedence among the sources that may name a provider: the first
  one that is not empty, and \<open>WEBCHOOSER\<close> when all are empty.
\<close>

definition first_named :: "string list \<Rightarrow> string" where
  "first_named srcs =
     (case filter (\<lambda>s. s \<noteq> []) srcs of [] \<Rightarrow> WEBCHOOSER_ALIAS | a # rest \<Rightarrow> a)"

text \<open>
  Stand-ins for package \<open>config\<close>: a client configuration with the providers \<open>google\<close>
  and \<open>azure\<close> and the default provider \<open>google\<close>, no providers in the environment, a
  provider string that is the issuer, and a chooser that takes the first provider. Only
  \<open>google\<close> can be refreshed.
\<close>

definition demo_pc :: "string \<Rightarrow> string \<Rightarrow> ProviderConfig" where
  "demo_pc a i =
     \<lparr>pc_alias = a, pc_issuer = i, pc_client_id = ''client'', pc_client_secret = [],
      pc_expiration_policy = ''oidc''\<rparr>"

definition demo_config :: ClientConfig where
  "demo_config =
     \<lparr>DefaultProvider = ''google'',
      Providers = [demo_pc ''google'' ''https://accounts.google.com'',
                   demo_pc ''azure'' ''https://login.microsoftonline.com'']\<rparr>"

definition demo_C :: ConfigExt where
  "demo_C =
     \<lparr>yaml_ClientConfig = (\<lambda>s. Inr demo_config),
      DefaultClientConfig = ''default_provider: webchooser'',
      NewProviderConfigFromString = (\<lambda>s b. Inr (demo_pc ''arg'' s)),
      ToProvider = (\<lambda>pc ob. Inr \<lparr>Issuer = pc_issuer pc,
                                    refreshable = (pc_alias pc = ''google''),
                                    browser = True\<rparr>),
      GetProvidersConfigFromEnv = (\<lambda>e. Inr None),
      CreateProvidersMap = (\<lambda>pcs. Inr (map_of (map (\<lambda>pc. (pc_alias pc, pc)) pcs))),
      ChooseOp = (\<lambda>ps ob. case ps of [] \<Rightarrow> Inl (Err ''no provider chosen'') | p # rest \<Rightarrow> Inr p)\<rparr>"

text \<open>A login command with no flag set.\<close>

definition demo_login :: LoginCmd where
  "demo_login =
     \<lparr>autoRefreshArg = False, configPathArg = [], createConfigArg = False, logDirArg = [],
      disableBrowserOpenArg = False, printIdTokenArg = False, keyPathArg = [],
      providerArg = [], providerAliasArg = [], verbosity = 0,
      overrideProvider = None, config = None\<rparr>"

text \<open>
  Two turns of the refresh loop: the timer fires and the refresh fails on the network,
  then the timer fires and the refresh would succeed.
\<close>

definition demo_ticks :: "tick list" where
  "demo_ticks =
     [\<lparr>t_clock = 0, t_select = TimerFired, t_refresh = Inl (Err ''network unreachable'')\<rparr>,
      \<lparr>t_clock = 5000000000, t_select = TimerFired,
        t_refresh = Inr \<lparr>Payload = ''exp=2000'', OpToken = ''ID-TOKEN-2''\<rparr>\<rparr>]"

text \<open>
  A server with a server configuration file; who owns the files, as \<open>stat\<close> reports
  it; and a decoder that knows the one configuration text.
\<close>

definition server_world :: "nat \<Rightarrow> World" where
  "server_world m = demo_world
     [(''/etc/opk/server_config.yml'', reg ''env_vars: OPKSSH_TEST_EXAMPLE_VAR1: ABC'' m)]"

definition demo_parse_env :: "string \<Rightarrow> error + (string \<times> string) list" where
  "demo_parse_env s =
     (if s = ''env_vars: OPKSSH_TEST_EXAMPLE_VAR1: ABC'' then
        Inr [(''OPKSSH_TEST_EXAMPLE_VAR1'', ''ABC'')]
      else Inl (Err ''yaml: unmarshal errors''))"

text \<open>A home directory that has a client configuration.\<close>

definition config_world :: World where
  "config_world = demo_world
     [(''/home/u/.opk'', dirn),
      (''/home/u/.opk/config.yml'', reg ''default_provider: google'' (oct 6 4 4))]"

text \<open>
  A login command that has read \<open>demo_config\<close>, and a process whose environment names
  the default provider \<open>azure\<close>.
\<close>

definition configured_login :: LoginCmd where
  "configured_login = demo_login\<lparr>config := Some demo_config\<rparr>"

definition azure_env_world :: World where
  "azure_env_world =
     (demo_world [])\<lparr>env := [''HOME'' \<mapsto> ''/home/u'', ''OPKSSH_DEFAULT'' \<mapsto> ''azure'']\<rparr>"

text \<open>
  A configuration with three providers whose default provider is the last one, with and
  without a default provider, and the login commands that have read them.
\<close>

definition three_config :: ClientConfig where
  "three_config =
     \<lparr>DefaultProvider = ''gitlab'',
      Providers = [demo_pc ''google'' ''https://accounts.google.com'',
                   demo_pc ''azure'' ''https://login.microsoftonline.com'',
                   demo_pc ''gitlab'' ''https://gitlab.com'']\<rparr>"

definition three_login :: LoginCmd where
  "three_login = demo_login\<lparr>config := Some three_config\<rparr>"

definition chooser_login :: LoginCmd where
  "chooser_login = demo_login\<lparr>config := Some (three_config\<lparr>DefaultProvider := []\<rparr>)\<rparr>"

text \<open>
  A stand-in for package \<open>config\<close> that reads one provider, with the alias \<open>corp\<close>, from
  \<open>OPKSSH_PROVIDERS\<close>, and a process whose environment has it.
\<close>

definition env_C :: ConfigExt where
  "env_C = demo_C
     \<lparr>GetProvidersConfigFromEnv :=
        (\<lambda>e. case e ''OPKSSH_PROVIDERS'' of
                None \<Rightarrow> Inr None
              | Some v \<Rightarrow> Inr (Some [demo_pc ''corp'' v]))\<rparr>"

definition corp_env_world :: World where
  "corp_env_world =
     (demo_world [])\<lparr>env := [''HOME'' \<mapsto> ''/home/u'',
                              ''OPKSSH_PROVIDERS'' \<mapsto> ''https://sso.corp.example'',
                              ''OPKSSH_DEFAULT'' \<mapsto> ''corp'']\<rparr>"

text \<open>
  Two turns of the refresh loop in which nothing fails: the timer fires and the token is
  refreshed, then the context is cancelled during the wait. The new token expires at
  second \<open>2000\<close>.
\<close>

definition refresh_X :: OpkExt where
  "refresh_X = demo_X\<lparr>Unmarshal_exp := (\<lambda>p e. if p = ''ID-TOKEN-2'' then Inr 2000 else Inr 1000)\<rparr>"

definition turn_ticks :: "tick list" where
  "turn_ticks =
     [\<lparr>t_clock = 0, t_select = TimerFired,
        t_refresh = Inr \<lparr>Payload = ''exp=2000'', OpToken = ''ID-TOKEN-2''\<rparr>\<rparr>,
      \<lparr>t_clock = 941000000000, t_select = CtxDone Canceled, t_refresh = Inl Canceled\<rparr>]"

text \<open>The state of a login that has succeeded with the stand-ins.\<close>

definition demo_result :: LoginResult where
  "demo_result =
     \<lparr>pkt = \<lparr>Payload = ''exp=1000'', OpToken = ''ID-TOKEN''\<rparr>, signer = ''EPHEMERAL-KEY'',
      client = demo_provider, principals = []\<rparr>"

section \<open>Facts on paths\<close>

lemma split_slash_nonempty [simp]: "split_slash p \<noteq> []"
  by (induction p) auto

lemma split_slash_append_slash:
  "split_slash (a @ CHR ''/'' # b) = split_slash a @ split_slash b"
proof (induction a)
  case Nil
  show ?case by simp
next
  case (Cons c a)
  obtain x xs where s: "split_slash a = x # xs"
    by (cases "split_slash a") simp_all
  with Cons show ?case by simp
qed

lemma split_slash_name: "CHR ''/'' \<notin> set k \<Longrightarrow> split_slash k = [k]"
  by (induction k) auto

lemma split_slash_append_name:
  assumes "CHR ''/'' \<notin> set x"
  shows "split_slash (p @ x) = butlast (split_slash p) @ [last (split_slash p) @ x]"
proof (induction p)
  case Nil
  from assms show ?case by (simp add: split_slash_name)
next
  case (Cons c p)
  obtain y ys where s: "split_slash p = y # ys"
    by (cases "split_slash p") simp_all
  show ?case
  proof (cases ys)
    case Nil
    with Cons s show ?thesis by simp
  next
    case (Cons z zs)
    with Cons.IH s show ?thesis by simp
  qed
qed

lemma last_split_slash_slash: "last (split_slash (q @ ''/'')) = []"
  using split_slash_append_slash[of q "[]"] by simp

lemma clean_stack_snoc: "clean_stack r (cs @ [c]) = clean_step r (clean_stack r cs) c"
  by (simp add: clean_stack_def)

lemma join_slash_snoc: "join_slash (st @ [t]) = concat (map (\<lambda>c. c @ ''/'') st) @ t"
proof (induction st)
  case Nil
  show ?case by simp
next
  case (Cons a st)
  then show ?case by (cases st) simp_all
qed

lemma render_snoc: "render r (st @ [t]) = dir_prefix r st @ t"
  by (simp add: render_def dir_prefix_def join_slash_snoc)

lemma names_dir_Nil: "names_dir []"
  by (simp add: names_dir_def)

text \<open>A path that names a file is its cleaned directory followed by its last element.\<close>

lemma Clean_file:
  assumes "\<not> names_dir p"
  shows "Clean p = clean_dir p @ last (split_slash p)"
proof -
  obtain xs t where sp: "split_slash p = xs @ [t]"
    by (cases "split_slash p" rule: rev_cases) simp_all
  from assms sp have t: "t \<noteq> []" "t \<noteq> ''.''" "t \<noteq> ''..''"
    by (simp_all add: names_dir_def)
  have c: "comps p = filter (\<lambda>c. c \<noteq> [] \<and> c \<noteq> ''.'') xs @ [t]"
    using t by (simp add: comps_def sp)
  have "clean_stack (rooted p) (comps p) =
          clean_stack (rooted p) (filter (\<lambda>c. c \<noteq> [] \<and> c \<noteq> ''.'') xs) @ [t]"
    unfolding c clean_stack_snoc using t by (simp add: clean_step_def)
  then show ?thesis
    by (simp add: Clean_def clean_dir_def render_snoc sp)
qed

lemma rooted_append: "p \<noteq> [] \<Longrightarrow> rooted (p @ x) = rooted p"
  by (simp add: rooted_def)

lemma Clean_append_name:
  assumes nd: "\<not> names_dir p" and x: "CHR ''/'' \<notin> set x"
  shows "Clean (p @ x) = Clean p @ x" and "\<not> names_dir (p @ x)"
proof -
  let ?t = "last (split_slash p)"
  from nd have t: "?t \<noteq> []" "?t \<noteq> ''.''" "?t \<noteq> ''..''"
    by (simp_all add: names_dir_def)
  from nd have ne: "p \<noteq> []"
    using names_dir_Nil by auto
  have sp: "split_slash (p @ x) = butlast (split_slash p) @ [?t @ x]"
    using x by (rule split_slash_append_name)
  have tx: "?t @ x \<noteq> []" "?t @ x \<noteq> ''.''" "?t @ x \<noteq> ''..''"
    using t by (auto simp: append_eq_Cons_conv)
  from sp tx show nd': "\<not> names_dir (p @ x)"
    by (simp add: names_dir_def)
  have "clean_dir (p @ x) = clean_dir p"
    using sp ne by (simp add: clean_dir_def rooted_append)
  with Clean_file[OF nd'] Clean_file[OF nd] sp show "Clean (p @ x) = Clean p @ x"
    by simp
qed

lemma simple_name_not_rooted: "simple_name k \<Longrightarrow> \<not> rooted k"
  by (cases k) (auto simp: simple_name_def rooted_def)

text \<open>A name in a directory: the cleaned directory followed by the name.\<close>

lemma Clean_in_dir:
  assumes d: "last (split_slash D) = []" and k: "simple_name k"
  shows "Clean (D @ k) = clean_dir D @ k" and "\<not> names_dir (D @ k)"
proof -
  from k have x: "CHR ''/'' \<notin> set k" and kk: "k \<noteq> []" "k \<noteq> ''.''" "k \<noteq> ''..''"
    by (simp_all add: simple_name_def)
  have sp: "split_slash (D @ k) = butlast (split_slash D) @ [k]"
    using split_slash_append_name[OF x, of D] d by simp
  with kk show nd: "\<not> names_dir (D @ k)"
    by (simp add: names_dir_def)
  have r: "rooted (D @ k) = rooted D"
  proof (cases "D = []")
    case True
    with simple_name_not_rooted[OF k] show ?thesis by (simp add: rooted_def)
  next
    case False
    then show ?thesis by (rule rooted_append)
  qed
  have "clean_dir (D @ k) = clean_dir D"
    using sp r by (simp add: clean_dir_def)
  with Clean_file[OF nd] sp show "Clean (D @ k) = clean_dir D @ k"
    by simp
qed

lemma last_split_dir_prefix: "last (split_slash (dir_prefix r st)) = []"
proof (cases st rule: rev_cases)
  case Nil
  then show ?thesis by (simp add: dir_prefix_def)
next
  case (snoc xs x)
  have "dir_prefix r st = ((if r then ''/'' else []) @ concat (map (\<lambda>c. c @ ''/'') xs) @ x) @ ''/''"
    using snoc by (simp add: dir_prefix_def)
  then show ?thesis
    using last_split_slash_slash by metis
qed

lemma last_split_clean_dir: "last (split_slash (clean_dir p)) = []"
  by (simp add: clean_dir_def last_split_dir_prefix)

lemma Join2:
  assumes "a \<noteq> []" and "simple_name k"
  shows "Join [a, k] = clean_dir (a @ ''/'') @ k"
proof -
  from assms have "Join [a, k] = Clean ((a @ ''/'') @ k)"
    by (simp add: Join_def simple_name_def)
  also have "\<dots> = clean_dir (a @ ''/'') @ k"
    using last_split_slash_slash[of a] assms(2) by (rule Clean_in_dir(1))
  finally show ?thesis .
qed

text \<open>The path of a name in a joined directory, and of the name with a suffix.\<close>

lemma Clean_Join2:
  assumes "a \<noteq> []" and "simple_name k"
  shows "Clean (Join [a, k]) = clean_dir (clean_dir (a @ ''/'')) @ k"
    and "\<not> names_dir (Join [a, k])"
  using Clean_in_dir[OF last_split_clean_dir assms(2), of "a @ ''/''"] Join2[OF assms]
  by simp_all

lemma simple_name_suffix:
  "simple_name k \<Longrightarrow> CHR ''/'' \<notin> set x \<Longrightarrow> simple_name (k @ x)"
  by (auto simp: simple_name_def append_eq_Cons_conv)

lemma Clean_Join2_suffix:
  assumes "a \<noteq> []" and "simple_name k" and "CHR ''/'' \<notin> set x"
  shows "Clean (Join [a, k] @ x) = clean_dir (clean_dir (a @ ''/'')) @ k @ x"
  using Clean_append_name(1)[OF Clean_Join2(2)[OF assms(1,2)] assms(3)] Clean_Join2(1)[OF assms(1,2)]
  by simp

lemma clean_stack_subset: "set (foldl (clean_step r) st cs) \<subseteq> set st \<union> set cs"
proof (induction cs arbitrary: st)
  case Nil
  show ?case by simp
next
  case (Cons c cs)
  have "set (clean_step r st c) \<subseteq> set st \<union> {c}"
    by (auto simp: clean_step_def dest: in_set_butlastD)
  with Cons[of "clean_step r st c"] show ?case by auto
qed

lemma Clean_nonempty: "Clean p \<noteq> []"
proof -
  let ?st = "clean_stack (rooted p) (comps p)"
  have "set ?st \<subseteq> set (comps p)"
    using clean_stack_subset[of "rooted p" "[]" "comps p"] by (simp add: clean_stack_def)
  then have ne: "\<forall>c \<in> set ?st. c \<noteq> []"
    by (auto simp: comps_def)
  show ?thesis
  proof (cases ?st)
    case Nil
    then show ?thesis by (simp add: Clean_def render_def)
  next
    case (Cons a as)
    with ne have "a \<noteq> []" by simp
    with Cons show ?thesis by (cases as) (simp_all add: Clean_def render_def)
  qed
qed

lemma Join_nonempty: "a \<noteq> [] \<Longrightarrow> Join (a # bs) \<noteq> []"
  by (simp add: Join_def Clean_nonempty)

section \<open>Facts on the file system\<close>

lemma node_at_root: "Clean p = ''/'' \<or> Clean p = ''.'' \<Longrightarrow> node_at f p = Some root_dir"
  by (auto simp: node_at_def node_key_def)

lemma WriteFile_Inr:
  assumes "WriteFile f p d m = Inr f'"
  shows "\<not> names_dir p"
    and "denied f' = denied f"
    and "umask f' = umask f"
    and "node_at f' p =
           Some (case node_at f p of
                   None \<Rightarrow> \<lparr>data = d, perm = mask_mode m (umask f), isdir = False\<rparr>
                 | Some n \<Rightarrow> n\<lparr>data := d\<rparr>)"
    and "\<And>q. Clean q \<noteq> Clean p \<Longrightarrow> node_at f' q = node_at f q"
    and "\<And>n. node_at f p = Some n \<Longrightarrow> \<not> isdir n"
    and "node_at f p = None \<Longrightarrow> is_directory f (Dir p)"
proof -
  from assms show nd: "\<not> names_dir p"
    by (auto simp: WriteFile_def split: if_splits)
  have nr: "Clean p \<noteq> ''/'' \<and> Clean p \<noteq> ''.''"
  proof (rule ccontr)
    assume "\<not> (Clean p \<noteq> ''/'' \<and> Clean p \<noteq> ''.'')"
    then have "node_at f p = Some root_dir"
      using node_at_root[of p f] by auto
    with assms show False
      by (auto simp: WriteFile_def root_dir_def split: if_splits)
  qed
  show "\<And>n. node_at f p = Some n \<Longrightarrow> \<not> isdir n"
    using assms by (auto simp: WriteFile_def split: if_splits)
  show "node_at f p = None \<Longrightarrow> is_directory f (Dir p)"
    using assms by (auto simp: WriteFile_def split: if_splits)
  have fl: "files f' = (files f)(Clean p \<mapsto>
              (case node_at f p of
                   None \<Rightarrow> \<lparr>data = d, perm = mask_mode m (umask f), isdir = False\<rparr>
                 | Some n \<Rightarrow> n\<lparr>data := d\<rparr>))"
    and dn: "denied f' = denied f" and um: "umask f' = umask f"
    using assms by (auto simp: WriteFile_def split: if_splits option.splits)
  from dn show "denied f' = denied f" .
  from um show "umask f' = umask f" .
  from fl nr show "node_at f' p =
           Some (case node_at f p of
                   None \<Rightarrow> \<lparr>data = d, perm = mask_mode m (umask f), isdir = False\<rparr>
                 | Some n \<Rightarrow> n\<lparr>data := d\<rparr>)"
    by (simp add: node_at_def node_key_def)
  show "\<And>q. Clean q \<noteq> Clean p \<Longrightarrow> node_at f' q = node_at f q"
    using fl by (simp add: node_at_def node_key_def)
qed

lemma mkdir_keys_facts:
  assumes "mkdir_keys f m ks = Inr f'"
  shows "denied f' = denied f \<and> umask f' = umask f \<and>
         (\<forall>k n. node_key f k = Some n \<longrightarrow> node_key f' k = Some n) \<and>
         (\<forall>k \<in> set ks. \<exists>n. node_key f' k = Some n \<and> isdir n) \<and>
         (\<forall>k n. node_key f' k = Some n \<longrightarrow> node_key f k = Some n \<or> (node_key f k = None \<and> isdir n))"
  using assms
proof (induction ks arbitrary: f)
  case Nil
  then show ?case by simp
next
  case (Cons k ks)
  from Cons.prems have nd: "\<not> denied f k"
    by (auto split: if_splits)
  show ?case
  proof (cases "node_key f k")
    case (Some n)
    with Cons.prems nd have d: "isdir n" and r: "mkdir_keys f m ks = Inr f'"
      by (auto split: if_splits)
    from Cons.IH[OF r] Some d show ?thesis
      by auto
  next
    case None
    let ?g = "f\<lparr>files := (files f)(k \<mapsto> \<lparr>data = [], perm = mask_mode m (umask f), isdir = True\<rparr>)\<rparr>"
    from None have kr: "k \<noteq> ''/''" "k \<noteq> ''.''"
      by (auto simp: node_key_def split: if_splits)
    from Cons.prems nd None have r: "mkdir_keys ?g m ks = Inr f'"
      by simp
    have g1: "\<And>q n. node_key f q = Some n \<Longrightarrow> node_key ?g q = Some n"
      using None by (auto simp: node_key_def)
    have g2: "node_key ?g k = Some \<lparr>data = [], perm = mask_mode m (umask f), isdir = True\<rparr>"
      using kr by (simp add: node_key_def)
    have g3: "\<And>q n. node_key ?g q = Some n \<Longrightarrow>
                 node_key f q = Some n \<or> (node_key f q = None \<and> isdir n)"
      using None by (auto simp: node_key_def split: if_splits)
    note ih = Cons.IH[OF r]
    have a: "denied f' = denied f \<and> umask f' = umask f"
      using ih by simp
    have b: "\<forall>q n. node_key f q = Some n \<longrightarrow> node_key f' q = Some n"
      using ih g1 by blast
    have c: "\<forall>q \<in> set (k # ks). \<exists>n. node_key f' q = Some n \<and> isdir n"
      using ih g2 by auto
    have d: "\<forall>q n. node_key f' q = Some n \<longrightarrow>
               node_key f q = Some n \<or> (node_key f q = None \<and> isdir n)"
    proof (intro allI impI)
      fix q n
      assume "node_key f' q = Some n"
      with ih have "node_key ?g q = Some n \<or> (node_key ?g q = None \<and> isdir n)"
        by blast
      then show "node_key f q = Some n \<or> (node_key f q = None \<and> isdir n)"
      proof
        assume "node_key ?g q = Some n"
        then show ?thesis by (rule g3)
      next
        assume h: "node_key ?g q = None \<and> isdir n"
        then have "node_key f q = None"
          by (auto simp: node_key_def split: if_splits)
        with h show ?thesis by simp
      qed
    qed
    from a b c d show ?thesis by blast
  qed
qed

lemma Clean_in_ancestors:
  assumes "clean_stack (rooted p) (comps p) \<noteq> []"
  shows "Clean p \<in> set (ancestors p)"
proof -
  let ?st = "clean_stack (rooted p) (comps p)"
  have "length ?st \<in> set [1..<Suc (length ?st)]"
    using assms by (cases ?st) simp_all
  then have "render (rooted p) (take (length ?st) ?st) \<in> set (ancestors p)"
    unfolding ancestors_def Let_def set_map by (rule imageI)
  then show ?thesis
    by (simp add: Clean_def)
qed

text \<open>
  \<open>MkdirAll\<close> leaves what exists as it is, adds only directories, and the directory
  exists afterwards.
\<close>

lemma MkdirAll_facts:
  assumes "MkdirAll f p m = Inr f'"
  shows "denied f' = denied f" and "umask f' = umask f"
    and "\<And>q n. node_at f q = Some n \<Longrightarrow> node_at f' q = Some n"
    and "\<And>q n. node_at f' q = Some n \<Longrightarrow> node_at f q = Some n \<or> (node_at f q = None \<and> isdir n)"
    and "is_directory f' p"
proof -
  from assms have mk: "mkdir_keys f m (ancestors p) = Inr f'"
    by (auto simp: MkdirAll_def split: if_splits)
  note facts = mkdir_keys_facts[OF mk]
  from facts show "denied f' = denied f" and "umask f' = umask f"
    by simp_all
  show "\<And>q n. node_at f q = Some n \<Longrightarrow> node_at f' q = Some n"
    using facts by (simp add: node_at_def)
  show "\<And>q n. node_at f' q = Some n \<Longrightarrow> node_at f q = Some n \<or> (node_at f q = None \<and> isdir n)"
    using facts by (simp add: node_at_def)
  show "is_directory f' p"
  proof (cases "clean_stack (rooted p) (comps p) = []")
    case True
    then have "Clean p = ''/'' \<or> Clean p = ''.''"
      by (simp add: Clean_def render_def)
    then show ?thesis
      using node_at_root[of p f'] by (auto simp: is_directory_def root_dir_def)
  next
    case False
    from Clean_in_ancestors[OF False] facts
    obtain n where "node_key f' (Clean p) = Some n \<and> isdir n"
      by blast
    then show ?thesis
      by (simp add: is_directory_def node_at_def)
  qed
qed

section \<open>A name in a directory is none of the directories above it\<close>

lemma split_slash_no_slash: "c \<in> set (split_slash p) \<Longrightarrow> CHR ''/'' \<notin> set c"
proof (induction p arbitrary: c)
  case Nil
  then show ?case by simp
next
  case (Cons a p)
  obtain y ys where s: "split_slash p = y # ys"
    by (cases "split_slash p") simp_all
  from Cons.IH[of y] s have y: "CHR ''/'' \<notin> set y" by simp
  from Cons.IH s have ys: "\<And>d. d \<in> set ys \<Longrightarrow> CHR ''/'' \<notin> set d" by simp
  from Cons.prems s y ys show ?case
    by (auto split: if_splits)
qed

lemma clean_stack_elems:
  assumes "c \<in> set (clean_stack r (comps p))"
  shows "c \<noteq> []" and "c \<noteq> ''.''" and "CHR ''/'' \<notin> set c"
proof -
  have "set (clean_stack r (comps p)) \<subseteq> set (comps p)"
    using clean_stack_subset[of r "[]" "comps p"] by (simp add: clean_stack_def)
  with assms have c: "c \<in> set (comps p)" by auto
  then show "c \<noteq> []" and "c \<noteq> ''.''"
    by (simp_all add: comps_def)
  from c have "c \<in> set (split_slash p)"
    by (simp add: comps_def)
  then show "CHR ''/'' \<notin> set c"
    by (rule split_slash_no_slash)
qed

text \<open>Cleaning a cleaned list of elements changes nothing.\<close>

lemma clean_step_stable:
  assumes "clean_stack r st = st"
  shows "clean_stack r (clean_step r st c) = clean_step r st c"
proof (cases "c = ''..''")
  case False
  then have "clean_step r st c = st @ [c]"
    by (simp add: clean_step_def)
  with assms show ?thesis
    by (simp add: clean_stack_snoc)
next
  case True
  show ?thesis
  proof (cases "st \<noteq> [] \<and> last st \<noteq> ''..''")
    case True
    then obtain bs l where st: "st = bs @ [l]" and l: "l \<noteq> ''..''"
      by (cases st rule: rev_cases) auto
    from assms st l have "clean_stack r bs @ [l] = bs @ [l]"
      by (simp add: clean_stack_snoc clean_step_def)
    then have "clean_stack r bs = bs" by simp
    with \<open>c = ''..''\<close> st l show ?thesis
      by (simp add: clean_step_def)
  next
    case False
    show ?thesis
    proof (cases r)
      case True
      with False \<open>c = ''..''\<close> have "clean_step r st c = st"
        by (auto simp: clean_step_def)
      with assms show ?thesis by simp
    next
      case nr: False
      with False \<open>c = ''..''\<close> have e: "clean_step r st c = st @ [''..'']"
        by (auto simp: clean_step_def)
      have "clean_stack r (st @ [''..'']) = clean_step r st ''..''"
        using assms by (simp add: clean_stack_snoc)
      with e \<open>c = ''..''\<close> show ?thesis by simp
    qed
  qed
qed

lemma clean_stack_idem: "clean_stack r (clean_stack r cs) = clean_stack r cs"
proof (induction cs rule: rev_induct)
  case Nil
  show ?case by (simp add: clean_stack_def)
next
  case (snoc c cs)
  show ?case
    unfolding clean_stack_snoc using snoc by (rule clean_step_stable)
qed

lemma split_slash_concat:
  assumes "\<forall>c \<in> set st. CHR ''/'' \<notin> set c"
  shows "split_slash (concat (map (\<lambda>c. c @ ''/'') st)) = st @ [[]]"
  using assms
proof (induction st)
  case Nil
  show ?case by simp
next
  case (Cons c st)
  have "split_slash (c @ CHR ''/'' # concat (map (\<lambda>c. c @ ''/'') st)) =
          split_slash c @ split_slash (concat (map (\<lambda>c. c @ ''/'') st))"
    by (rule split_slash_append_slash)
  with Cons show ?case
    by (simp add: split_slash_name)
qed

lemma split_slash_dir_prefix:
  assumes "\<forall>c \<in> set st. CHR ''/'' \<notin> set c"
  shows "split_slash (dir_prefix r st) = (if r then [[]] else []) @ st @ [[]]"
  using split_slash_concat[OF assms]
  by (simp add: dir_prefix_def)

lemma rooted_dir_prefix:
  assumes "\<forall>c \<in> set st. c \<noteq> [] \<and> CHR ''/'' \<notin> set c"
  shows "rooted (dir_prefix r st) = r"
proof (cases r)
  case True
  then show ?thesis by (simp add: dir_prefix_def rooted_def)
next
  case False
  show ?thesis
  proof (cases st)
    case Nil
    with False show ?thesis by (simp add: dir_prefix_def rooted_def)
  next
    case (Cons c cs)
    with assms obtain a as where c: "c = a # as" and a: "a \<noteq> CHR ''/''"
      by (cases c) auto
    with False Cons show ?thesis by (simp add: dir_prefix_def rooted_def)
  qed
qed

lemma clean_dir_dir_prefix:
  assumes el: "\<forall>c \<in> set st. c \<noteq> [] \<and> c \<noteq> ''.'' \<and> CHR ''/'' \<notin> set c"
      and st: "clean_stack r st = st"
  shows "clean_dir (dir_prefix r st) = dir_prefix r st"
proof -
  from el have a: "\<forall>c \<in> set st. CHR ''/'' \<notin> set c" and b: "\<forall>c \<in> set st. c \<noteq> [] \<and> CHR ''/'' \<notin> set c"
    by simp_all
  have bl: "butlast (split_slash (dir_prefix r st)) = (if r then [[]] else []) @ st"
    unfolding split_slash_dir_prefix[OF a] by (simp add: butlast_append)
  have fl: "filter (\<lambda>c. c \<noteq> [] \<and> c \<noteq> ''.'') st = st"
    using el by (simp add: filter_id_conv)
  have "filter (\<lambda>c. c \<noteq> [] \<and> c \<noteq> ''.'') (butlast (split_slash (dir_prefix r st))) = st"
    unfolding bl using fl by simp
  then show ?thesis
    by (simp add: clean_dir_def rooted_dir_prefix[OF b] st)
qed

lemma clean_dir_slash:
  assumes "a \<noteq> []"
  shows "clean_dir (a @ ''/'') = dir_prefix (rooted a) (clean_stack (rooted a) (comps a))"
proof -
  have "split_slash (a @ ''/'') = split_slash a @ [[]]"
    using split_slash_append_slash[of a "[]"] by simp
  then have "butlast (split_slash (a @ ''/'')) = split_slash a"
    by simp
  then show ?thesis
    by (simp add: clean_dir_def comps_def rooted_append[OF assms])
qed

text \<open>The cleaned path of a name in a directory, with a suffix of the name.\<close>

lemma Clean_Join2_stack:
  assumes "a \<noteq> []" and "simple_name k" and "CHR ''/'' \<notin> set x"
  shows "Clean (Join [a, k] @ x) = dir_prefix (rooted a) (clean_stack (rooted a) (comps a)) @ k @ x"
proof -
  let ?r = "rooted a" and ?st = "clean_stack (rooted a) (comps a)"
  have el: "\<forall>c \<in> set ?st. c \<noteq> [] \<and> c \<noteq> ''.'' \<and> CHR ''/'' \<notin> set c"
    using clean_stack_elems[of _ ?r a] by blast
  have "clean_dir (clean_dir (a @ ''/'')) = dir_prefix ?r ?st"
    unfolding clean_dir_slash[OF assms(1)]
    using el clean_stack_idem by (rule clean_dir_dir_prefix)
  with Clean_Join2_suffix[OF assms] show ?thesis
    by simp
qed

lemma dir_prefix_append:
  "dir_prefix r (xs @ ys) = dir_prefix r xs @ concat (map (\<lambda>c. c @ ''/'') ys)"
  by (simp add: dir_prefix_def)

lemma render_take_shorter:
  assumes "0 < i" and "i \<le> length st"
  shows "length (render r (take i st)) < length (dir_prefix r st)"
proof -
  from assms obtain j where i: "i = Suc j" and j: "j < length st"
    by (cases i) auto
  have t: "take i st = take j st @ [st ! j]"
    unfolding i using j by (rule take_Suc_conv_app_nth)
  have "dir_prefix r st = dir_prefix r (take i st @ drop i st)"
    by simp
  also have "\<dots> = dir_prefix r (take i st) @ concat (map (\<lambda>c. c @ ''/'') (drop i st))"
    by (rule dir_prefix_append)
  finally have "length (dir_prefix r (take i st)) \<le> length (dir_prefix r st)"
    by (metis le_add1 length_append)
  moreover have "length (render r (take i st)) < length (dir_prefix r (take i st))"
    unfolding t render_snoc dir_prefix_append by simp
  ultimately show ?thesis by simp
qed

lemma Join_not_ancestor:
  assumes "a \<noteq> []" and "simple_name k" and "CHR ''/'' \<notin> set x"
  shows "Clean (Join [a, k] @ x) \<notin> set (ancestors a)"
proof
  let ?r = "rooted a" and ?st = "clean_stack (rooted a) (comps a)"
  assume "Clean (Join [a, k] @ x) \<in> set (ancestors a)"
  then have "Clean (Join [a, k] @ x) \<in> (\<lambda>i. render ?r (take i ?st)) ` set [1..<Suc (length ?st)]"
    by (simp add: ancestors_def Let_def)
  then obtain i where m: "i \<in> set [1..<Suc (length ?st)]"
    and e: "Clean (Join [a, k] @ x) = render ?r (take i ?st)"
    by (rule imageE)
  from m have i: "0 < i" "i \<le> length ?st"
    by auto
  from render_take_shorter[OF i, of ?r] e
  have "length (Clean (Join [a, k] @ x)) < length (dir_prefix ?r ?st)"
    by simp
  then show False
    unfolding Clean_Join2_stack[OF assms] by simp
qed

lemma mkdir_keys_other:
  assumes "mkdir_keys f m ks = Inr f'" and "k \<notin> set ks"
  shows "node_key f' k = node_key f k"
  using assms
proof (induction ks arbitrary: f)
  case Nil
  then show ?case by simp
next
  case (Cons a ks)
  from Cons.prems have nd: "\<not> denied f a" and ne: "k \<noteq> a" and ni: "k \<notin> set ks"
    by (auto split: if_splits)
  show ?case
  proof (cases "node_key f a")
    case (Some n)
    with Cons.prems nd have "mkdir_keys f m ks = Inr f'"
      by (auto split: if_splits)
    from Cons.IH[OF this ni] show ?thesis .
  next
    case None
    let ?g = "f\<lparr>files := (files f)(a \<mapsto> \<lparr>data = [], perm = mask_mode m (umask f), isdir = True\<rparr>)\<rparr>"
    from Cons.prems nd None have "mkdir_keys ?g m ks = Inr f'"
      by simp
    from Cons.IH[OF this ni] ne show ?thesis
      by (simp add: node_key_def)
  qed
qed

text \<open>Making a directory changes nothing at a name in it.\<close>

lemma MkdirAll_name:
  assumes mk: "MkdirAll f a m = Inr f'" and k: "simple_name k" and x: "CHR ''/'' \<notin> set x"
  shows "node_at f' (Join [a, k] @ x) = node_at f (Join [a, k] @ x)"
proof -
  from mk have a: "a \<noteq> []" and ks: "mkdir_keys f m (ancestors a) = Inr f'"
    by (auto simp: MkdirAll_def split: if_splits)
  from mkdir_keys_other[OF ks Join_not_ancestor[OF a k x]] show ?thesis
    by (simp add: node_at_def)
qed

section \<open>The key files\<close>

subsection \<open>Auxiliary facts\<close>

lemma same_io_refl [simp]: "same_io w w"
  by (simp add: same_io_def)

lemma same_io_log [simp]: "same_io (log_Print s w) w"
  by (simp add: same_io_def log_Print_def split: log_target.splits)

lemma same_io_fmt [simp]: "same_io (fmt_Print s w) w"
  by (simp add: same_io_def fmt_Print_def)

lemma same_io_trans: "same_io u v \<Longrightarrow> same_io v w \<Longrightarrow> same_io u w"
  by (simp add: same_io_def)

lemma same_io_fileExists: "same_io v w \<Longrightarrow> fileExists v p = fileExists w p"
  by (simp add: same_io_def fileExists_def)

lemma afs_WriteFile_same_io:
  "same_io v w \<Longrightarrow> fst (afs_WriteFile p d m v) = fst (afs_WriteFile p d m w) \<and>
     same_io (snd (afs_WriteFile p d m v)) (snd (afs_WriteFile p d m w))"
  by (auto simp: same_io_def afs_WriteFile_def Let_def split: sum.splits)

lemma writeKeys_same_io:
  assumes "same_io v w"
  shows "fst (writeKeys sk pk sec cert v) = fst (writeKeys sk pk sec cert w) \<and>
     same_io (snd (writeKeys sk pk sec cert v)) (snd (writeKeys sk pk sec cert w))"
  using assms
  by (auto simp: same_io_def writeKeys_def afs_WriteFile_def fmt_Print_def Let_def split: sum.splits prod.splits option.splits)

text \<open>What \<open>writeKeys\<close> has done when it returns.\<close>

lemma afs_WriteFile_result:
  assumes "afs_WriteFile p d m w = (r, w')"
  shows "events w' = events w @ [EvWriteFile p d m]"
    and "r = None \<Longrightarrow> WriteFile (fs w) p d m = Inr (fs w')"
    and "r \<noteq> None \<Longrightarrow> fs w' = fs w"
  using assms
  by (auto simp: afs_WriteFile_def Let_def split: sum.splits)

lemma writeKeys_result:
  assumes "writeKeys sk pk sec cert w = (r, w')"
  shows "(r \<noteq> None \<and> fs w' = fs w \<and> events w' = events w @ [EvWriteFile sk sec (oct 6 0 0)]) \<or>
         (\<exists>f1. WriteFile (fs w) sk sec (oct 6 0 0) = Inr f1 \<and>
               events w' = events w @ [EvWriteFile sk sec (oct 6 0 0),
                                       EvWriteFile pk (cert @ '' openpubkey'') (oct 6 4 4)] \<and>
               ((r \<noteq> None \<and> fs w' = f1) \<or>
                (r = None \<and> WriteFile f1 pk (cert @ '' openpubkey'') (oct 6 4 4) = Inr (fs w'))))"
proof -
  obtain r1 w1 where a1: "afs_WriteFile sk sec (oct 6 0 0) w = (r1, w1)"
    by (cases "afs_WriteFile sk sec (oct 6 0 0) w")
  note f1 = afs_WriteFile_result[OF a1]
  show ?thesis
  proof (cases r1)
    case (Some e)
    with a1 assms have "r = Some e" "w' = w1"
      by (simp_all add: writeKeys_def)
    with f1 Some show ?thesis by simp
  next
    case None
    let ?w2 = "fmt_Print (''Writing opk ssh public key to '' @ pk @
                       '' and corresponding secret key to '' @ sk) w1"
    from None a1 assms
    have a2: "afs_WriteFile pk (cert @ '' openpubkey'') (oct 6 4 4) ?w2 = (r, w')"
      by (simp add: writeKeys_def)
    note f2 = afs_WriteFile_result[OF a2]
    have e2: "events ?w2 = events w1" and s2: "fs ?w2 = fs w1"
      by (simp_all add: fmt_Print_def)
    from f1(2) None have w1f: "WriteFile (fs w) sk sec (oct 6 0 0) = Inr (fs w1)"
      by simp
    have ev: "events w' = events w @ [EvWriteFile sk sec (oct 6 0 0),
                                       EvWriteFile pk (cert @ '' openpubkey'') (oct 6 4 4)]"
      using f2(1) e2 f1(1) by simp
    show ?thesis
    proof (cases r)
      case None
      with f2(2) s2 have "WriteFile (fs w1) pk (cert @ '' openpubkey'') (oct 6 4 4) = Inr (fs w')"
        by simp
      with w1f ev None show ?thesis by blast
    next
      case (Some e)
      with f2(3) s2 have "fs w' = fs w1" by simp
      with w1f ev Some show ?thesis by blast
    qed
  qed
qed

lemma writeKeys_other:
  assumes "writeKeys sk pk sec cert w = (r, w')"
      and "Clean q \<noteq> Clean sk" and "Clean q \<noteq> Clean pk"
  shows "node_at (fs w') q = node_at (fs w) q"
  using writeKeys_result[OF assms(1)] WriteFile_Inr(5) assms(2,3)
  by (metis (no_types, lifting))

lemma writeKeys_None:
  assumes wk: "writeKeys sk pk sec cert w = (None, w')" and ne: "Clean pk \<noteq> Clean sk"
  shows "events w' = events w @ [EvWriteFile sk sec (oct 6 0 0),
                                 EvWriteFile pk (cert @ '' openpubkey'') (oct 6 4 4)]"
    and "node_at (fs w') sk =
           Some (case node_at (fs w) sk of
                   None \<Rightarrow> \<lparr>data = sec, perm = mask_mode (oct 6 0 0) (umask (fs w)), isdir = False\<rparr>
                 | Some n \<Rightarrow> n\<lparr>data := sec\<rparr>)"
    and "node_at (fs w') pk =
           Some (case node_at (fs w) pk of
                   None \<Rightarrow> \<lparr>data = cert @ '' openpubkey'',
                             perm = mask_mode (oct 6 4 4) (umask (fs w)), isdir = False\<rparr>
                 | Some n \<Rightarrow> n\<lparr>data := cert @ '' openpubkey''\<rparr>)"
    and "\<not> names_dir sk"
    and "\<And>n. node_at (fs w) sk = Some n \<Longrightarrow> \<not> isdir n"
    and "\<And>n. node_at (fs w) pk = Some n \<Longrightarrow> \<not> isdir n"
proof -
  from writeKeys_result[OF wk] obtain f1 where
    w1: "WriteFile (fs w) sk sec (oct 6 0 0) = Inr f1" and
    ev: "events w' = events w @ [EvWriteFile sk sec (oct 6 0 0),
                                 EvWriteFile pk (cert @ '' openpubkey'') (oct 6 4 4)]" and
    w2: "WriteFile f1 pk (cert @ '' openpubkey'') (oct 6 4 4) = Inr (fs w')"
    by auto
  note a = WriteFile_Inr[OF w1] and b = WriteFile_Inr[OF w2]
  from ev show "events w' = events w @ [EvWriteFile sk sec (oct 6 0 0),
                                 EvWriteFile pk (cert @ '' openpubkey'') (oct 6 4 4)]" .
  from a(1) show "\<not> names_dir sk" .
  from a(6) show "\<And>n. node_at (fs w) sk = Some n \<Longrightarrow> \<not> isdir n" .
  have pk1: "node_at f1 pk = node_at (fs w) pk"
    using a(5)[of pk] ne by simp
  from b(6) pk1 show "\<And>n. node_at (fs w) pk = Some n \<Longrightarrow> \<not> isdir n"
    by simp
  have "node_at (fs w') sk = node_at f1 sk"
    using b(5)[of sk] ne by simp
  with a(4) show "node_at (fs w') sk =
           Some (case node_at (fs w) sk of
                   None \<Rightarrow> \<lparr>data = sec, perm = mask_mode (oct 6 0 0) (umask (fs w)), isdir = False\<rparr>
                 | Some n \<Rightarrow> n\<lparr>data := sec\<rparr>)"
    by simp
  from b(4) pk1 a(3) show "node_at (fs w') pk =
           Some (case node_at (fs w) pk of
                   None \<Rightarrow> \<lparr>data = cert @ '' openpubkey'',
                             perm = mask_mode (oct 6 4 4) (umask (fs w)), isdir = False\<rparr>
                 | Some n \<Rightarrow> n\<lparr>data := cert @ '' openpubkey''\<rparr>)"
    by (simp split: option.splits)
qed

text \<open>The certificate file of a key file that could be written is another file.\<close>

lemma writeKeys_pub_distinct:
  assumes "writeKeys sk (sk @ ''.pub'') sec cert w = (None, w')"
  shows "Clean (sk @ ''.pub'') = Clean sk @ ''.pub''" and "Clean (sk @ ''.pub'') \<noteq> Clean sk"
proof -
  from writeKeys_result[OF assms] obtain f1 where
    "WriteFile (fs w) sk sec (oct 6 0 0) = Inr f1"
    by auto
  then have "\<not> names_dir sk"
    by (rule WriteFile_Inr(1))
  then show "Clean (sk @ ''.pub'') = Clean sk @ ''.pub''"
    by (rule Clean_append_name(1)) simp
  then show "Clean (sk @ ''.pub'') \<noteq> Clean sk"
    by simp
qed

lemma same_io_slot_free: "same_io v w \<Longrightarrow> slot_free P v p = slot_free P w p"
  by (simp add: same_io_def slot_free_def carries_openpubkey_def fileExists_def)

lemma ReadFile_fileExists: "ReadFile (fs w) p = Inr b \<Longrightarrow> fileExists w p"
  by (auto simp: ReadFile_def fileExists_def split: sum.splits if_splits)

lemma try_key_files_take:
  assumes "slot_free P w (Join [sshPath, k])"
  shows "try_key_files P sshPath (k # ks) sec cert w =
           writeKeys (Join [sshPath, k]) (Join [sshPath, k] @ ''.pub'') sec cert w"
  using assms
  by (auto simp: slot_free_def carries_openpubkey_def Let_def ReadFile_fileExists split: sum.splits)

lemma try_key_files_skip:
  assumes "\<not> slot_free P w (Join [sshPath, k])"
  shows "\<exists>v. same_io v w \<and>
           try_key_files P sshPath (k # ks) sec cert w = try_key_files P sshPath ks sec cert v"
proof -
  let ?sk = "Join [sshPath, k]"
  from assms have ex: "fileExists w ?sk" and nc: "\<not> carries_openpubkey P w (?sk @ ''.pub'')"
    by (simp_all add: slot_free_def)
  show ?thesis
  proof (cases "fileExists w (?sk @ ''.pub'')")
    case False
    with ex have "try_key_files P sshPath (k # ks) sec cert w = try_key_files P sshPath ks sec cert w"
      by (simp add: Let_def)
    then show ?thesis using same_io_refl by blast
  next
    case True
    show ?thesis
    proof (cases "ReadFile (fs w) (?sk @ ''.pub'')")
      case (Inl e)
      with ex True have "try_key_files P sshPath (k # ks) sec cert w =
          try_key_files P sshPath ks sec cert (log_Print (''Failed to read: '' @ ?sk @ ''.pub'') w)"
        by (simp add: Let_def)
      then show ?thesis using same_io_log by blast
    next
      case (Inr b)
      show ?thesis
      proof (cases "P b")
        case (Inl e)
        with ex True Inr have "try_key_files P sshPath (k # ks) sec cert w =
          try_key_files P sshPath ks sec cert (log_Print (''Failed to parse: '' @ ?sk @ ''.pub'') w)"
          by (simp add: Let_def)
        then show ?thesis using same_io_log by blast
      next
        case (Inr comment)
        with nc \<open>ReadFile (fs w) (?sk @ ''.pub'') = Inr b\<close> have "comment \<noteq> ''openpubkey''"
          by (auto simp: carries_openpubkey_def)
        with ex True Inr \<open>ReadFile (fs w) (?sk @ ''.pub'') = Inr b\<close>
        have "try_key_files P sshPath (k # ks) sec cert w = try_key_files P sshPath ks sec cert w"
          by (simp add: Let_def)
        then show ?thesis using same_io_refl by blast
      qed
    qed
  qed
qed

text \<open>The loop against the first free slot, for any list of file names.\<close>

lemma try_key_files_find:
  "\<exists>v. same_io v w \<and>
     try_key_files P sshPath ks sec cert w =
       (case find (\<lambda>k. slot_free P w (Join [sshPath, k])) ks of
          None \<Rightarrow> (Some (Err ''no default ssh key file free for openpubkey''), v)
        | Some k \<Rightarrow> writeKeys (Join [sshPath, k]) (Join [sshPath, k] @ ''.pub'') sec cert v)"
proof (induction ks arbitrary: w)
  case Nil
  show ?case by (rule exI[of _ w]) simp
next
  case (Cons k ks)
  show ?case
  proof (cases "slot_free P w (Join [sshPath, k])")
    case True
    show ?thesis using try_key_files_take[OF True]
      by (intro exI[of _ w]) (simp add: True)
  next
    case False
    from try_key_files_skip[OF False] obtain v where
      v: "same_io v w" and
      eq: "try_key_files P sshPath (k # ks) sec cert w = try_key_files P sshPath ks sec cert v"
      by blast
    from Cons.IH[of v] obtain u where
      u: "same_io u v" and
      eq2: "try_key_files P sshPath ks sec cert v =
       (case find (\<lambda>k. slot_free P v (Join [sshPath, k])) ks of
          None \<Rightarrow> (Some (Err ''no default ssh key file free for openpubkey''), u)
        | Some k \<Rightarrow> writeKeys (Join [sshPath, k]) (Join [sshPath, k] @ ''.pub'') sec cert u)"
      by blast
    have sf: "(\<lambda>k. slot_free P v (Join [sshPath, k])) = (\<lambda>k. slot_free P w (Join [sshPath, k]))"
      using same_io_slot_free[OF v] by auto
    have "same_io u w" using u v by (rule same_io_trans)
    moreover have "try_key_files P sshPath (k # ks) sec cert w =
       (case find (\<lambda>k. slot_free P w (Join [sshPath, k])) (k # ks) of
          None \<Rightarrow> (Some (Err ''no default ssh key file free for openpubkey''), u)
        | Some k \<Rightarrow> writeKeys (Join [sshPath, k]) (Join [sshPath, k] @ ''.pub'') sec cert u)"
      using eq eq2 False by (simp add: sf)
    ultimately show ?thesis by blast
  qed
qed


subsection \<open>The steps of login\<close>

lemma try_key_files_None:
  assumes "try_key_files P sshPath ks sec cert w = (None, w')"
  shows "\<exists>k v. k \<in> set ks \<and> same_io v w \<and>
           writeKeys (Join [sshPath, k]) (Join [sshPath, k] @ ''.pub'') sec cert v = (None, w')"
proof -
  from try_key_files_find[of w P sshPath ks sec cert] obtain v where
    v: "same_io v w" and
    eq: "try_key_files P sshPath ks sec cert w =
       (case find (\<lambda>k. slot_free P w (Join [sshPath, k])) ks of
          None \<Rightarrow> (Some (Err ''no default ssh key file free for openpubkey''), v)
        | Some k \<Rightarrow> writeKeys (Join [sshPath, k]) (Join [sshPath, k] @ ''.pub'') sec cert v)"
    by iprover
  show ?thesis
  proof (cases "find (\<lambda>k. slot_free P w (Join [sshPath, k])) ks")
    case None
    with eq assms show ?thesis by simp
  next
    case (Some k)
    then have "k \<in> set ks"
      by (auto simp: find_Some_iff)
    moreover from Some eq assms
    have "writeKeys (Join [sshPath, k]) (Join [sshPath, k] @ ''.pub'') sec cert v = (None, w')"
      by simp
    ultimately show ?thesis using v by iprover
  qed
qed

lemma writeKeysToSSHDir_unfold:
  assumes "UserHomeDir w = Inr home"
      and "MkdirAll (fs w) (Join [home, ''.ssh'']) (oct 7 7 7) = Inr f1"
  shows "writeKeysToSSHDir P sec cert w =
           try_key_files P (Join [home, ''.ssh'']) [''id_ecdsa'', ''id_ed25519''] sec cert
             (w\<lparr>fs := f1\<rparr>)"
  using assms
  by (simp add: writeKeysToSSHDir_def Let_def del: try_key_files.simps)

lemma writeKeysToSSHDir_None:
  assumes "writeKeysToSSHDir P sec cert w = (None, w')"
  shows "\<exists>home f1 k v. UserHomeDir w = Inr home \<and>
           MkdirAll (fs w) (Join [home, ''.ssh'']) (oct 7 7 7) = Inr f1 \<and>
           k \<in> {''id_ecdsa'', ''id_ed25519''} \<and> same_io v (w\<lparr>fs := f1\<rparr>) \<and>
           writeKeys (Join [Join [home, ''.ssh''], k]) (Join [Join [home, ''.ssh''], k] @ ''.pub'')
             sec cert v = (None, w')"
proof -
  obtain home where h: "UserHomeDir w = Inr home"
    using assms by (cases "UserHomeDir w") (simp_all add: writeKeysToSSHDir_def)
  obtain f1 where m: "MkdirAll (fs w) (Join [home, ''.ssh'']) (oct 7 7 7) = Inr f1"
    using assms h
    by (cases "MkdirAll (fs w) (Join [home, ''.ssh'']) (oct 7 7 7)")
       (simp_all add: writeKeysToSSHDir_def Let_def del: try_key_files.simps)
  from assms have "try_key_files P (Join [home, ''.ssh'']) [''id_ecdsa'', ''id_ed25519''] sec cert
             (w\<lparr>fs := f1\<rparr>) = (None, w')"
    unfolding writeKeysToSSHDir_unfold[OF h m] .
  from try_key_files_None[OF this] obtain k v where
    "k \<in> set [''id_ecdsa'', ''id_ed25519'']" and "same_io v (w\<lparr>fs := f1\<rparr>)" and
    "writeKeys (Join [Join [home, ''.ssh''], k]) (Join [Join [home, ''.ssh''], k] @ ''.pub'')
             sec cert v = (None, w')"
    by iprover
  with h m show ?thesis
    by (intro exI[of _ home] exI[of _ f1] exI[of _ k] exI[of _ v]) simp
qed

lemma login_reach:
  assumes "GenKeyPair X = Inr skey" and "client_New X provider skey = None"
      and "client_Auth X provider skey = Inr pk"
      and "createSSHCert X pk skey [] = Inr (certBytes, sec)"
  shows "login X provider printIdToken seckeyPath w =
     (case write_ssh_keys X seckeyPath sec certBytes
             (w\<lparr>events := events w @ [EvAuth (Issuer provider)]\<rparr>) of
        (Some e, w2) \<Rightarrow> (Inl e, w2)
      | (None, w2) \<Rightarrow>
          (case login_report X pk printIdToken w2 of
             (Some e, w3) \<Rightarrow> (Inl e, w3)
           | (None, w3) \<Rightarrow>
               (Inr \<lparr>pkt = pk, signer = skey, client = provider, principals = []\<rparr>, w3)))"
  using assms by (simp add: login_def Let_def)

lemma login_Inr:
  assumes "login X provider printIdToken seckeyPath w = (Inr r, w')"
  shows "\<exists>skey pk certBytes sec w2.
           GenKeyPair X = Inr skey \<and> client_New X provider skey = None \<and>
           client_Auth X provider skey = Inr pk \<and>
           createSSHCert X pk skey [] = Inr (certBytes, sec) \<and>
           write_ssh_keys X seckeyPath sec certBytes
             (w\<lparr>events := events w @ [EvAuth (Issuer provider)]\<rparr>) = (None, w2) \<and>
           login_report X pk printIdToken w2 = (None, w') \<and>
           r = \<lparr>pkt = pk, signer = skey, client = provider, principals = []\<rparr>"
proof -
  let ?w1 = "w\<lparr>events := events w @ [EvAuth (Issuer provider)]\<rparr>"
  obtain skey where g: "GenKeyPair X = Inr skey"
    using assms by (cases "GenKeyPair X") (simp_all add: login_def)
  have n: "client_New X provider skey = None"
    using assms g by (cases "client_New X provider skey") (simp_all add: login_def)
  obtain pk where a: "client_Auth X provider skey = Inr pk"
    using assms g n by (cases "client_Auth X provider skey") (simp_all add: login_def)
  obtain certBytes sec where c: "createSSHCert X pk skey [] = Inr (certBytes, sec)"
    using assms g n a by (cases "createSSHCert X pk skey []") (auto simp: login_def)
  note lr = login_reach[OF g n a c, of printIdToken seckeyPath w]
  obtain e2 w2 where wr0: "write_ssh_keys X seckeyPath sec certBytes ?w1 = (e2, w2)"
    by (cases "write_ssh_keys X seckeyPath sec certBytes ?w1")
  have e2: "e2 = None"
    using assms lr wr0 by (cases e2) simp_all
  obtain e3 w3 where rp0: "login_report X pk printIdToken w2 = (e3, w3)"
    by (cases "login_report X pk printIdToken w2")
  have e3: "e3 = None"
    using assms lr wr0 e2 rp0 by (cases e3) simp_all
  have r: "r = \<lparr>pkt = pk, signer = skey, client = provider, principals = []\<rparr>" and w3: "w3 = w'"
    using assms lr wr0 e2 rp0 e3 by simp_all
  from g n a c wr0 e2 rp0 e3 r w3 show ?thesis
    by (intro exI[of _ skey] exI[of _ pk] exI[of _ certBytes] exI[of _ sec] exI[of _ w2]) simp
qed

lemma login_report_same_io:
  "login_report X pk b w = (r, w') \<Longrightarrow> same_io w' w"
  by (auto simp: login_report_def same_io_def fmt_Print_def
           split: if_splits sum.splits prod.splits option.splits)

text \<open>What \<open>MkdirAll\<close> has made is a directory: a path that is none is as before.\<close>

lemma MkdirAll_same_node:
  assumes "MkdirAll f p m = Inr f1" and "\<And>n. node_at f1 q = Some n \<Longrightarrow> \<not> isdir n"
  shows "node_at f1 q = node_at f q"
proof (cases "node_at f1 q")
  case None
  show ?thesis
  proof (cases "node_at f q")
    case None
    with \<open>node_at f1 q = None\<close> show ?thesis by simp
  next
    case (Some n)
    from MkdirAll_facts(3)[OF assms(1) Some] None show ?thesis by simp
  qed
next
  case (Some n)
  from MkdirAll_facts(4)[OF assms(1) Some] assms(2)[OF Some] Some show ?thesis
    by auto
qed

text \<open>
  Claim C8, as the code has it. After every successful \<open>login\<close>: the command has made,
  after the provider's authentication, exactly two writes, the secret key to a path
  \<open>sk\<close> with mode \<open>0600\<close> and the certificate followed by \<open>" openpubkey"\<close> to \<open>sk.pub\<close> with
  mode \<open>0644\<close>, where \<open>sk\<close> is the \<open>--output-key\<close> path or one of the two default paths;
  the two files hold these bytes; a file that the write created has the mode of the
  write less the process's mask, and a file that was there keeps its permission bits.
\<close>

theorem C8_login_key_files:
  assumes "login X provider printIdToken seckeyPath w = (Inr r, w')"
  shows "\<exists>sk certBytes seckeySshPem.
     createSSHCert X (pkt r) (signer r) [] = Inr (certBytes, seckeySshPem) \<and>
     (seckeyPath \<noteq> [] \<longrightarrow> sk = seckeyPath) \<and>
     (seckeyPath = [] \<longrightarrow>
        (\<exists>home. UserHomeDir w = Inr home \<and>
           (sk = Join [Join [home, ''.ssh''], ''id_ecdsa''] \<or>
            sk = Join [Join [home, ''.ssh''], ''id_ed25519'']))) \<and>
     events w' = events w @ [EvAuth (Issuer provider),
                   EvWriteFile sk seckeySshPem (oct 6 0 0),
                   EvWriteFile (sk @ ''.pub'') (certBytes @ '' openpubkey'') (oct 6 4 4)] \<and>
     node_at (fs w') sk =
       Some (case node_at (fs w) sk of
               None \<Rightarrow> \<lparr>data = seckeySshPem, perm = mask_mode (oct 6 0 0) (umask (fs w)),
                         isdir = False\<rparr>
             | Some n \<Rightarrow> n\<lparr>data := seckeySshPem\<rparr>) \<and>
     node_at (fs w') (sk @ ''.pub'') =
       Some (case node_at (fs w) (sk @ ''.pub'') of
               None \<Rightarrow> \<lparr>data = certBytes @ '' openpubkey'',
                         perm = mask_mode (oct 6 4 4) (umask (fs w)), isdir = False\<rparr>
             | Some n \<Rightarrow> n\<lparr>data := certBytes @ '' openpubkey''\<rparr>)"
proof -
  let ?w1 = "w\<lparr>events := events w @ [EvAuth (Issuer provider)]\<rparr>"
  from login_Inr[OF assms] obtain skey pk certBytes sec w2 where
    c: "createSSHCert X pk skey [] = Inr (certBytes, sec)" and
    wr: "write_ssh_keys X seckeyPath sec certBytes ?w1 = (None, w2)" and
    rp: "login_report X pk printIdToken w2 = (None, w')" and
    r: "r = \<lparr>pkt = pk, signer = skey, client = provider, principals = []\<rparr>"
    by iprover
  from login_report_same_io[OF rp] have s3: "fs w' = fs w2" "events w' = events w2"
    by (simp_all add: same_io_def)
  have f1: "createSSHCert X (pkt r) (signer r) [] = Inr (certBytes, sec)"
    using c r by simp
  have "\<exists>sk v. (seckeyPath \<noteq> [] \<longrightarrow> sk = seckeyPath) \<and>
     (seckeyPath = [] \<longrightarrow>
        (\<exists>home. UserHomeDir w = Inr home \<and>
           (sk = Join [Join [home, ''.ssh''], ''id_ecdsa''] \<or>
            sk = Join [Join [home, ''.ssh''], ''id_ed25519'']))) \<and>
     events v = events ?w1 \<and> umask (fs v) = umask (fs w) \<and>
     (\<forall>q. (\<forall>n. node_at (fs v) q = Some n \<longrightarrow> \<not> isdir n) \<longrightarrow> node_at (fs v) q = node_at (fs w) q) \<and>
     writeKeys sk (sk @ ''.pub'') sec certBytes v = (None, w2)"
  proof (cases "seckeyPath = []")
    case False
    with wr have "writeKeys seckeyPath (seckeyPath @ ''.pub'') sec certBytes ?w1 = (None, w2)"
      by (simp add: write_ssh_keys_def split: prod.splits option.splits)
    with False show ?thesis
      by (intro exI[of _ seckeyPath] exI[of _ ?w1]) simp
  next
    case True
    with wr have "writeKeysToSSHDir (ParseAuthorizedKey X) sec certBytes ?w1 = (None, w2)"
      by (simp add: write_ssh_keys_def split: prod.splits option.splits)
    from writeKeysToSSHDir_None[OF this] obtain home f1 k v where
      h: "UserHomeDir ?w1 = Inr home" and
      m: "MkdirAll (fs ?w1) (Join [home, ''.ssh'']) (oct 7 7 7) = Inr f1" and
      k: "k \<in> {''id_ecdsa'', ''id_ed25519''}" and
      v: "same_io v (?w1\<lparr>fs := f1\<rparr>)" and
      wk: "writeKeys (Join [Join [home, ''.ssh''], k]) (Join [Join [home, ''.ssh''], k] @ ''.pub'')
             sec certBytes v = (None, w2)"
      by iprover
    from h have h': "UserHomeDir w = Inr home"
      by (simp add: UserHomeDir_def)
    from m have m': "MkdirAll (fs w) (Join [home, ''.ssh'']) (oct 7 7 7) = Inr f1"
      by simp
    from v have fv: "fs v = f1" and ev: "events v = events ?w1"
      by (simp_all add: same_io_def)
    have um: "umask (fs v) = umask (fs w)"
      using MkdirAll_facts(2)[OF m'] fv by simp
    have nd: "\<forall>q. (\<forall>n. node_at (fs v) q = Some n \<longrightarrow> \<not> isdir n) \<longrightarrow>
                 node_at (fs v) q = node_at (fs w) q"
      using MkdirAll_same_node[OF m'] fv by simp
    from k have kk: "Join [Join [home, ''.ssh''], k] = Join [Join [home, ''.ssh''], ''id_ecdsa''] \<or>
        Join [Join [home, ''.ssh''], k] = Join [Join [home, ''.ssh''], ''id_ed25519'']"
      by auto
    from True h' kk ev um nd wk show ?thesis
      by (intro exI[of _ "Join [Join [home, ''.ssh''], k]"] exI[of _ v] conjI impI exI[of _ home])
         simp_all
  qed
  then obtain sk v where
    sk1: "seckeyPath \<noteq> [] \<longrightarrow> sk = seckeyPath" and
    sk2: "seckeyPath = [] \<longrightarrow>
        (\<exists>home. UserHomeDir w = Inr home \<and>
           (sk = Join [Join [home, ''.ssh''], ''id_ecdsa''] \<or>
            sk = Join [Join [home, ''.ssh''], ''id_ed25519'']))" and
    ev: "events v = events ?w1" and um: "umask (fs v) = umask (fs w)" and
    nd: "\<forall>q. (\<forall>n. node_at (fs v) q = Some n \<longrightarrow> \<not> isdir n) \<longrightarrow> node_at (fs v) q = node_at (fs w) q" and
    wk: "writeKeys sk (sk @ ''.pub'') sec certBytes v = (None, w2)"
    by iprover
  note ne = writeKeys_pub_distinct(2)[OF wk]
  note k = writeKeys_None[OF wk ne]
  have n1: "node_at (fs v) sk = node_at (fs w) sk"
    using nd k(5) by blast
  have n2: "node_at (fs v) (sk @ ''.pub'') = node_at (fs w) (sk @ ''.pub'')"
    using nd k(6) by blast
  have f2: "events w' = events w @ [EvAuth (Issuer provider),
                   EvWriteFile sk sec (oct 6 0 0),
                   EvWriteFile (sk @ ''.pub'') (certBytes @ '' openpubkey'') (oct 6 4 4)]"
    using k(1) s3(2) ev by simp
  have f3: "node_at (fs w') sk =
       Some (case node_at (fs w) sk of
               None \<Rightarrow> \<lparr>data = sec, perm = mask_mode (oct 6 0 0) (umask (fs w)), isdir = False\<rparr>
             | Some n \<Rightarrow> n\<lparr>data := sec\<rparr>)"
    unfolding s3(1) k(2) n1 um ..
  have f4: "node_at (fs w') (sk @ ''.pub'') =
       Some (case node_at (fs w) (sk @ ''.pub'') of
               None \<Rightarrow> \<lparr>data = certBytes @ '' openpubkey'',
                         perm = mask_mode (oct 6 4 4) (umask (fs w)), isdir = False\<rparr>
             | Some n \<Rightarrow> n\<lparr>data := certBytes @ '' openpubkey''\<rparr>)"
    unfolding s3(1) k(3) n2 um ..
  show ?thesis
    apply (rule exI[of _ sk], rule exI[of _ certBytes], rule exI[of _ sec])
    using f1 sk1 sk2 f2 f3 f4 by (intro conjI)
qed

section \<open>Evaluation of the sample runs\<close>

text \<open>The elements of a path, computed from its end in one pass.\<close>

lemma split_slash_eval:
  "split_slash (c # cs) =
     (let ps = split_slash cs in if c = CHR ''/'' then [] # ps else (c # hd ps) # tl ps)"
  by (simp add: Let_def)

declare split_slash.simps(2) [simp del]

declare split_slash_eval [simp]

lemmas path_eval =
  Clean_def comps_def clean_stack_def clean_step_def render_def rooted_def Join_def Dir_def
  names_dir_def ancestors_def Let_def upt_rec

lemmas fs_eval =
  node_at_def node_key_def is_directory_def mask_mode_def oct_def root_dir_def
  Stat_def Open_def ReadFile_def WriteFile_def OpenFile_append_def MkdirAll_def
  reg_def dirn_def demo_world_def

lemmas login_eval =
  login_def createSSHCert_def write_ssh_keys_def writeKeysToSSHDir_def UserHomeDir_def
  fileExists_def writeKeys_def afs_WriteFile_def login_report_def IdentityString_def
  PrettyIdToken_def fmt_Print_def log_Print_def demo_ParseAuthorizedKey_def demo_X_def
  demo_provider_def slot_free_def carries_openpubkey_def

text \<open>A login without \<open>--output-key\<close> beside the key pair of someone else.\<close>

lemma login_foreign_key_world:
  "fst (login demo_X demo_provider False [] foreign_key_world) =
     Inr \<lparr>pkt = \<lparr>Payload = ''exp=1000'', OpToken = ''ID-TOKEN''\<rparr>, signer = ''EPHEMERAL-KEY'',
          client = demo_provider, principals = []\<rparr>"
  by (simp add: foreign_key_world_def login_eval path_eval fs_eval)

lemma foreign_key_world_paths:
  "UserHomeDir foreign_key_world = Inr ''/home/u/''"
  "Join [Join [''/home/u/'', ''.ssh''], ''id_ecdsa''] = ''/home/u/.ssh/id_ecdsa''"
  "Join [Join [''/home/u/'', ''.ssh''], ''id_ed25519''] = ''/home/u/.ssh/id_ed25519''"
  "Join [''/home/u/'', ''.ssh''] = ''/home/u/.ssh''"
  by (simp_all add: foreign_key_world_def login_eval path_eval fs_eval)

lemma foreign_key_world_slots:
  "fileExists foreign_key_world ''/home/u/.ssh/id_ecdsa''"
  "\<not> carries_openpubkey demo_ParseAuthorizedKey foreign_key_world ''/home/u/.ssh/id_ecdsa.pub''"
  "find (slot_free demo_ParseAuthorizedKey foreign_key_world)
     [''/home/u/.ssh/id_ecdsa'', ''/home/u/.ssh/id_ed25519''] = Some ''/home/u/.ssh/id_ed25519''"
  "MkdirAll (fs foreign_key_world) ''/home/u/.ssh'' (oct 7 7 7) = Inr (fs foreign_key_world)"
  "node_at (fs foreign_key_world) ''/home/u/.ssh/id_ecdsa'' =
     Some (reg ''PRIVATE KEY OF ALICE'' (oct 6 0 0))"
  "node_at (fs foreign_key_world) ''/home/u/.ssh/id_ecdsa.pub'' =
     Some (reg ''ssh-ed25519 AAAAC3Nz alice@laptop'' (oct 6 4 4))"
  "node_at (fs foreign_key_world) ''/home/u/.ssh/id_ed25519'' = None"
  "node_at (fs foreign_key_world) ''/home/u/.ssh/id_ed25519.pub'' = None"
  "umask (fs foreign_key_world) = oct 0 2 2"
  "events foreign_key_world = []"
  by (simp_all add: foreign_key_world_def login_eval path_eval fs_eval)

lemma demo_X_reach:
  "GenKeyPair demo_X = Inr ''EPHEMERAL-KEY''"
  "client_New demo_X demo_provider ''EPHEMERAL-KEY'' = None"
  "client_Auth demo_X demo_provider ''EPHEMERAL-KEY'' =
     Inr \<lparr>Payload = ''exp=1000'', OpToken = ''ID-TOKEN''\<rparr>"
  "createSSHCert demo_X \<lparr>Payload = ''exp=1000'', OpToken = ''ID-TOKEN''\<rparr> ''EPHEMERAL-KEY'' [] =
     Inr (''ecdsa-sha2-nistp256-cert-v01@openssh.com CERT-SIGNED'', ''PEM:EPHEMERAL-KEY'')"
  "ParseAuthorizedKey demo_X = demo_ParseAuthorizedKey"
  "Issuer demo_provider = ''https://issuer.example''"
  by (simp_all add: demo_X_def demo_provider_def createSSHCert_def)

lemma mask_mode_022:
  "mask_mode (oct 6 0 0) (oct 0 2 2) = oct 6 0 0"
  "mask_mode (oct 6 4 4) (oct 0 2 2) = oct 6 4 4"
  "mask_mode (oct 7 7 7) (oct 0 2 2) = oct 7 5 5"
  "mask_mode (oct 7 5 5) (oct 0 2 2) = oct 7 5 5"
  by (simp_all add: mask_mode_def oct_def)

text \<open>A login with \<open>--output-key /tmp/opk\<close> where that file exists.\<close>

lemma login_open_key_world:
  "fst (login demo_X demo_provider False ''/tmp/opk'' open_key_world) =
     Inr \<lparr>pkt = \<lparr>Payload = ''exp=1000'', OpToken = ''ID-TOKEN''\<rparr>, signer = ''EPHEMERAL-KEY'',
          client = demo_provider, principals = []\<rparr>"
  by (simp add: open_key_world_def login_eval path_eval fs_eval)

lemma open_key_world_nodes:
  "node_at (fs open_key_world) ''/tmp/opk'' = Some (reg ''OLD KEY'' (oct 6 4 4))"
  "node_at (fs open_key_world) (''/tmp/opk'' @ ''.pub'') = None"
  "umask (fs open_key_world) = oct 0 2 2"
  "events open_key_world = []"
  by (simp_all add: open_key_world_def path_eval fs_eval)

section \<open>The default key files\<close>

lemma simple_names:
  "simple_name ''id_ecdsa''" "simple_name ''id_ed25519''" "simple_name ''.ssh''"
  by (simp_all add: simple_name_def)

lemma slot_free_same_nodes:
  assumes "denied (fs v) = denied (fs w)"
      and "node_at (fs v) c = node_at (fs w) c"
      and "node_at (fs v) (c @ ''.pub'') = node_at (fs w) (c @ ''.pub'')"
  shows "slot_free P v c = slot_free P w c"
  using assms
  by (simp add: slot_free_def fileExists_def carries_openpubkey_def ReadFile_def Open_def)

text \<open>Making \<open>~/.ssh\<close> changes nothing at a key file in it.\<close>

lemma MkdirAll_key_nodes:
  assumes mk: "MkdirAll f a m = Inr f1" and k: "simple_name k"
  shows "node_at f1 (Join [a, k]) = node_at f (Join [a, k])"
    and "node_at f1 (Join [a, k] @ ''.pub'') = node_at f (Join [a, k] @ ''.pub'')"
proof -
  from MkdirAll_name[OF mk k, of "[]"] show "node_at f1 (Join [a, k]) = node_at f (Join [a, k])"
    by simp
  show "node_at f1 (Join [a, k] @ ''.pub'') = node_at f (Join [a, k] @ ''.pub'')"
    by (rule MkdirAll_name[OF mk k]) simp
qed

lemma MkdirAll_slot_free:
  assumes mk: "MkdirAll (fs w) a m = Inr f1" and k: "simple_name k" and v: "fs v = f1"
  shows "slot_free P v (Join [a, k]) = slot_free P w (Join [a, k])"
proof (rule slot_free_same_nodes)
  from MkdirAll_facts(1)[OF mk] v show "denied (fs v) = denied (fs w)" by simp
  from MkdirAll_key_nodes(1)[OF mk k] v
  show "node_at (fs v) (Join [a, k]) = node_at (fs w) (Join [a, k])" by simp
  from MkdirAll_key_nodes(2)[OF mk k] v
  show "node_at (fs v) (Join [a, k] @ ''.pub'') = node_at (fs w) (Join [a, k] @ ''.pub'')" by simp
qed

text \<open>The four default files are four files.\<close>

lemma default_files_distinct:
  assumes "a \<noteq> []"
  shows "Clean (Join [a, ''id_ecdsa'']) \<noteq> Clean (Join [a, ''id_ed25519''])"
    and "Clean (Join [a, ''id_ecdsa'']) \<noteq> Clean (Join [a, ''id_ed25519''] @ ''.pub'')"
    and "Clean (Join [a, ''id_ecdsa''] @ ''.pub'') \<noteq> Clean (Join [a, ''id_ed25519''])"
    and "Clean (Join [a, ''id_ecdsa''] @ ''.pub'') \<noteq> Clean (Join [a, ''id_ed25519''] @ ''.pub'')"
proof -
  have n: "CHR ''/'' \<notin> set ''.pub''" "CHR ''/'' \<notin> set []"
    by simp_all
  note e1 = Clean_Join2_stack[OF assms simple_names(1) n(2), simplified]
  note e2 = Clean_Join2_stack[OF assms simple_names(2) n(2), simplified]
  note p1 = Clean_Join2_stack[OF assms simple_names(1) n(1)]
  note p2 = Clean_Join2_stack[OF assms simple_names(2) n(1)]
  show "Clean (Join [a, ''id_ecdsa'']) \<noteq> Clean (Join [a, ''id_ed25519''])"
    unfolding e1 e2 by simp
  show "Clean (Join [a, ''id_ecdsa'']) \<noteq> Clean (Join [a, ''id_ed25519''] @ ''.pub'')"
    unfolding e1 p2 by simp
  show "Clean (Join [a, ''id_ecdsa''] @ ''.pub'') \<noteq> Clean (Join [a, ''id_ed25519''])"
    unfolding p1 e2 by simp
  show "Clean (Join [a, ''id_ecdsa''] @ ''.pub'') \<noteq> Clean (Join [a, ''id_ed25519''] @ ''.pub'')"
    unfolding p1 p2 by simp
qed

text \<open>\<open>writeKeysToSSHDir\<close> against the first free default path of the world it starts in.\<close>

lemma writeKeysToSSHDir_find:
  assumes home: "UserHomeDir w = Inr home"
      and mk: "MkdirAll (fs w) (Join [home, ''.ssh'']) (oct 7 7 7) = Inr f1"
  shows "\<exists>v. same_io v (w\<lparr>fs := f1\<rparr>) \<and>
     writeKeysToSSHDir P sec cert w =
       (case find (slot_free P w) [Join [Join [home, ''.ssh''], ''id_ecdsa''],
                                   Join [Join [home, ''.ssh''], ''id_ed25519'']] of
          None \<Rightarrow> (Some (Err ''no default ssh key file free for openpubkey''), v)
        | Some c \<Rightarrow> writeKeys c (c @ ''.pub'') sec cert v)"
proof -
  let ?a = "Join [home, ''.ssh'']"
  let ?u = "w\<lparr>fs := f1\<rparr>"
  from try_key_files_find[of ?u P ?a "[''id_ecdsa'', ''id_ed25519'']" sec cert]
  obtain v where v: "same_io v ?u" and
    eq: "try_key_files P ?a [''id_ecdsa'', ''id_ed25519''] sec cert ?u =
       (case find (\<lambda>k. slot_free P ?u (Join [?a, k])) [''id_ecdsa'', ''id_ed25519''] of
          None \<Rightarrow> (Some (Err ''no default ssh key file free for openpubkey''), v)
        | Some k \<Rightarrow> writeKeys (Join [?a, k]) (Join [?a, k] @ ''.pub'') sec cert v)"
    by iprover
  have fu: "fs ?u = f1" by simp
  note s1 = MkdirAll_slot_free[OF mk simple_names(1) fu, of P]
  note s2 = MkdirAll_slot_free[OF mk simple_names(2) fu, of P]
  have "writeKeysToSSHDir P sec cert w =
       (case find (slot_free P w) [Join [?a, ''id_ecdsa''], Join [?a, ''id_ed25519'']] of
          None \<Rightarrow> (Some (Err ''no default ssh key file free for openpubkey''), v)
        | Some c \<Rightarrow> writeKeys c (c @ ''.pub'') sec cert v)"
    unfolding writeKeysToSSHDir_unfold[OF home mk] eq
    by (simp add: s1 s2)
  with v show ?thesis by iprover
qed

lemma write_ssh_keys_default:
  "write_ssh_keys X [] sec cert w =
     (case writeKeysToSSHDir (ParseAuthorizedKey X) sec cert w of
        (Some e, w1) \<Rightarrow> (Some (Errorf_w ''failed to write SSH keys to filesystem'' e), w1)
      | (None, w1) \<Rightarrow> (None, w1))"
  by (simp add: write_ssh_keys_def)

text \<open>A login that does not get as far as the key files changes no file.\<close>

lemma login_early:
  assumes run: "login X provider printIdToken seckeyPath w = (r, w')"
  shows "fs w' = fs w \<or>
         (\<exists>skey pk certBytes sec.
            GenKeyPair X = Inr skey \<and> client_New X provider skey = None \<and>
            client_Auth X provider skey = Inr pk \<and>
            createSSHCert X pk skey [] = Inr (certBytes, sec))"
proof (cases "GenKeyPair X")
  case (Inl e)
  with run have "w' = w" by (simp add: login_def)
  then show ?thesis by simp
next
  case g: (Inr skey)
  show ?thesis
  proof (cases "client_New X provider skey")
    case (Some e)
    with run g have "w' = w" by (simp add: login_def)
    then show ?thesis by simp
  next
    case n: None
    show ?thesis
    proof (cases "client_Auth X provider skey")
      case (Inl e)
      with run g n have "w' = w\<lparr>events := events w @ [EvAuth (Issuer provider)]\<rparr>"
        by (simp add: login_def)
      then show ?thesis by simp
    next
      case a: (Inr pk)
      show ?thesis
      proof (cases "createSSHCert X pk skey []")
        case (Inl e)
        with run g n a have "w' = w\<lparr>events := events w @ [EvAuth (Issuer provider)]\<rparr>"
          by (simp add: login_def)
        then show ?thesis by simp
      next
        case (Inr cs)
        obtain certBytes sec where "cs = (certBytes, sec)" by (cases cs)
        with Inr have "createSSHCert X pk skey [] = Inr (certBytes, sec)" by simp
        with g n a show ?thesis by iprover
      qed
    qed
  qed
qed

text \<open>
  A login without \<open>--output-key\<close> that gets as far as the key files, when \<open>~/.ssh\<close> can
  be made: the keys go through \<open>writeKeys\<close> to the first free default path.
\<close>

lemma login_default_keys:
  assumes gen: "GenKeyPair X = Inr skey" and new: "client_New X provider skey = None"
      and auth: "client_Auth X provider skey = Inr pk"
      and cert: "createSSHCert X pk skey [] = Inr (certBytes, sec)"
      and home: "UserHomeDir w = Inr home"
      and mk: "MkdirAll (fs w) (Join [home, ''.ssh'']) (oct 7 7 7) = Inr f1"
      and run: "login X provider printIdToken [] w = (r, w')"
  shows "case find (slot_free (ParseAuthorizedKey X) w)
                [Join [Join [home, ''.ssh''], ''id_ecdsa''],
                 Join [Join [home, ''.ssh''], ''id_ed25519'']] of
           None \<Rightarrow>
             r = Inl (Wrap ''failed to write SSH keys to filesystem''
                        (Err ''no default ssh key file free for openpubkey'')) \<and>
             fs w' = f1 \<and> events w' = events w @ [EvAuth (Issuer provider)]
         | Some c \<Rightarrow>
             (\<exists>v e w2. fs v = f1 \<and> events v = events w @ [EvAuth (Issuer provider)] \<and>
                writeKeys c (c @ ''.pub'') sec certBytes v = (e, w2) \<and>
                fs w' = fs w2 \<and> events w' = events w2 \<and>
                ((\<exists>res. r = Inr res) \<longrightarrow> e = None))"
proof -
  let ?w1 = "w\<lparr>events := events w @ [EvAuth (Issuer provider)]\<rparr>"
  let ?P = "ParseAuthorizedKey X"
  let ?cs = "[Join [Join [home, ''.ssh''], ''id_ecdsa''], Join [Join [home, ''.ssh''], ''id_ed25519'']]"
  have home1: "UserHomeDir ?w1 = Inr home"
    using home by (simp add: UserHomeDir_def)
  have mk1: "MkdirAll (fs ?w1) (Join [home, ''.ssh'']) (oct 7 7 7) = Inr f1"
    using mk by simp
  have sf: "slot_free ?P ?w1 = slot_free ?P w"
    by (simp add: fun_eq_iff slot_free_def fileExists_def carries_openpubkey_def)
  from writeKeysToSSHDir_find[OF home1 mk1, of ?P sec certBytes]
  obtain v where v: "same_io v (?w1\<lparr>fs := f1\<rparr>)" and
    eq: "writeKeysToSSHDir ?P sec certBytes ?w1 =
       (case find (slot_free ?P w) ?cs of
          None \<Rightarrow> (Some (Err ''no default ssh key file free for openpubkey''), v)
        | Some c \<Rightarrow> writeKeys c (c @ ''.pub'') sec certBytes v)"
    unfolding sf by iprover
  from v have fv: "fs v = f1" and ev: "events v = events w @ [EvAuth (Issuer provider)]"
    by (simp_all add: same_io_def)
  note lr = login_reach[OF gen new auth cert, of printIdToken "[]" w]
  show ?thesis
  proof (cases "find (slot_free ?P w) ?cs")
    case None
    with eq have "write_ssh_keys X [] sec certBytes ?w1 =
        (Some (Wrap ''failed to write SSH keys to filesystem''
                 (Err ''no default ssh key file free for openpubkey'')), v)"
      by (simp add: write_ssh_keys_default)
    with lr run have "r = Inl (Wrap ''failed to write SSH keys to filesystem''
                        (Err ''no default ssh key file free for openpubkey''))" and "w' = v"
      by simp_all
    with fv ev None show ?thesis by simp
  next
    case (Some c)
    obtain e w2 where wk: "writeKeys c (c @ ''.pub'') sec certBytes v = (e, w2)"
      by (cases "writeKeys c (c @ ''.pub'') sec certBytes v")
    from eq Some wk have wd: "writeKeysToSSHDir ?P sec certBytes ?w1 = (e, w2)"
      by simp
    have "fs w' = fs w2 \<and> events w' = events w2 \<and> ((\<exists>res. r = Inr res) \<longrightarrow> e = None)"
    proof (cases e)
      case (Some err)
      with wd have "write_ssh_keys X [] sec certBytes ?w1 =
          (Some (Errorf_w ''failed to write SSH keys to filesystem'' err), w2)"
        by (simp add: write_ssh_keys_default)
      with lr run have "r = Inl (Errorf_w ''failed to write SSH keys to filesystem'' err)"
        and "w' = w2"
        by simp_all
      then show ?thesis by simp
    next
      case None
      with wd have ws: "write_ssh_keys X [] sec certBytes ?w1 = (None, w2)"
        by (simp add: write_ssh_keys_default)
      obtain e3 w3 where rp: "login_report X pk printIdToken w2 = (e3, w3)"
        by (cases "login_report X pk printIdToken w2")
      from login_report_same_io[OF rp] have s: "fs w3 = fs w2" "events w3 = events w2"
        by (simp_all add: same_io_def)
      from lr run ws rp have "w' = w3"
        by (cases e3) simp_all
      with s None show ?thesis by simp
    qed
    with fv ev wk Some show ?thesis
      by (simp only: option.case) iprover
  qed
qed

lemma login_mkdir_fails:
  assumes gen: "GenKeyPair X = Inr skey" and new: "client_New X provider skey = None"
      and auth: "client_Auth X provider skey = Inr pk"
      and cert: "createSSHCert X pk skey [] = Inr (certBytes, sec)"
      and home: "UserHomeDir w = Inr home"
      and mk: "MkdirAll (fs w) (Join [home, ''.ssh'']) (oct 7 7 7) = Inl e"
      and run: "login X provider printIdToken [] w = (r, w')"
  shows "fs w' = fs w"
proof -
  let ?w1 = "w\<lparr>events := events w @ [EvAuth (Issuer provider)]\<rparr>"
  have "UserHomeDir ?w1 = Inr home"
    using home by (simp add: UserHomeDir_def)
  with mk have "writeKeysToSSHDir (ParseAuthorizedKey X) sec certBytes ?w1 = (Some e, ?w1)"
    by (simp add: writeKeysToSSHDir_def Let_def del: try_key_files.simps)
  then have "write_ssh_keys X [] sec certBytes ?w1 =
      (Some (Errorf_w ''failed to write SSH keys to filesystem'' e), ?w1)"
    by (simp add: write_ssh_keys_default)
  with login_reach[OF gen new auth cert, of printIdToken "[]" w] run have "w' = ?w1"
    by simp
  then show ?thesis by simp
qed

text \<open>
  Claim C3, as the code has it. A login without \<open>--output-key\<close> in a process whose home
  directory is known; \<open>c1\<close> and \<open>c2\<close> are \<open>~/.ssh/id_ecdsa\<close> and \<open>~/.ssh/id_ed25519\<close> as
  the code names them, and a path is free in the world the login starts in when its
  secret key file is absent or its public key file carries the comment \<open>openpubkey\<close>.

  \<^item> Never overwritten: a candidate whose secret key file exists and whose public key
    file does not carry the comment \<open>openpubkey\<close> is left as it is, and so is its
    public key file, whatever the login returns.
  \<^item> When the login gets as far as the key files (key pair, authentication and
    certificate succeed, \<open>~/.ssh\<close> can be made) and no candidate is free, it fails with
    the error "no default ssh key file free for openpubkey", no write has been
    attempted and the file system is as \<open>MkdirAll\<close> left it.
  \<^item> When it gets that far and \<open>c\<close> is the first free candidate, the first write of the
    login is that of the secret key to \<open>c\<close>, the only other write is that of the
    certificate to \<open>c.pub\<close>, no other file is changed, and when the login succeeds both
    writes have been made and the two files hold the secret key and the certificate
    with its comment.
\<close>

theorem C3_first_free_slot:
  assumes home: "UserHomeDir w = Inr home"
      and c1: "c1 = Join [Join [home, ''.ssh''], ''id_ecdsa'']"
      and c2: "c2 = Join [Join [home, ''.ssh''], ''id_ed25519'']"
      and run: "login X provider printIdToken [] w = (r, w')"
  shows "(\<forall>c \<in> set [c1, c2].
            fileExists w c \<and> \<not> carries_openpubkey (ParseAuthorizedKey X) w (c @ ''.pub'') \<longrightarrow>
            node_at (fs w') c = node_at (fs w) c \<and>
            node_at (fs w') (c @ ''.pub'') = node_at (fs w) (c @ ''.pub'')) \<and>
         (GenKeyPair X = Inr skey \<and> client_New X provider skey = None \<and>
          client_Auth X provider skey = Inr pk \<and>
          createSSHCert X pk skey [] = Inr (certBytes, sec) \<and>
          MkdirAll (fs w) (Join [home, ''.ssh'']) (oct 7 7 7) = Inr f1 \<longrightarrow>
          (case find (slot_free (ParseAuthorizedKey X) w) [c1, c2] of
             None \<Rightarrow>
               r = Inl (Wrap ''failed to write SSH keys to filesystem''
                          (Err ''no default ssh key file free for openpubkey'')) \<and>
               fs w' = f1 \<and> events w' = events w @ [EvAuth (Issuer provider)]
           | Some c \<Rightarrow>
               (events w' = events w @ [EvAuth (Issuer provider),
                                        EvWriteFile c sec (oct 6 0 0)] \<or>
                events w' = events w @ [EvAuth (Issuer provider),
                              EvWriteFile c sec (oct 6 0 0),
                              EvWriteFile (c @ ''.pub'') (certBytes @ '' openpubkey'') (oct 6 4 4)]) \<and>
               (\<forall>q. Clean q \<noteq> Clean c \<and> Clean q \<noteq> Clean (c @ ''.pub'') \<longrightarrow>
                    node_at (fs w') q = node_at f1 q) \<and>
               ((\<exists>res. r = Inr res) \<longrightarrow>
                  events w' = events w @ [EvAuth (Issuer provider),
                              EvWriteFile c sec (oct 6 0 0),
                              EvWriteFile (c @ ''.pub'') (certBytes @ '' openpubkey'') (oct 6 4 4)] \<and>
                  node_at (fs w') c =
                    Some (case node_at (fs w) c of
                            None \<Rightarrow> \<lparr>data = sec, perm = mask_mode (oct 6 0 0) (umask (fs w)),
                                      isdir = False\<rparr>
                          | Some n \<Rightarrow> n\<lparr>data := sec\<rparr>) \<and>
                  node_at (fs w') (c @ ''.pub'') =
                    Some (case node_at (fs w) (c @ ''.pub'') of
                            None \<Rightarrow> \<lparr>data = certBytes @ '' openpubkey'',
                                      perm = mask_mode (oct 6 4 4) (umask (fs w)), isdir = False\<rparr>
                          | Some n \<Rightarrow> n\<lparr>data := certBytes @ '' openpubkey''\<rparr>))))"
  (is "?K \<and> (?R \<longrightarrow> ?S)")
proof -
  let ?P = "ParseAuthorizedKey X"
  let ?a = "Join [home, ''.ssh'']"
  let ?A2 = "\<lambda>c. events w @ [EvAuth (Issuer provider), EvWriteFile c sec (oct 6 0 0),
                   EvWriteFile (c @ ''.pub'') (certBytes @ '' openpubkey'') (oct 6 4 4)]"
  from home have hne: "home \<noteq> []"
    by (auto simp: UserHomeDir_def split: option.splits if_splits)
  then have ane: "?a \<noteq> []"
    by (rule Join_nonempty)
  note dd = default_files_distinct[OF ane]
  have cand: "\<And>c. c \<in> set [c1, c2] \<Longrightarrow> \<exists>k. simple_name k \<and> c = Join [?a, k]"
    using c1 c2 simple_names by auto
  \<comment> \<open>what the login does once it has reached the key files\<close>
  have reached:
    "(case find (slot_free ?P w) [c1, c2] of
        None \<Rightarrow>
          r = Inl (Wrap ''failed to write SSH keys to filesystem''
                     (Err ''no default ssh key file free for openpubkey'')) \<and>
          fs w' = g \<and> events w' = events w @ [EvAuth (Issuer provider)]
      | Some c \<Rightarrow>
          (\<exists>v e w2. fs v = g \<and> events v = events w @ [EvAuth (Issuer provider)] \<and>
             writeKeys c (c @ ''.pub'') s cb v = (e, w2) \<and>
             fs w' = fs w2 \<and> events w' = events w2 \<and>
             ((\<exists>res. r = Inr res) \<longrightarrow> e = None)))"
    if "GenKeyPair X = Inr sg" "client_New X provider sg = None"
       "client_Auth X provider sg = Inr p" "createSSHCert X p sg [] = Inr (cb, s)"
       "MkdirAll (fs w) ?a (oct 7 7 7) = Inr g" for sg p cb s g
    unfolding c1 c2 using that(1-4) home that(5) run by (rule login_default_keys)
  \<comment> \<open>first part\<close>
  have keep: "node_at (fs w') c = node_at (fs w) c \<and>
              node_at (fs w') (c @ ''.pub'') = node_at (fs w) (c @ ''.pub'')"
    if c: "c \<in> set [c1, c2]" and ex: "fileExists w c"
      and nc: "\<not> carries_openpubkey ?P w (c @ ''.pub'')" for c
  proof -
    from login_early[OF run] show ?thesis
    proof
      assume "fs w' = fs w"
      then show ?thesis by simp
    next
      assume "\<exists>skey pk certBytes sec.
            GenKeyPair X = Inr skey \<and> client_New X provider skey = None \<and>
            client_Auth X provider skey = Inr pk \<and>
            createSSHCert X pk skey [] = Inr (certBytes, sec)"
      then obtain sg p cb s where
        r1: "GenKeyPair X = Inr sg" and r2: "client_New X provider sg = None" and
        r3: "client_Auth X provider sg = Inr p" and r4: "createSSHCert X p sg [] = Inr (cb, s)"
        by iprover
      show ?thesis
      proof (cases "MkdirAll (fs w) ?a (oct 7 7 7)")
        case (Inl e)
        from login_mkdir_fails[OF r1 r2 r3 r4 home Inl run] show ?thesis by simp
      next
        case (Inr g)
        from cand[OF c] obtain k where k: "simple_name k" and ck: "c = Join [?a, k]"
          by iprover
        note m = MkdirAll_key_nodes[OF Inr k]
        have m1: "node_at g c = node_at (fs w) c"
          and m2: "node_at g (c @ ''.pub'') = node_at (fs w) (c @ ''.pub'')"
          using m ck by simp_all
        note rc = reached[OF r1 r2 r3 r4 Inr]
        show ?thesis
        proof (cases "find (slot_free ?P w) [c1, c2]")
          case None
          with rc have "fs w' = g" by simp
          with m1 m2 show ?thesis by simp
        next
          case (Some d)
          with rc obtain v e w2 where fv: "fs v = g" and
            wk: "writeKeys d (d @ ''.pub'') s cb v = (e, w2)" and fw: "fs w' = fs w2"
            by (simp only: option.case) iprover
          from Some have dm: "d \<in> set [c1, c2]" and fr: "slot_free ?P w d"
            by (auto simp: find_Some_iff split: if_splits)
          from ex nc have "\<not> slot_free ?P w c"
            by (simp add: slot_free_def)
          with fr have "c \<noteq> d" by auto
          with c dm have "(c = c1 \<and> d = c2) \<or> (c = c2 \<and> d = c1)"
            by auto
          then have ne: "Clean c \<noteq> Clean d" "Clean c \<noteq> Clean (d @ ''.pub'')"
            "Clean (c @ ''.pub'') \<noteq> Clean d" "Clean (c @ ''.pub'') \<noteq> Clean (d @ ''.pub'')"
            using dd unfolding c1 c2 by (metis, metis, metis, metis)
          from writeKeys_other[OF wk ne(1,2)] fv fw m1
          have k1: "node_at (fs w') c = node_at (fs w) c" by simp
          from writeKeys_other[OF wk ne(3,4)] fv fw m2
          have k2: "node_at (fs w') (c @ ''.pub'') = node_at (fs w) (c @ ''.pub'')" by simp
          from k1 k2 show ?thesis by simp
        qed
      qed
    qed
  qed
  \<comment> \<open>second part\<close>
  have second:
    "(case find (slot_free ?P w) [c1, c2] of
        None \<Rightarrow>
          r = Inl (Wrap ''failed to write SSH keys to filesystem''
                     (Err ''no default ssh key file free for openpubkey'')) \<and>
          fs w' = f1 \<and> events w' = events w @ [EvAuth (Issuer provider)]
      | Some c \<Rightarrow>
          (events w' = events w @ [EvAuth (Issuer provider), EvWriteFile c sec (oct 6 0 0)] \<or>
           events w' = ?A2 c) \<and>
          (\<forall>q. Clean q \<noteq> Clean c \<and> Clean q \<noteq> Clean (c @ ''.pub'') \<longrightarrow>
               node_at (fs w') q = node_at f1 q) \<and>
          ((\<exists>res. r = Inr res) \<longrightarrow>
             events w' = ?A2 c \<and>
             node_at (fs w') c =
               Some (case node_at (fs w) c of
                       None \<Rightarrow> \<lparr>data = sec, perm = mask_mode (oct 6 0 0) (umask (fs w)),
                                 isdir = False\<rparr>
                     | Some n \<Rightarrow> n\<lparr>data := sec\<rparr>) \<and>
             node_at (fs w') (c @ ''.pub'') =
               Some (case node_at (fs w) (c @ ''.pub'') of
                       None \<Rightarrow> \<lparr>data = certBytes @ '' openpubkey'',
                                 perm = mask_mode (oct 6 4 4) (umask (fs w)), isdir = False\<rparr>
                     | Some n \<Rightarrow> n\<lparr>data := certBytes @ '' openpubkey''\<rparr>)))"
    if r1: "GenKeyPair X = Inr skey" and r2: "client_New X provider skey = None"
      and r3: "client_Auth X provider skey = Inr pk"
      and r4: "createSSHCert X pk skey [] = Inr (certBytes, sec)"
      and mk: "MkdirAll (fs w) ?a (oct 7 7 7) = Inr f1"
  proof -
    note rc = reached[OF r1 r2 r3 r4 mk]
    show ?thesis
    proof (cases "find (slot_free ?P w) [c1, c2]")
      case None
      with rc show ?thesis by simp
    next
      case (Some c)
      with rc obtain v e w2 where fv: "fs v = f1" and
        ev: "events v = events w @ [EvAuth (Issuer provider)]" and
        wk: "writeKeys c (c @ ''.pub'') sec certBytes v = (e, w2)" and
        fw: "fs w' = fs w2" and ew: "events w' = events w2" and
        ok: "(\<exists>res. r = Inr res) \<longrightarrow> e = None"
        by (simp only: option.case) iprover
      from Some have "c \<in> set [c1, c2]"
        by (auto simp: find_Some_iff split: if_splits)
      from cand[OF this] obtain k where k: "simple_name k" and ck: "c = Join [?a, k]"
        by iprover
      note m = MkdirAll_key_nodes[OF mk k]
      have m1: "node_at f1 c = node_at (fs w) c"
        and m2: "node_at f1 (c @ ''.pub'') = node_at (fs w) (c @ ''.pub'')"
        using m ck by simp_all
      have um: "umask f1 = umask (fs w)"
        by (rule MkdirAll_facts(2)[OF mk])
      have b1: "events w' = events w @ [EvAuth (Issuer provider), EvWriteFile c sec (oct 6 0 0)] \<or>
                events w' = ?A2 c"
        using writeKeys_result[OF wk] ev ew by auto
      have b2: "\<forall>q. Clean q \<noteq> Clean c \<and> Clean q \<noteq> Clean (c @ ''.pub'') \<longrightarrow>
                  node_at (fs w') q = node_at f1 q"
        using writeKeys_other[OF wk] fv fw by simp
      have b3: "(\<exists>res. r = Inr res) \<longrightarrow>
             events w' = ?A2 c \<and>
             node_at (fs w') c =
               Some (case node_at (fs w) c of
                       None \<Rightarrow> \<lparr>data = sec, perm = mask_mode (oct 6 0 0) (umask (fs w)),
                                 isdir = False\<rparr>
                     | Some n \<Rightarrow> n\<lparr>data := sec\<rparr>) \<and>
             node_at (fs w') (c @ ''.pub'') =
               Some (case node_at (fs w) (c @ ''.pub'') of
                       None \<Rightarrow> \<lparr>data = certBytes @ '' openpubkey'',
                                 perm = mask_mode (oct 6 4 4) (umask (fs w)), isdir = False\<rparr>
                     | Some n \<Rightarrow> n\<lparr>data := certBytes @ '' openpubkey''\<rparr>)"
      proof (rule impI)
        assume "\<exists>res. r = Inr res"
        with ok have "e = None" by simp
        with wk have wk': "writeKeys c (c @ ''.pub'') sec certBytes v = (None, w2)" by simp
        note ne = writeKeys_pub_distinct(2)[OF wk']
        note kk = writeKeys_None[OF wk' ne]
        from kk(1) ev ew have x1: "events w' = ?A2 c" by simp
        have x2: "node_at (fs w') c =
               Some (case node_at (fs w) c of
                       None \<Rightarrow> \<lparr>data = sec, perm = mask_mode (oct 6 0 0) (umask (fs w)),
                                 isdir = False\<rparr>
                     | Some n \<Rightarrow> n\<lparr>data := sec\<rparr>)"
          unfolding fw kk(2) fv m1 um ..
        have x3: "node_at (fs w') (c @ ''.pub'') =
               Some (case node_at (fs w) (c @ ''.pub'') of
                       None \<Rightarrow> \<lparr>data = certBytes @ '' openpubkey'',
                                 perm = mask_mode (oct 6 4 4) (umask (fs w)), isdir = False\<rparr>
                     | Some n \<Rightarrow> n\<lparr>data := certBytes @ '' openpubkey''\<rparr>)"
          unfolding fw kk(3) fv m2 um ..
        from x1 x2 x3 show "events w' = ?A2 c \<and>
             node_at (fs w') c =
               Some (case node_at (fs w) c of
                       None \<Rightarrow> \<lparr>data = sec, perm = mask_mode (oct 6 0 0) (umask (fs w)),
                                 isdir = False\<rparr>
                     | Some n \<Rightarrow> n\<lparr>data := sec\<rparr>) \<and>
             node_at (fs w') (c @ ''.pub'') =
               Some (case node_at (fs w) (c @ ''.pub'') of
                       None \<Rightarrow> \<lparr>data = certBytes @ '' openpubkey'',
                                 perm = mask_mode (oct 6 4 4) (umask (fs w)), isdir = False\<rparr>
                     | Some n \<Rightarrow> n\<lparr>data := certBytes @ '' openpubkey''\<rparr>)"
          by (intro conjI)
      qed
      from b1 b2 b3 show ?thesis
        unfolding Some option.case by (intro conjI)
    qed
  qed
  have K: ?K
  proof (intro ballI impI)
    fix c
    assume c: "c \<in> set [c1, c2]"
      and h: "fileExists w c \<and> \<not> carries_openpubkey ?P w (c @ ''.pub'')"
    show "node_at (fs w') c = node_at (fs w) c \<and>
          node_at (fs w') (c @ ''.pub'') = node_at (fs w) (c @ ''.pub'')"
      by (rule keep[OF c h[THEN conjunct1] h[THEN conjunct2]])
  qed
  have S: "?R \<longrightarrow> ?S"
  proof (rule impI)
    assume h: ?R
    note h2 = h[THEN conjunct2]
    note h3 = h2[THEN conjunct2]
    note h4 = h3[THEN conjunct2]
    show ?S
      by (rule second[OF h[THEN conjunct1] h2[THEN conjunct1] h3[THEN conjunct1]
                h4[THEN conjunct1] h4[THEN conjunct2]])
  qed
  from K S show ?thesis
    by (rule conjI)
qed

text \<open>
  Claim C3 as it is stated fails where it says that a key file whose comment is anything
  else is never overwritten: with no \<open>id_ecdsa\<close> and an \<open>id_ecdsa.pub\<close> whose comment is
  \<open>alice@laptop\<close>, the login succeeds and that public key file is overwritten with the
  certificate.
\<close>

theorem C3_orphan_pub_overwritten:
  "demo_ParseAuthorizedKey ''ssh-ed25519 AAAAC3Nz alice@laptop'' = Inr ''alice@laptop'' \<and>
   node_at (fs orphan_pub_world) ''/home/u/.ssh/id_ecdsa.pub''
     = Some (reg ''ssh-ed25519 AAAAC3Nz alice@laptop'' (oct 6 4 4)) \<and>
   fst (login demo_X demo_provider False [] orphan_pub_world)
     = Inr \<lparr>pkt = \<lparr>Payload = ''exp=1000'', OpToken = ''ID-TOKEN''\<rparr>, signer = ''EPHEMERAL-KEY'',
            client = demo_provider, principals = []\<rparr> \<and>
   node_at (fs (snd (login demo_X demo_provider False [] orphan_pub_world)))
       ''/home/u/.ssh/id_ecdsa.pub''
     = Some (reg ''ecdsa-sha2-nistp256-cert-v01@openssh.com CERT-SIGNED openpubkey'' (oct 6 4 4))"
  by (simp add: orphan_pub_world_def login_eval path_eval fs_eval)

text \<open>
  A run of C3, with \<open>$HOME\<close> written \<open>/home/u/\<close>: the key pair of someone else at
  \<open>id_ecdsa\<close> stays as it is, \<open>id_ed25519\<close> is the first free path and the keys are
  written there.
\<close>

theorem C3_first_free_slot_witness:
  "\<exists>r w'. login demo_X demo_provider False [] foreign_key_world = (r, w') \<and>
     UserHomeDir foreign_key_world = Inr ''/home/u/'' \<and>
     Join [Join [''/home/u/'', ''.ssh''], ''id_ecdsa''] = ''/home/u/.ssh/id_ecdsa'' \<and>
     Join [Join [''/home/u/'', ''.ssh''], ''id_ed25519''] = ''/home/u/.ssh/id_ed25519'' \<and>
     fileExists foreign_key_world ''/home/u/.ssh/id_ecdsa'' \<and>
     \<not> carries_openpubkey demo_ParseAuthorizedKey foreign_key_world ''/home/u/.ssh/id_ecdsa.pub'' \<and>
     find (slot_free demo_ParseAuthorizedKey foreign_key_world)
       [''/home/u/.ssh/id_ecdsa'', ''/home/u/.ssh/id_ed25519''] = Some ''/home/u/.ssh/id_ed25519'' \<and>
     (\<exists>res. r = Inr res) \<and>
     node_at (fs w') ''/home/u/.ssh/id_ecdsa'' = Some (reg ''PRIVATE KEY OF ALICE'' (oct 6 0 0)) \<and>
     node_at (fs w') ''/home/u/.ssh/id_ecdsa.pub''
       = Some (reg ''ssh-ed25519 AAAAC3Nz alice@laptop'' (oct 6 4 4)) \<and>
     events w' = [EvAuth ''https://issuer.example'',
                  EvWriteFile ''/home/u/.ssh/id_ed25519'' ''PEM:EPHEMERAL-KEY'' (oct 6 0 0),
                  EvWriteFile ''/home/u/.ssh/id_ed25519.pub''
                    ''ecdsa-sha2-nistp256-cert-v01@openssh.com CERT-SIGNED openpubkey'' (oct 6 4 4)] \<and>
     node_at (fs w') ''/home/u/.ssh/id_ed25519'' = Some (reg ''PEM:EPHEMERAL-KEY'' (oct 6 0 0)) \<and>
     node_at (fs w') ''/home/u/.ssh/id_ed25519.pub''
       = Some (reg ''ecdsa-sha2-nistp256-cert-v01@openssh.com CERT-SIGNED openpubkey'' (oct 6 4 4))"
proof -
  let ?w = foreign_key_world
  let ?c1 = "''/home/u/.ssh/id_ecdsa''" and ?c2 = "''/home/u/.ssh/id_ed25519''"
  obtain r w' where run: "login demo_X demo_provider False [] ?w = (r, w')"
    by (cases "login demo_X demo_provider False [] ?w")
  note p = foreign_key_world_paths and s = foreign_key_world_slots and x = demo_X_reach
  have ok: "\<exists>res. r = Inr res"
    using login_foreign_key_world run by simp
  have mk: "MkdirAll (fs ?w) (Join [''/home/u/'', ''.ssh'']) (oct 7 7 7) = Inr (fs ?w)"
    unfolding p(4) by (rule s(4))
  note t = C3_first_free_slot[OF p(1) p(2)[symmetric] p(3)[symmetric] run,
             of "''EPHEMERAL-KEY''" "\<lparr>Payload = ''exp=1000'', OpToken = ''ID-TOKEN''\<rparr>"
                "''ecdsa-sha2-nistp256-cert-v01@openssh.com CERT-SIGNED''" "''PEM:EPHEMERAL-KEY''"
                "fs ?w"]
  note t1 = t[THEN conjunct1, unfolded x(5)]
  have c1m: "?c1 \<in> set [?c1, ?c2]" by simp
  have nc: "\<not> carries_openpubkey demo_ParseAuthorizedKey ?w (?c1 @ ''.pub'')"
    using s(2) by simp
  from t1[THEN bspec, OF c1m, THEN mp, OF conjI[OF s(1) nc]]
  have keep: "node_at (fs w') ?c1 = node_at (fs ?w) ?c1 \<and>
              node_at (fs w') (?c1 @ ''.pub'') = node_at (fs ?w) (?c1 @ ''.pub'')"
    .
  have k1: "node_at (fs w') ?c1 = Some (reg ''PRIVATE KEY OF ALICE'' (oct 6 0 0))"
    using keep[THEN conjunct1] s(5) by simp
  have k2: "node_at (fs w') ''/home/u/.ssh/id_ecdsa.pub''
              = Some (reg ''ssh-ed25519 AAAAC3Nz alice@laptop'' (oct 6 4 4))"
    using keep[THEN conjunct2] s(6) by simp
  from t[THEN conjunct2, THEN mp, OF conjI[OF x(1) conjI[OF x(2) conjI[OF x(3) conjI[OF x(4) mk]]]]]
  have "case find (slot_free demo_ParseAuthorizedKey ?w) [?c1, ?c2] of
          None \<Rightarrow> False
        | Some c \<Rightarrow>
            ((\<exists>res. r = Inr res) \<longrightarrow>
               events w' = events ?w @ [EvAuth (Issuer demo_provider),
                     EvWriteFile c ''PEM:EPHEMERAL-KEY'' (oct 6 0 0),
                     EvWriteFile (c @ ''.pub'')
                       (''ecdsa-sha2-nistp256-cert-v01@openssh.com CERT-SIGNED'' @ '' openpubkey'')
                       (oct 6 4 4)] \<and>
               node_at (fs w') c =
                 Some (case node_at (fs ?w) c of
                         None \<Rightarrow> \<lparr>data = ''PEM:EPHEMERAL-KEY'',
                                   perm = mask_mode (oct 6 0 0) (umask (fs ?w)), isdir = False\<rparr>
                       | Some n \<Rightarrow> n\<lparr>data := ''PEM:EPHEMERAL-KEY''\<rparr>) \<and>
               node_at (fs w') (c @ ''.pub'') =
                 Some (case node_at (fs ?w) (c @ ''.pub'') of
                         None \<Rightarrow> \<lparr>data = ''ecdsa-sha2-nistp256-cert-v01@openssh.com CERT-SIGNED''
                                            @ '' openpubkey'',
                                   perm = mask_mode (oct 6 4 4) (umask (fs ?w)), isdir = False\<rparr>
                       | Some n \<Rightarrow> n\<lparr>data := ''ecdsa-sha2-nistp256-cert-v01@openssh.com CERT-SIGNED''
                                            @ '' openpubkey''\<rparr>))"
    unfolding x(5) s(3) option.case by (rule conjunct2[THEN conjunct2])
  from this[unfolded s(3) option.case, THEN mp, OF ok]
  have big: "events w' = events ?w @ [EvAuth (Issuer demo_provider),
                     EvWriteFile ?c2 ''PEM:EPHEMERAL-KEY'' (oct 6 0 0),
                     EvWriteFile (?c2 @ ''.pub'')
                       (''ecdsa-sha2-nistp256-cert-v01@openssh.com CERT-SIGNED'' @ '' openpubkey'')
                       (oct 6 4 4)] \<and>
               node_at (fs w') ?c2 =
                 Some (case node_at (fs ?w) ?c2 of
                         None \<Rightarrow> \<lparr>data = ''PEM:EPHEMERAL-KEY'',
                                   perm = mask_mode (oct 6 0 0) (umask (fs ?w)), isdir = False\<rparr>
                       | Some n \<Rightarrow> n\<lparr>data := ''PEM:EPHEMERAL-KEY''\<rparr>) \<and>
               node_at (fs w') (?c2 @ ''.pub'') =
                 Some (case node_at (fs ?w) (?c2 @ ''.pub'') of
                         None \<Rightarrow> \<lparr>data = ''ecdsa-sha2-nistp256-cert-v01@openssh.com CERT-SIGNED''
                                            @ '' openpubkey'',
                                   perm = mask_mode (oct 6 4 4) (umask (fs ?w)), isdir = False\<rparr>
                       | Some n \<Rightarrow> n\<lparr>data := ''ecdsa-sha2-nistp256-cert-v01@openssh.com CERT-SIGNED''
                                            @ '' openpubkey''\<rparr>)"
    .
  have e: "events w' = [EvAuth ''https://issuer.example'',
                  EvWriteFile ?c2 ''PEM:EPHEMERAL-KEY'' (oct 6 0 0),
                  EvWriteFile ''/home/u/.ssh/id_ed25519.pub''
                    ''ecdsa-sha2-nistp256-cert-v01@openssh.com CERT-SIGNED openpubkey'' (oct 6 4 4)]"
    using big[THEN conjunct1] by (simp add: s(10) x(6))
  have n1: "node_at (fs w') ?c2 = Some (reg ''PEM:EPHEMERAL-KEY'' (oct 6 0 0))"
    using big[THEN conjunct2, THEN conjunct1] by (simp add: s(7) s(9) mask_mode_022 reg_def)
  have n2: "node_at (fs w') ''/home/u/.ssh/id_ed25519.pub''
       = Some (reg ''ecdsa-sha2-nistp256-cert-v01@openssh.com CERT-SIGNED openpubkey'' (oct 6 4 4))"
    using big[THEN conjunct2, THEN conjunct2] s(8) by (simp add: s(9) mask_mode_022 reg_def)
  show ?thesis
    apply (rule exI[of _ r], rule exI[of _ w'])
    using run p(1) p(2) p(3) s(1) s(2) s(3) ok k1 k2 e n1 n2 by (intro conjI)
qed

section \<open>The modes of the key files\<close>

lemma login_private_mask_world:
  "fst (login demo_X demo_provider False [] private_mask_world) = Inr demo_result"
  "fst (login demo_X demo_provider False ''/tmp/opk'' private_mask_world) = Inr demo_result"
  by (simp_all add: private_mask_world_def demo_result_def login_eval path_eval fs_eval)

lemma private_mask_world_nodes:
  "UserHomeDir private_mask_world = Inr ''/home/u''"
  "Join [Join [''/home/u'', ''.ssh''], ''id_ecdsa''] = ''/home/u/.ssh/id_ecdsa''"
  "Join [Join [''/home/u'', ''.ssh''], ''id_ed25519''] = ''/home/u/.ssh/id_ed25519''"
  "node_at (fs private_mask_world) ''/home/u/.ssh/id_ecdsa'' = None"
  "node_at (fs private_mask_world) ''/home/u/.ssh/id_ed25519'' = None"
  "node_at (fs private_mask_world) (''/home/u/.ssh/id_ecdsa'' @ ''.pub'') = None"
  "node_at (fs private_mask_world) (''/home/u/.ssh/id_ed25519'' @ ''.pub'') = None"
  "umask (fs private_mask_world) = oct 0 7 7"
  "events private_mask_world = []"
  by (simp_all add: private_mask_world_def login_eval path_eval fs_eval)

lemma mask_mode_077:
  "mask_mode (oct 6 0 0) (oct 0 7 7) = oct 6 0 0"
  "mask_mode (oct 6 4 4) (oct 0 7 7) = oct 6 0 0"
  by (simp_all add: mask_mode_def oct_def)

text \<open>
  Claim C8 as it is stated fails on the modes. A login with \<open>--output-key /tmp/opk\<close>
  where \<open>/tmp/opk\<close> exists with mode \<open>644\<close> succeeds and writes the secret key into that
  file, which keeps the mode \<open>644\<close>. And in a process whose mask is \<open>077\<close> the certificate
  file that the login creates has the mode \<open>600\<close>.
\<close>

theorem C8_existing_key_keeps_mode:
  "node_at (fs open_key_world) ''/tmp/opk'' = Some (reg ''OLD KEY'' (oct 6 4 4)) \<and>
   fst (login demo_X demo_provider False ''/tmp/opk'' open_key_world) = Inr demo_result \<and>
   node_at (fs (snd (login demo_X demo_provider False ''/tmp/opk'' open_key_world))) ''/tmp/opk''
     = Some (reg ''PEM:EPHEMERAL-KEY'' (oct 6 4 4)) \<and>
   fst (login demo_X demo_provider False ''/tmp/opk'' private_mask_world) = Inr demo_result \<and>
   node_at (fs (snd (login demo_X demo_provider False ''/tmp/opk'' private_mask_world)))
       ''/tmp/opk.pub''
     = Some (reg ''ecdsa-sha2-nistp256-cert-v01@openssh.com CERT-SIGNED openpubkey'' (oct 6 0 0))"
  by (simp add: open_key_world_def private_mask_world_def demo_result_def
        login_eval path_eval fs_eval)

text \<open>
  Two runs of C8: a login with \<open>--output-key /tmp/opk\<close> where that file exists with mode
  \<open>644\<close> and its \<open>.pub\<close> file does not, in a process with mask \<open>022\<close>; and a login without
  \<open>--output-key\<close> into an empty home directory, in a process with mask \<open>077\<close>.
\<close>

theorem C8_login_key_files_witness:
  "(\<exists>r w' sk certBytes seckeySshPem.
      login demo_X demo_provider False ''/tmp/opk'' open_key_world = (Inr r, w') \<and>
      sk = ''/tmp/opk'' \<and>
      events w' = [EvAuth ''https://issuer.example'',
                   EvWriteFile sk seckeySshPem (oct 6 0 0),
                   EvWriteFile (sk @ ''.pub'') (certBytes @ '' openpubkey'') (oct 6 4 4)] \<and>
      node_at (fs w') sk = Some (reg seckeySshPem (oct 6 4 4)) \<and>
      node_at (fs w') (sk @ ''.pub'') = Some (reg (certBytes @ '' openpubkey'') (oct 6 4 4))) \<and>
   (\<exists>r w' sk certBytes seckeySshPem.
      login demo_X demo_provider False [] private_mask_world = (Inr r, w') \<and>
      (sk = ''/home/u/.ssh/id_ecdsa'' \<or> sk = ''/home/u/.ssh/id_ed25519'') \<and>
      events w' = [EvAuth ''https://issuer.example'',
                   EvWriteFile sk seckeySshPem (oct 6 0 0),
                   EvWriteFile (sk @ ''.pub'') (certBytes @ '' openpubkey'') (oct 6 4 4)] \<and>
      node_at (fs w') sk = Some (reg seckeySshPem (oct 6 0 0)) \<and>
      node_at (fs w') (sk @ ''.pub'') = Some (reg (certBytes @ '' openpubkey'') (oct 6 0 0)))"
proof -
  note i = demo_X_reach(6)
  \<comment> \<open>the first run\<close>
  let ?v = open_key_world
  obtain r1 v' where run1: "login demo_X demo_provider False ''/tmp/opk'' ?v = (r1, v')"
    by (cases "login demo_X demo_provider False ''/tmp/opk'' ?v")
  with login_open_key_world obtain r where r1: "r1 = Inr r"
    by simp
  note run1' = run1[unfolded r1]
  note n = open_key_world_nodes
  from C8_login_key_files[OF run1'] obtain sk certBytes seckeySshPem where
    big: "createSSHCert demo_X (pkt r) (signer r) [] = Inr (certBytes, seckeySshPem) \<and>
     (''/tmp/opk'' \<noteq> [] \<longrightarrow> sk = ''/tmp/opk'') \<and>
     (''/tmp/opk'' = [] \<longrightarrow>
        (\<exists>home. UserHomeDir ?v = Inr home \<and>
           (sk = Join [Join [home, ''.ssh''], ''id_ecdsa''] \<or>
            sk = Join [Join [home, ''.ssh''], ''id_ed25519'']))) \<and>
     events v' = events ?v @ [EvAuth (Issuer demo_provider),
                   EvWriteFile sk seckeySshPem (oct 6 0 0),
                   EvWriteFile (sk @ ''.pub'') (certBytes @ '' openpubkey'') (oct 6 4 4)] \<and>
     node_at (fs v') sk =
       Some (case node_at (fs ?v) sk of
               None \<Rightarrow> \<lparr>data = seckeySshPem, perm = mask_mode (oct 6 0 0) (umask (fs ?v)),
                         isdir = False\<rparr>
             | Some n \<Rightarrow> n\<lparr>data := seckeySshPem\<rparr>) \<and>
     node_at (fs v') (sk @ ''.pub'') =
       Some (case node_at (fs ?v) (sk @ ''.pub'') of
               None \<Rightarrow> \<lparr>data = certBytes @ '' openpubkey'',
                         perm = mask_mode (oct 6 4 4) (umask (fs ?v)), isdir = False\<rparr>
             | Some n \<Rightarrow> n\<lparr>data := certBytes @ '' openpubkey''\<rparr>)"
    by iprover
  note c1 = big[THEN conjunct2]
  note c3 = c1[THEN conjunct2, THEN conjunct2]
  note c4 = c3[THEN conjunct2]
  from c1[THEN conjunct1] have sk: "sk = ''/tmp/opk''"
    by simp
  from c3[THEN conjunct1] have ev: "events v' = [EvAuth ''https://issuer.example'',
                   EvWriteFile sk seckeySshPem (oct 6 0 0),
                   EvWriteFile (sk @ ''.pub'') (certBytes @ '' openpubkey'') (oct 6 4 4)]"
    by (simp only: n(4) i append_Nil)
  from c4[THEN conjunct1] have k1: "node_at (fs v') sk = Some (reg seckeySshPem (oct 6 4 4))"
    unfolding sk n(1) by (simp add: reg_def)
  from c4[THEN conjunct2] have k2:
    "node_at (fs v') (sk @ ''.pub'') = Some (reg (certBytes @ '' openpubkey'') (oct 6 4 4))"
    unfolding sk n(2) n(3) by (simp add: reg_def mask_mode_022)
  have first: "\<exists>r w' sk certBytes seckeySshPem.
      login demo_X demo_provider False ''/tmp/opk'' open_key_world = (Inr r, w') \<and>
      sk = ''/tmp/opk'' \<and>
      events w' = [EvAuth ''https://issuer.example'',
                   EvWriteFile sk seckeySshPem (oct 6 0 0),
                   EvWriteFile (sk @ ''.pub'') (certBytes @ '' openpubkey'') (oct 6 4 4)] \<and>
      node_at (fs w') sk = Some (reg seckeySshPem (oct 6 4 4)) \<and>
      node_at (fs w') (sk @ ''.pub'') = Some (reg (certBytes @ '' openpubkey'') (oct 6 4 4))"
    apply (rule exI[of _ r], rule exI[of _ v'], rule exI[of _ sk])
    apply (rule exI[of _ certBytes], rule exI[of _ seckeySshPem])
    using run1' sk ev k1 k2 by (intro conjI)
  \<comment> \<open>the second run\<close>
  let ?u = private_mask_world
  obtain r2 u' where run2: "login demo_X demo_provider False [] ?u = (r2, u')"
    by (cases "login demo_X demo_provider False [] ?u")
  with login_private_mask_world(1) have r2: "r2 = Inr demo_result"
    by simp
  note run2' = run2[unfolded r2]
  note m = private_mask_world_nodes
  from C8_login_key_files[OF run2'] obtain sk2 cb sec where
    big2: "createSSHCert demo_X (pkt demo_result) (signer demo_result) [] = Inr (cb, sec) \<and>
     ([] \<noteq> ([]::string) \<longrightarrow> sk2 = []) \<and>
     ([] = ([]::string) \<longrightarrow>
        (\<exists>home. UserHomeDir ?u = Inr home \<and>
           (sk2 = Join [Join [home, ''.ssh''], ''id_ecdsa''] \<or>
            sk2 = Join [Join [home, ''.ssh''], ''id_ed25519'']))) \<and>
     events u' = events ?u @ [EvAuth (Issuer demo_provider),
                   EvWriteFile sk2 sec (oct 6 0 0),
                   EvWriteFile (sk2 @ ''.pub'') (cb @ '' openpubkey'') (oct 6 4 4)] \<and>
     node_at (fs u') sk2 =
       Some (case node_at (fs ?u) sk2 of
               None \<Rightarrow> \<lparr>data = sec, perm = mask_mode (oct 6 0 0) (umask (fs ?u)),
                         isdir = False\<rparr>
             | Some n \<Rightarrow> n\<lparr>data := sec\<rparr>) \<and>
     node_at (fs u') (sk2 @ ''.pub'') =
       Some (case node_at (fs ?u) (sk2 @ ''.pub'') of
               None \<Rightarrow> \<lparr>data = cb @ '' openpubkey'',
                         perm = mask_mode (oct 6 4 4) (umask (fs ?u)), isdir = False\<rparr>
             | Some n \<Rightarrow> n\<lparr>data := cb @ '' openpubkey''\<rparr>)"
    by iprover
  note d2 = big2[THEN conjunct2, THEN conjunct2]
  note d3 = d2[THEN conjunct2]
  note d4 = d3[THEN conjunct2]
  from d2[THEN conjunct1] have "\<exists>home. UserHomeDir ?u = Inr home \<and>
           (sk2 = Join [Join [home, ''.ssh''], ''id_ecdsa''] \<or>
            sk2 = Join [Join [home, ''.ssh''], ''id_ed25519''])"
    by (simp only: simp_thms)
  then obtain home where h: "UserHomeDir ?u = Inr home" and
    dj: "sk2 = Join [Join [home, ''.ssh''], ''id_ecdsa''] \<or>
         sk2 = Join [Join [home, ''.ssh''], ''id_ed25519'']"
    by iprover
  from h m(1) have home: "home = ''/home/u''"
    by simp
  from dj have sk2: "sk2 = ''/home/u/.ssh/id_ecdsa'' \<or> sk2 = ''/home/u/.ssh/id_ed25519''"
    unfolding home m(2) m(3) .
  from d3[THEN conjunct1] have ev2: "events u' = [EvAuth ''https://issuer.example'',
                   EvWriteFile sk2 sec (oct 6 0 0),
                   EvWriteFile (sk2 @ ''.pub'') (cb @ '' openpubkey'') (oct 6 4 4)]"
    by (simp only: m(9) i append_Nil)
  have a1: "node_at (fs ?u) sk2 = None"
    using sk2
  proof
    assume "sk2 = ''/home/u/.ssh/id_ecdsa''"
    then show ?thesis by (simp only: m(4))
  next
    assume "sk2 = ''/home/u/.ssh/id_ed25519''"
    then show ?thesis by (simp only: m(5))
  qed
  have a2: "node_at (fs ?u) (sk2 @ ''.pub'') = None"
    using sk2
  proof
    assume "sk2 = ''/home/u/.ssh/id_ecdsa''"
    then show ?thesis by (simp only: m(6))
  next
    assume "sk2 = ''/home/u/.ssh/id_ed25519''"
    then show ?thesis by (simp only: m(7))
  qed
  from d4[THEN conjunct1] have q1: "node_at (fs u') sk2 = Some (reg sec (oct 6 0 0))"
    unfolding a1 m(8) by (simp add: reg_def mask_mode_077)
  from d4[THEN conjunct2] have q2:
    "node_at (fs u') (sk2 @ ''.pub'') = Some (reg (cb @ '' openpubkey'') (oct 6 0 0))"
    unfolding a2 m(8) by (simp add: reg_def mask_mode_077)
  have second: "\<exists>r w' sk certBytes seckeySshPem.
      login demo_X demo_provider False [] private_mask_world = (Inr r, w') \<and>
      (sk = ''/home/u/.ssh/id_ecdsa'' \<or> sk = ''/home/u/.ssh/id_ed25519'') \<and>
      events w' = [EvAuth ''https://issuer.example'',
                   EvWriteFile sk seckeySshPem (oct 6 0 0),
                   EvWriteFile (sk @ ''.pub'') (certBytes @ '' openpubkey'') (oct 6 4 4)] \<and>
      node_at (fs w') sk = Some (reg seckeySshPem (oct 6 0 0)) \<and>
      node_at (fs w') (sk @ ''.pub'') = Some (reg (certBytes @ '' openpubkey'') (oct 6 0 0))"
    apply (rule exI[of _ demo_result], rule exI[of _ u'], rule exI[of _ sk2])
    apply (rule exI[of _ cb], rule exI[of _ sec])
    using run2' sk2 ev2 q1 q2 by (intro conjI)
  from first second show ?thesis
    by (rule conjI)
qed

section \<open>The verify command\<close>

lemma log_Print_stdout_ToFile:
  "log_out w = ToFile \<Longrightarrow> stdout (log_Print s w) = stdout w \<and> log_out (log_Print s w) = ToFile"
  by (simp add: log_Print_def)

text \<open>
  When the log file opens, the standard output of \<open>verify\<close> is the one authority line
  on exit code 0 and nothing otherwise, and the exit code is 0 only when \<open>Verify\<close>
  accepted.
\<close>

lemma run_verify_stdout_when_log_opens:
  assumes "OpenFile_append (fs w) ''/var/log/openpubkey.log'' (oct 7 0 0) = Inr f"
  shows "(fst (run_verify M args w) = 0 \<longrightarrow>
            (\<exists>authKey. Verify M \<lparr>userArg = args ! 2, certB64 = args ! 3, pubkeyType = args ! 4\<rparr>
                 = Inr authKey \<and>
               stdout (snd (run_verify M args w)) = stdout w @ [authKey])) \<and>
         (fst (run_verify M args w) \<noteq> 0 \<longrightarrow> stdout (snd (run_verify M args w)) = stdout w)"
proof -
  let ?w1 = "w\<lparr>fs := f, log_out := ToFile\<rparr>"
  let ?w2 = "log_Print (join_space args) ?w1"
  have w2: "stdout ?w2 = stdout w" "log_out ?w2 = ToFile"
    using log_Print_stdout_ToFile[of ?w1 "join_space args"] by simp_all
  show ?thesis
  proof (cases "length args = 5")
    case False
    with assms w2 show ?thesis
      by (simp add: run_verify_def Let_def log_Print_stdout_ToFile)
  next
    case True
    show ?thesis
    proof (cases "Verify M \<lparr>userArg = args ! 2, certB64 = args ! 3, pubkeyType = args ! 4\<rparr>")
      case (Inl e)
      with assms True w2 show ?thesis
        by (simp add: run_verify_def Let_def log_Print_stdout_ToFile)
    next
      case (Inr k)
      with assms True w2 show ?thesis
        by (simp add: run_verify_def Let_def fmt_Print_def)
    qed
  qed
qed

lemma run_verify_exit_code:
  "fst (run_verify M args w) =
     (if length args \<noteq> 5 then 1
      else case Verify M \<lparr>userArg = args ! 2, certB64 = args ! 3, pubkeyType = args ! 4\<rparr> of
             Inl e \<Rightarrow> 1 | Inr k \<Rightarrow> 0)"
  by (simp add: run_verify_def Let_def split: sum.splits)

text \<open>
  Claim C1 at the input where it fails: \<open>verify\<close> run by a process that cannot open
  \<open>/var/log/openpubkey.log\<close>. On an accepted certificate the exit code is 0 and the
  standard output has two lines, the report of the log file first; on a rejected one
  the exit code is 1 and the standard output has that report.
\<close>

theorem C1_stdout_when_log_cannot_open:
  "run demo_M [''opk-ssh'', ''verify'', ''alice'', ''AAAACERT'',
               ''ecdsa-sha2-nistp256-cert-v01@openssh.com''] nolog_world
     = (0, nolog_world\<lparr>stdout := [''ERROR opening log file: permission denied'',
                                    ''cert-authority ecdsa-sha2-nistp256 AAAAEPHEMERALPUBKEY''],
                       stderr := [''opk-ssh verify alice AAAACERT ecdsa-sha2-nistp256-cert-v01@openssh.com'']\<rparr>) \<and>
   run demo_M [''opk-ssh'', ''verify'', ''alice'', ''AAAACERT'', ''ssh-rsa''] nolog_world
     = (1, nolog_world\<lparr>stdout := [''ERROR opening log file: permission denied''],
                       stderr := [''opk-ssh verify alice AAAACERT ssh-rsa'',
                                  ''failed to verify: cert type not supported'']\<rparr>)"
  by (simp add: run_def run_verify_def demo_M_def demo_Verify_def nolog_world_def
        fmt_Print_def log_Print_def path_eval fs_eval)

text \<open>
  Claim C4 as it is stated fails on the order of the arguments: called with the key type
  before the certificate, the verifier is handed the key type as certificate and the
  certificate as key type and rejects; called with the certificate before the key type,
  as in \<open>AuthorizedKeysCommand ... verify %u %k %t\<close>, it accepts.
\<close>

theorem C4_type_before_certificate_rejected:
  "fst (run demo_M [''opk-ssh'', ''verify'', ''alice'',
                    ''ecdsa-sha2-nistp256-cert-v01@openssh.com'', ''AAAACERT''] (demo_world [])) = 1 \<and>
   fst (run demo_M [''opk-ssh'', ''verify'', ''alice'', ''AAAACERT'',
                    ''ecdsa-sha2-nistp256-cert-v01@openssh.com''] (demo_world [])) = 0"
  by (simp add: run_def run_verify_exit_code demo_M_def demo_Verify_def)

text \<open>
  Claim C4, as the code has it. \<open>verify\<close> takes its positional arguments in the order
  user, base64 certificate, key type: with exactly three of them (and the provider
  created) the exit code is 0 exactly when \<open>Verify\<close> accepts that user, certificate and
  key type; with any other number the exit code is 1.
\<close>

theorem C4_verify_arguments:
  assumes "2 \<le> length args" and "args ! 1 = ''verify''"
  shows "(length args \<noteq> 5 \<longrightarrow> fst (run M args w) = 1) \<and>
         (length args = 5 \<and> NewGoogleProvider M = None \<longrightarrow>
            fst (run M args w) =
              (case Verify M \<lparr>userArg = args ! 2, certB64 = args ! 3, pubkeyType = args ! 4\<rparr> of
                 Inl e \<Rightarrow> 1 | Inr authKey \<Rightarrow> 0))"
proof -
  have v: "''verify'' \<noteq> ''login''"
    by simp
  from assms v show ?thesis
    by (cases "NewGoogleProvider M") (simp_all add: run_def Let_def run_verify_exit_code)
qed

text \<open>
  Two runs of C4: four positional arguments fail, and three in the order user,
  certificate, key type are handed to \<open>Verify\<close> in that order.
\<close>

theorem C4_verify_arguments_witness:
  "fst (run demo_M [''opk-ssh'', ''verify'', ''alice'', ''AAAACERT'',
                    ''ecdsa-sha2-nistp256-cert-v01@openssh.com'', ''extra''] (demo_world [])) = 1 \<and>
   fst (run demo_M [''opk-ssh'', ''verify'', ''alice'', ''AAAACERT'',
                    ''ecdsa-sha2-nistp256-cert-v01@openssh.com''] (demo_world [])) =
     (case Verify demo_M \<lparr>userArg = ''alice'', certB64 = ''AAAACERT'',
                            pubkeyType = ''ecdsa-sha2-nistp256-cert-v01@openssh.com''\<rparr> of
        Inl e \<Rightarrow> 1 | Inr authKey \<Rightarrow> 0)"
proof -
  let ?a6 = "[''opk-ssh'', ''verify'', ''alice'', ''AAAACERT'',
              ''ecdsa-sha2-nistp256-cert-v01@openssh.com'', ''extra'']"
  let ?a5 = "[''opk-ssh'', ''verify'', ''alice'', ''AAAACERT'',
              ''ecdsa-sha2-nistp256-cert-v01@openssh.com'']"
  have l6: "2 \<le> length ?a6" "?a6 ! 1 = ''verify''" "length ?a6 \<noteq> 5"
    by simp_all
  have l5: "2 \<le> length ?a5" "?a5 ! 1 = ''verify''" "length ?a5 = 5"
    "NewGoogleProvider demo_M = None"
    by (simp_all add: demo_M_def)
  have e5: "?a5 ! 2 = ''alice''" "?a5 ! 3 = ''AAAACERT''"
    "?a5 ! 4 = ''ecdsa-sha2-nistp256-cert-v01@openssh.com''"
    by simp_all
  from C4_verify_arguments[OF l6(1,2), of demo_M "demo_world []"] l6(3)
  have r6: "fst (run demo_M ?a6 (demo_world [])) = 1"
    by (simp only: simp_thms)
  from C4_verify_arguments[OF l5(1,2), of demo_M "demo_world []"] l5(3,4)
  have r5: "fst (run demo_M ?a5 (demo_world [])) =
     (case Verify demo_M \<lparr>userArg = ?a5 ! 2, certB64 = ?a5 ! 3, pubkeyType = ?a5 ! 4\<rparr> of
        Inl e \<Rightarrow> 1 | Inr authKey \<Rightarrow> 0)"
    by (simp only: simp_thms)
  from r6 r5 show ?thesis
    by (simp only: e5 simp_thms)
qed

section \<open>The login command\<close>

subsection \<open>What the stages of Run do to the outside\<close>

lemma log_Print_facts [simp]:
  "fs (log_Print s w) = fs w" "events (log_Print s w) = events w" "env (log_Print s w) = env w"
  by (simp_all add: log_Print_def split: log_target.splits)

lemma Run_log_setup_facts:
  assumes "Run_log_setup l w = (r, w1)"
  shows "events w1 = events w" and "env w1 = env w" and "denied (fs w1) = denied (fs w)"
    and "umask (fs w1) = umask (fs w)"
  using assms
  by (auto simp: Run_log_setup_def OpenFile_append_def split: if_splits option.splits sum.splits)


lemma afs_WriteFile_events:
  "afs_WriteFile p d m w = (r, w') \<Longrightarrow> events w' = events w @ [EvWriteFile p d m]"
  by (auto simp: afs_WriteFile_def Let_def split: sum.splits)

lemma CreateDefaultClientConfig_auth:
  assumes "CreateDefaultClientConfig C configPath w = (r, w')"
  shows "filter is_auth (events w') = filter is_auth (events w)"
proof -
  have "events w' = events w \<or> (\<exists>p d m. events w' = events w @ [EvWriteFile p d m])"
    using assms
    by (auto simp: CreateDefaultClientConfig_def dest!: afs_WriteFile_events
             split: if_splits sum.splits option.splits prod.splits)
  then show ?thesis by auto
qed

lemma Run_load_config_auth:
  assumes "Run_load_config C l path w = (r, w')"
  shows "filter is_auth (events w') = filter is_auth (events w)"
proof (cases "Stat (fs w) path")
  case (Inr n)
  with assms have "events w' = events w"
    by (auto simp: Run_load_config_def Let_def split: sum.splits if_splits)
  then show ?thesis by simp
next
  case (Inl e)
  show ?thesis
  proof (cases "createConfigArg l")
    case True
    with Inl assms obtain r0 where "CreateDefaultClientConfig C path w = (r0, w')"
      by (auto simp: Run_load_config_def split: prod.splits)
    then show ?thesis by (rule CreateDefaultClientConfig_auth)
  next
    case False
    with Inl assms have "events w' = events w"
      by (auto simp: Run_load_config_def Let_def split: sum.splits)
    then show ?thesis by simp
  qed
qed

lemma Run_provider_auth:
  assumes "Run_provider C l w = (r, w')"
  shows "filter is_auth (events w') = filter is_auth (events w)"
proof -
  have "events w' = events w \<or> events w' = events w @ [EvChooseOp]"
    using assms
    by (auto simp: Run_provider_def Let_def split: option.splits sum.splits choice.splits)
  then show ?thesis by auto
qed

lemma Run_resolve_auth:
  assumes "Run_resolve C l w = (r, w')"
  shows "filter is_auth (events w') = filter is_auth (events w)"
proof -
  obtain r1 w1 where s1: "Run_log_setup l w = (r1, w1)"
    by (cases "Run_log_setup l w")
  note e1 = Run_log_setup_facts(1)[OF s1]
  show ?thesis
  proof (cases r1)
    case (Some e)
    with s1 assms have "w' = w1" by (simp add: Run_resolve_def)
    with e1 show ?thesis by simp
  next
    case None
    let ?w2 = "if verbosity l \<ge> 2 then log_Print ''DEBUG: running login command with args'' w1 else w1"
    have e2: "events ?w2 = events w" using e1 by simp
    show ?thesis
    proof (cases "Run_config_path l ?w2")
      case (Inl e)
      with None s1 assms have "w' = ?w2" by (simp add: Run_resolve_def Let_def)
      with e2 show ?thesis by simp
    next
      case (Inr path)
      obtain r3 w3 where s3: "Run_load_config C l path ?w2 = (r3, w3)"
        by (cases "Run_load_config C l path ?w2")
      from Run_load_config_auth[OF s3] e2
      have e3: "filter is_auth (events w3) = filter is_auth (events w)" by simp
      show ?thesis
      proof (cases r3)
        case (Inl r0)
        with None s1 Inr s3 assms have "w' = w3" by (simp add: Run_resolve_def Let_def)
        with e3 show ?thesis by simp
      next
        case (Inr cfg)
        obtain r4 w4 where s4:
          "Run_provider C (l\<lparr>configPathArg := path, config := Some cfg\<rparr>) w3 = (r4, w4)"
          by (cases "Run_provider C (l\<lparr>configPathArg := path, config := Some cfg\<rparr>) w3")
        from None s1 \<open>Run_config_path l ?w2 = Inr path\<close> s3 Inr s4 assms have "w' = w4"
          by (cases r4) (simp_all add: Run_resolve_def Let_def)
        with Run_provider_auth[OF s4] e3 show ?thesis by simp
      qed
    qed
  qed
qed

text \<open>
  Claim C9. When \<open>login\<close> is run with \<open>--auto-refresh\<close> and the provider it has settled on
  cannot be refreshed, \<open>Run\<close> returns the error that names the provider's issuer, and
  from the start of \<open>Run\<close> to its return no authentication has been attempted.
\<close>

theorem C9_auto_refresh_unsupported:
  assumes "autoRefreshArg l"
      and "Run_resolve C l w = (Inr p, w1)"
      and "\<not> refreshable p"
  shows "Run C X ticks l w =
           (Returns (Some (Err (''supplied OpenID Provider ('' @ Issuer p @
              '') does not support auto-refresh and auto-refresh argument set to true''))), w1) \<and>
         filter is_auth (events w1) = filter is_auth (events w)"
  using assms Run_resolve_auth[OF assms(2)]
  by (simp add: Run_def Run_login_def)

text \<open>
  A run of C9: \<open>login --auto-refresh --provider https://plain.example\<close>, whose provider
  cannot be refreshed.
\<close>

theorem C9_auto_refresh_unsupported_witness:
  "\<exists>w1. Run_resolve demo_C (demo_login\<lparr>autoRefreshArg := True, providerArg := ''https://plain.example''\<rparr>)
           (demo_world []) = (Inr plain_provider, w1) \<and>
        \<not> refreshable plain_provider \<and>
        Run demo_C demo_X demo_ticks
            (demo_login\<lparr>autoRefreshArg := True, providerArg := ''https://plain.example''\<rparr>)
            (demo_world []) =
          (Returns (Some (Err (''supplied OpenID Provider ('' @ ''https://plain.example'' @
              '') does not support auto-refresh and auto-refresh argument set to true''))), w1) \<and>
        filter is_auth (events w1) = []"
proof -
  let ?l = "demo_login\<lparr>autoRefreshArg := True, providerArg := ''https://plain.example''\<rparr>"
  have a: "autoRefreshArg ?l"
    by simp
  have nr: "\<not> refreshable plain_provider" and i: "Issuer plain_provider = ''https://plain.example''"
    by (simp_all add: plain_provider_def)
  have e0: "events (demo_world []) = []"
    by (simp add: demo_world_def)
  have "\<exists>w1. Run_resolve demo_C ?l (demo_world []) = (Inr plain_provider, w1)"
    by (simp add: Run_resolve_def Run_log_setup_def Run_config_path_def Run_load_config_def
          Run_provider_def determineProvider_def provider_from_arg_def NewClientConfig_def
          demo_login_def demo_C_def demo_pc_def plain_provider_def
          UserHomeDir_def log_Print_def path_eval fs_eval)
  then obtain w1 where r: "Run_resolve demo_C ?l (demo_world []) = (Inr plain_provider, w1)"
    by iprover
  from C9_auto_refresh_unsupported[OF a r nr, of demo_X demo_ticks]
  have "Run demo_C demo_X demo_ticks ?l (demo_world []) =
          (Returns (Some (Err (''supplied OpenID Provider ('' @ ''https://plain.example'' @
              '') does not support auto-refresh and auto-refresh argument set to true''))), w1) \<and>
        filter is_auth (events w1) = []"
    by (simp only: i e0 filter.simps)
  with r nr show ?thesis
    by (intro exI[of _ w1] conjI) (simp_all only: simp_thms)
qed


subsection \<open>Creating the default client configuration\<close>










section \<open>The verifier's server configuration\<close>

lemma CheckPerm_deviates:
  assumes "Stat f path = Inr n"
      and "owner_of path \<noteq> (''root'', ''opksshuser'') \<or> perm n \<noteq> oct 6 4 0"
  shows "\<exists>m. CheckPerm owner_of f path [oct 6 4 0] ''root'' ''opksshuser'' = Some (ConfigPerms m)"
  using assms
  by (cases "owner_of path") (auto simp: CheckPerm_def)

lemma CheckPerm_ok:
  assumes "CheckPerm owner_of f path [oct 6 4 0] ''root'' ''opksshuser'' = None"
  shows "owner_of path = (''root'', ''opksshuser'') \<and>
         (\<exists>n. Stat f path = Inr n \<and> perm n = oct 6 4 0)"
  using assms
  by (cases "owner_of path") (auto simp: CheckPerm_def split: sum.splits if_splits)

text \<open>
  Claim C2. A trusted file that exists and whose owner is not \<open>root\<close>, whose group is not
  \<open>opksshuser\<close> or whose mode is not \<open>640\<close> is refused with a permission error, whatever
  its bytes are, and \<open>SetEnvVarInConfig\<close> then returns that error and leaves the process
  as it was. When \<open>SetEnvVarInConfig\<close> has changed the environment, it has returned no
  error, the file has owner \<open>root:opksshuser\<close> and mode \<open>640\<close>, and the new environment is
  the old one with the file's \<open>env_vars\<close> set.
\<close>

theorem C2_trusted_file_permissions:
  "(Stat (fs w) path = Inr n \<and>
    (owner_of path \<noteq> (''root'', ''opksshuser'') \<or> perm n \<noteq> oct 6 4 0) \<longrightarrow>
      (\<exists>m. load_trusted_file owner_of (fs w) path = Inl (ConfigPerms m) \<and>
           SetEnvVarInConfig owner_of parse path w = (Some (ConfigPerms m), w))) \<and>
   (SetEnvVarInConfig owner_of parse path w = (r, w') \<and> env w' \<noteq> env w \<longrightarrow>
      r = None \<and> owner_of path = (''root'', ''opksshuser'') \<and>
      (\<exists>k env_vars. Stat (fs w) path = Inr k \<and> perm k = oct 6 4 0 \<and>
         parse (data k) = Inr env_vars \<and>
         env w' = fold (\<lambda>kv e. e(fst kv \<mapsto> snd kv)) env_vars (env w)))"
proof (intro conjI impI)
  assume "Stat (fs w) path = Inr n \<and>
    (owner_of path \<noteq> (''root'', ''opksshuser'') \<or> perm n \<noteq> oct 6 4 0)"
  then obtain m where
    "CheckPerm owner_of (fs w) path [oct 6 4 0] ''root'' ''opksshuser'' = Some (ConfigPerms m)"
    using CheckPerm_deviates[of "fs w" path n owner_of] by iprover
  then have "load_trusted_file owner_of (fs w) path = Inl (ConfigPerms m) \<and>
           SetEnvVarInConfig owner_of parse path w = (Some (ConfigPerms m), w)"
    by (simp add: load_trusted_file_def SetEnvVarInConfig_def)
  then show "\<exists>m. load_trusted_file owner_of (fs w) path = Inl (ConfigPerms m) \<and>
           SetEnvVarInConfig owner_of parse path w = (Some (ConfigPerms m), w)"
    by (rule exI)
next
  assume h: "SetEnvVarInConfig owner_of parse path w = (r, w') \<and> env w' \<noteq> env w"
  then have s: "SetEnvVarInConfig owner_of parse path w = (r, w')" and ne: "env w' \<noteq> env w"
    by simp_all
  have c: "CheckPerm owner_of (fs w) path [oct 6 4 0] ''root'' ''opksshuser'' = None"
  proof (cases "CheckPerm owner_of (fs w) path [oct 6 4 0] ''root'' ''opksshuser''")
    case None
    then show ?thesis .
  next
    case (Some e)
    with s have "w' = w"
      by (simp add: load_trusted_file_def SetEnvVarInConfig_def)
    with ne show ?thesis
      by simp
  qed
  from CheckPerm_ok[OF c] obtain k where
    o: "owner_of path = (''root'', ''opksshuser'')" and k: "Stat (fs w) path = Inr k"
    and p: "perm k = oct 6 4 0"
    by iprover
  have rd: "ReadFile (fs w) path = Inr (data k)"
  proof (cases "ReadFile (fs w) path")
    case (Inl e)
    with s c have "w' = w"
      by (simp add: load_trusted_file_def SetEnvVarInConfig_def)
    with ne show ?thesis
      by simp
  next
    case (Inr content)
    with k show ?thesis
      by (auto simp: ReadFile_def Open_def Stat_def split: if_splits option.splits)
  qed
  have "\<exists>env_vars. r = None \<and> parse (data k) = Inr env_vars \<and>
         env w' = fold (\<lambda>kv e. e(fst kv \<mapsto> snd kv)) env_vars (env w)"
  proof (cases "parse (data k)")
    case (Inl e)
    with s c rd have "w' = w"
      by (simp add: load_trusted_file_def SetEnvVarInConfig_def)
    with ne show ?thesis
      by simp
  next
    case (Inr vs)
    with s c rd have "r = None \<and> env w' = fold (\<lambda>kv e. e(fst kv \<mapsto> snd kv)) vs (env w)"
      by (auto simp: load_trusted_file_def SetEnvVarInConfig_def)
    with Inr show ?thesis
      by simp
  qed
  with o k p show "r = None" and "owner_of path = (''root'', ''opksshuser'')"
    and "\<exists>k env_vars. Stat (fs w) path = Inr k \<and> perm k = oct 6 4 0 \<and>
         parse (data k) = Inr env_vars \<and>
         env w' = fold (\<lambda>kv e. e(fst kv \<mapsto> snd kv)) env_vars (env w)"
    by auto
qed

text \<open>
  Two runs of C2, as in \<open>TestEnvFromConfig\<close>: the server configuration with mode \<open>677\<close>
  is refused with its right contents, and with mode \<open>640\<close> its variable is exported.
\<close>

theorem C2_trusted_file_permissions_witness:
  "(\<exists>m. SetEnvVarInConfig (\<lambda>p. (''root'', ''opksshuser'')) demo_parse_env
          ''/etc/opk/server_config.yml'' (server_world (oct 6 7 7))
        = (Some (ConfigPerms m), server_world (oct 6 7 7))) \<and>
   env (snd (SetEnvVarInConfig (\<lambda>p. (''root'', ''opksshuser'')) demo_parse_env
          ''/etc/opk/server_config.yml'' (server_world (oct 6 4 0)))) ''OPKSSH_TEST_EXAMPLE_VAR1''
     = Some ''ABC'' \<and>
   fst (SetEnvVarInConfig (\<lambda>p. (''root'', ''opksshuser'')) demo_parse_env
          ''/etc/opk/server_config.yml'' (server_world (oct 6 4 0))) = None"
proof -
  let ?o = "\<lambda>p::string. (''root'', ''opksshuser'')"
  let ?p = "''/etc/opk/server_config.yml''"
  let ?n = "reg ''env_vars: OPKSSH_TEST_EXAMPLE_VAR1: ABC'' (oct 6 7 7)"
  have h1: "Stat (fs (server_world (oct 6 7 7))) ?p = Inr ?n \<and>
            (?o ?p \<noteq> (''root'', ''opksshuser'') \<or> perm ?n \<noteq> oct 6 4 0)"
    by (simp add: server_world_def path_eval fs_eval)
  from C2_trusted_file_permissions[where w = "server_world (oct 6 7 7)" and path = ?p and n = ?n
         and owner_of = ?o and parse = demo_parse_env, THEN conjunct1, THEN mp, OF h1]
  have part1: "\<exists>m. SetEnvVarInConfig ?o demo_parse_env ?p (server_world (oct 6 7 7))
        = (Some (ConfigPerms m), server_world (oct 6 7 7))"
    by iprover
  obtain r w' where s: "SetEnvVarInConfig ?o demo_parse_env ?p (server_world (oct 6 4 0)) = (r, w')"
    by (cases "SetEnvVarInConfig ?o demo_parse_env ?p (server_world (oct 6 4 0))")
  have v: "env w' ''OPKSSH_TEST_EXAMPLE_VAR1'' = Some ''ABC''"
    using s
    by (auto simp: SetEnvVarInConfig_def load_trusted_file_def CheckPerm_def
          server_world_def demo_parse_env_def path_eval fs_eval)
  have "env (server_world (oct 6 4 0)) ''OPKSSH_TEST_EXAMPLE_VAR1'' = None"
    by (simp add: server_world_def demo_world_def)
  with v have ne: "env w' \<noteq> env (server_world (oct 6 4 0))"
    by auto
  from s ne have h2: "SetEnvVarInConfig ?o demo_parse_env ?p (server_world (oct 6 4 0)) = (r, w') \<and>
      env w' \<noteq> env (server_world (oct 6 4 0))"
    by simp
  from C2_trusted_file_permissions[where w = "server_world (oct 6 4 0)" and path = ?p
         and owner_of = ?o and parse = demo_parse_env and r = r and w' = w',
         THEN conjunct2, THEN mp, OF h2]
  have r: "r = None"
    by iprover
  from part1 v r s show ?thesis
    by simp
qed

end
